(* ===== verification/Dpdk_Prelude.thy ===== *)
theory Dpdk_Prelude
  imports Main "HOL-Library.Word" "HOL-Library.Sublist"
begin

text \<open>
  Shared vocabulary of the development: the widths of the C++ integer types, the
  byte-level view of memory on the little-endian x86-64 hosts the program targets,
  the byte-order conversions of \<^verbatim>\<open>rte_byteorder.h\<close>, the standard-library
  comparisons the code uses (\<^verbatim>\<open>std::memcmp\<close>), and the generic
  ``first match in rank order'' interface that the L3 route table, the SPI rule table
  and the DPI rule table all implement.
\<close>

unbundle bit_operations_syntax

section \<open>Types\<close>

type_synonym byte = "8 word"
type_synonym u16 = "16 word"
type_synonym u32 = "32 word"
type_synonym u64 = "64 word"
type_synonym bytes = "byte list"

text \<open>
  \<open>wire_simps\<close> collects the facts that move between bytes in memory and words in
  registers; \<open>slice_simps\<close> those about sub-ranges of byte lists.
\<close>

named_theorems wire_simps
named_theorems slice_simps

section \<open>Numbers in text\<close>

text \<open>Decimal digits, as \<^verbatim>\<open>std::to_string\<close> and the \<^verbatim>\<open>%d\<close> of \<^verbatim>\<open>snprintf\<close> give them.\<close>

fun decimal :: "nat \<Rightarrow> string" where
  "decimal n = (if n < 10 then [char_of (48 + n)] else decimal (n div 10) @ [char_of (48 + n mod 10)])"

declare decimal.simps [simp del]

section \<open>Bytes and words\<close>

text \<open>The object representation of an unsigned integer: least significant byte first.\<close>

definition le_bytes16 :: "u16 \<Rightarrow> bytes" where
  "le_bytes16 w = [ucast w, ucast (drop_bit 8 w)]"

definition le_bytes32 :: "u32 \<Rightarrow> bytes" where
  "le_bytes32 w = [ucast w, ucast (drop_bit 8 w), ucast (drop_bit 16 w), ucast (drop_bit 24 w)]"

text \<open>Loading an unsigned integer from its object representation.\<close>

fun le_load :: "bytes \<Rightarrow> 'a::len word" where
  "le_load [] = 0"
| "le_load (b # bs) = ucast b OR push_bit 8 (le_load bs)"

text \<open>The first \<open>n\<close> bytes of the object representation of a word of any width.\<close>

definition le_bytes :: "nat \<Rightarrow> 'a::len word \<Rightarrow> bytes" where
  "le_bytes n w = map (\<lambda>i. ucast (drop_bit (8 * i) w)) [0..<n]"

text \<open>The conversions between network (big endian) and host order.\<close>

definition rte_be_to_cpu_16 :: "u16 \<Rightarrow> u16" where
  "rte_be_to_cpu_16 w = drop_bit 8 w OR push_bit 8 w"

definition rte_be_to_cpu_32 :: "u32 \<Rightarrow> u32" where
  "rte_be_to_cpu_32 w =
     drop_bit 24 w OR (drop_bit 8 w AND 0xFF00) OR (push_bit 8 w AND 0xFF0000) OR push_bit 24 w"

definition ascii :: "string \<Rightarrow> bytes" where
  "ascii s = map of_char s"

text \<open>\<^verbatim>\<open>std::memcmp\<close> on two buffers of the same length: the sign of the first difference.\<close>

fun memcmp :: "bytes \<Rightarrow> bytes \<Rightarrow> int" where
  "memcmp (x # xs) (y # ys) = (if x < y then -1 else if y < x then 1 else memcmp xs ys)"
| "memcmp _ _ = 0"

lemma le_load_le_bytes32 [wire_simps]: "le_load (le_bytes32 w) = w"
proof (rule bit_word_eqI)
  fix n assume "n < LENGTH(32)"
  then consider "n < 8" | "8 \<le> n" "n < 16" | "16 \<le> n" "n < 24" | "24 \<le> n" "n < 32"
    by fastforce
  then show "bit (le_load (le_bytes32 w) :: u32) n = bit w n"
    by cases (auto simp: le_bytes32_def bit_simps)
qed

lemma le_load_le_bytes16 [wire_simps]: "le_load (le_bytes16 w) = w"
proof (rule bit_word_eqI)
  fix n assume "n < LENGTH(16)"
  then consider "n < 8" | "8 \<le> n" "n < 16"
    by fastforce
  then show "bit (le_load (le_bytes16 w) :: u16) n = bit w n"
    by cases (auto simp: le_bytes16_def bit_simps)
qed

lemma bit_le_load:
  "bit (le_load bs :: 'a::len word) n \<longleftrightarrow>
     n < LENGTH('a) \<and> n div 8 < length bs \<and> bit (bs ! (n div 8)) (n mod 8)"
proof (induction bs arbitrary: n)
  case (Cons b bs)
  show ?case
  proof (cases "n < 8")
    case True
    then show ?thesis by (auto simp: bit_simps)
  next
    case False
    then obtain m where n: "n = m + 8" by (metis add.commute le_add_diff_inverse not_less)
    have "\<not> bit b (m + 8)" using bit_imp_le_length [of b "m + 8"] by auto
    moreover have "(m + 8) div 8 = Suc (m div 8)" by simp
    ultimately show ?thesis by (auto simp: n bit_simps Cons)
  qed
qed (simp add: bit_simps)

lemma length_le_bytes [simp]: "length (le_bytes n w) = n"
  by (simp add: le_bytes_def)

lemma le_bytes_le_load [wire_simps]:
  assumes "length bs \<le> n" and "8 * n \<le> LENGTH('a)"
  shows "le_bytes n (le_load bs :: 'a::len word) = bs @ replicate (n - length bs) 0"
proof (rule nth_equalityI)
  fix i assume i: "i < length (le_bytes n (le_load bs :: 'a word))"
  show "le_bytes n (le_load bs :: 'a word) ! i = (bs @ replicate (n - length bs) 0) ! i"
  proof (rule bit_word_eqI)
    fix j assume "j < LENGTH(8)"
    then have j: "(8 * i + j) div 8 = i" "(8 * i + j) mod 8 = j" "8 * i + j < LENGTH('a)" "j < 8"
      using i assms(2) by auto
    then show "bit (le_bytes n (le_load bs :: 'a word) ! i) j =
               bit ((bs @ replicate (n - length bs) 0) ! i) j"
      using i by (auto simp: le_bytes_def bit_simps bit_le_load nth_append)
  qed
qed (use assms in simp)

lemma le_load_inject:
  assumes "length bs = length cs" and "8 * length bs \<le> LENGTH('a)"
  shows "(le_load bs :: 'a::len word) = le_load cs \<longleftrightarrow> bs = cs"
  using le_bytes_le_load [of bs "length bs", where 'a = 'a] le_bytes_le_load [of cs "length bs", where 'a = 'a]
    assms by (metis append.right_neutral diff_self_eq_0 order_refl replicate_0)

lemma length_le_bytes32 [simp]: "length (le_bytes32 w) = 4"
  by (simp add: le_bytes32_def)

lemma le_bytes32_inject [simp]: "le_bytes32 a = le_bytes32 b \<longleftrightarrow> a = b"
  by (metis le_load_le_bytes32)

lemma rte_be_to_cpu_16_invol [wire_simps, simp]: "rte_be_to_cpu_16 (rte_be_to_cpu_16 w) = w"
proof (rule bit_word_eqI)
  fix n assume "n < LENGTH(16)"
  then consider "n < 8" | "8 \<le> n" "n < 16"
    by fastforce
  then show "bit (rte_be_to_cpu_16 (rte_be_to_cpu_16 w)) n = bit w n"
    by cases (simp_all add: rte_be_to_cpu_16_def bit_simps)
qed

lemma rte_be_to_cpu_16_inject [simp]: "rte_be_to_cpu_16 a = rte_be_to_cpu_16 b \<longleftrightarrow> a = b"
  by (metis rte_be_to_cpu_16_invol)

lemma rte_be_to_cpu_32_invol [simp]: "rte_be_to_cpu_32 (rte_be_to_cpu_32 w) = w"
proof (rule bit_word_eqI)
  have masks: "(0xFF00 :: u32) = push_bit 8 (mask 8)" "(0xFF0000 :: u32) = push_bit 16 (mask 8)"
    by (simp_all add: mask_eq_exp_minus_1 push_bit_eq_mult)
  fix n assume "n < LENGTH(32)"
  then consider "n < 8" | "8 \<le> n" "n < 16" | "16 \<le> n" "n < 24" | "24 \<le> n" "n < 32" by fastforce
  then show "bit (rte_be_to_cpu_32 (rte_be_to_cpu_32 w)) n = bit w n"
    unfolding rte_be_to_cpu_32_def masks by cases (auto simp: bit_simps dest: bit_imp_le_length)
qed

lemma memcmp_refl [simp]: "memcmp xs xs = 0"
  by (induction xs) auto

lemma memcmp_sym: "length xs = length ys \<Longrightarrow> memcmp ys xs = - memcmp xs ys"
  by (induction xs ys rule: list_induct2) auto

lemma memcmp_zero_iff: "length xs = length ys \<Longrightarrow> memcmp xs ys = 0 \<longleftrightarrow> xs = ys"
  by (induction xs ys rule: list_induct2) auto

section \<open>Sub-ranges\<close>

text \<open>\<^verbatim>\<open>std::span::subspan(off, n)\<close>, for ranges that lie inside the span.\<close>

definition subspan :: "nat \<Rightarrow> nat \<Rightarrow> 'a list \<Rightarrow> 'a list" where
  "subspan off n xs = take n (drop off xs)"

lemma length_subspan [slice_simps]: "off + n \<le> length xs \<Longrightarrow> length (subspan off n xs) = n"
  by (simp add: subspan_def)

lemma prefix_drop_append:
  assumes "prefix xs (drop k zs)" and "prefix ys (drop (k + length xs) zs)"
  shows "prefix (xs @ ys) (drop k zs)"
proof -
  from assms(1) obtain us where us: "drop k zs = xs @ us" by (auto elim: prefixE)
  then have "drop (k + length xs) zs = us"
    by (metis add.commute append_eq_conv_conj drop_drop)
  with assms(2) us show ?thesis by simp
qed

lemma prefix_drop_drop:
  assumes "prefix xs (drop k zs)" and "t \<le> length xs"
  shows "prefix (drop t xs) (drop (k + t) zs)"
proof -
  from assms(1) obtain us where us: "drop k zs = xs @ us" by (auto elim: prefixE)
  then have "drop (k + t) zs = drop t (xs @ us)" by (metis add.commute drop_drop)
  with assms(2) show ?thesis by simp
qed

section \<open>Splitting a list at its first hit\<close>

lemma dropWhile_split:
  assumes "dropWhile P xs = y # ys"
  shows "xs = takeWhile P xs @ y # ys"
  by (metis assms takeWhile_dropWhile_id)

lemma length_dropWhile_split:
  assumes "dropWhile P xs = y # ys"
  shows "length xs = Suc (length (takeWhile P xs) + length ys)"
  using arg_cong [OF dropWhile_split [OF assms], of length] by simp

section \<open>Maps\<close>

lemma ran_remove:
  assumes "m k = Some i" and "\<And>k'. m k' = Some i \<Longrightarrow> k' = k"
  shows "ran (m(k := None)) = ran m - {i}"
proof (intro equalityI subsetI)
  fix b assume "b \<in> ran (m(k := None))"
  then obtain a where a: "a \<noteq> k" "m a = Some b" by (auto simp: ran_def split: if_splits)
  then have "b \<noteq> i" using assms(2) [of a] by auto
  with a show "b \<in> ran m - {i}" by (auto intro: ranI)
next
  fix b assume "b \<in> ran m - {i}"
  then obtain a where "m a = Some b" "b \<noteq> i" by (auto simp: ran_def)
  with assms(1) have "(m(k := None)) a = Some b" by auto
  then show "b \<in> ran (m(k := None))" by (rule ranI)
qed

section \<open>Tables searched in rank order\<close>

text \<open>
  The contract that the L3 route table, the SPI rule table and the DPI rule table share: a
  query is answered by an entry that hits and has the least rank among all that do, and
  it goes unanswered only if none does.
\<close>

locale ranked_choice =
  fixes entries :: "'t \<Rightarrow> 'e list"
    and rank :: "'e \<Rightarrow> nat"
    and hits :: "'e \<Rightarrow> 'p \<Rightarrow> bool"
    and answer :: "'e \<Rightarrow> 'r"
    and select :: "'t \<Rightarrow> 'p \<Rightarrow> 'r option"
    and table_ok :: "'t \<Rightarrow> 'p \<Rightarrow> bool"
  assumes select_least: "table_ok t p \<Longrightarrow> select t p = Some r \<Longrightarrow>
        \<exists>e \<in> set (entries t). r = answer e \<and> hits e p \<and>
           (\<forall>e' \<in> set (entries t). hits e' p \<longrightarrow> rank e \<le> rank e')"
    and select_none: "table_ok t p \<Longrightarrow> select t p = None \<longleftrightarrow> (\<forall>e \<in> set (entries t). \<not> hits e p)"
begin

lemma select_characterised:
  assumes "table_ok t p"
  shows "case select t p of
       None \<Rightarrow> \<forall>e \<in> set (entries t). \<not> hits e p
     | Some r \<Rightarrow> \<exists>e \<in> set (entries t). r = answer e \<and> hits e p \<and>
                  (\<forall>e' \<in> set (entries t). hits e' p \<longrightarrow> rank e \<le> rank e')"
  using select_least [OF assms] select_none [OF assms] by (cases "select t p") auto

text \<open>When no two entries share a rank the answer is determined.\<close>

lemma select_unique:
  assumes "table_ok t p" and "inj_on rank (set (entries t))" and "e \<in> set (entries t)" and "hits e p"
    and "\<And>e'. e' \<in> set (entries t) \<Longrightarrow> hits e' p \<Longrightarrow> rank e \<le> rank e'"
  shows "select t p = Some (answer e)"
proof (cases "select t p")
  case None
  with select_none [OF assms(1)] assms(3,4) show ?thesis by blast
next
  case (Some r)
  from select_least [OF assms(1) this] obtain e' where
    e': "e' \<in> set (entries t)" "r = answer e'" "hits e' p" "rank e' \<le> rank e" using assms(3,4) by blast
  with assms(5) have "rank e = rank e'" by force
  with assms(2,3) e'(1) have "e = e'" by (auto dest: inj_onD)
  with Some e'(2) show ?thesis by simp
qed

end

text \<open>
  A table is searched front to back and its entries ascend in rank. Searching in that
  order implements the contract.
\<close>

locale first_match =
  fixes entries :: "'t \<Rightarrow> 'e list"
    and rank :: "'e \<Rightarrow> nat"
    and hits :: "'e \<Rightarrow> 'p \<Rightarrow> bool"
    and answer :: "'e \<Rightarrow> 'r"
    and select :: "'t \<Rightarrow> 'p \<Rightarrow> 'r option"
    and table_ok :: "'t \<Rightarrow> bool"
  assumes select_find: "table_ok t \<Longrightarrow> select t p = map_option answer (find (\<lambda>e. hits e p) (entries t))"
    and ranked: "table_ok t \<Longrightarrow> sorted (map rank (entries t))"

lemma find_minimal:
  assumes "sorted (map rank es)" and "find P es = Some e"
  shows "e \<in> set es \<and> P e \<and> (\<forall>e' \<in> set es. P e' \<longrightarrow> rank e \<le> rank e')"
  using assms by (induction es) (auto split: if_splits)

sublocale first_match \<subseteq> ranked_choice entries rank hits answer select "\<lambda>t p. table_ok t"
proof (unfold_locales, goal_cases)
  case (1 t p r)
  then obtain e where "find (\<lambda>e. hits e p) (entries t) = Some e" and "r = answer e"
    by (auto simp: select_find)
  with find_minimal [OF ranked [OF 1(1)]] show ?case by blast
next
  case (2 t p)
  then show ?case by (auto simp: select_find find_None_iff)
qed

end
