(* ===== verification/Spi_Types.thy ===== *)
theory Spi_Types
  imports Dpdk_Prelude
begin

text \<open>
  The data types every component shares, from \<^verbatim>\<open>spi_rule_engine.hpp\<close>: the
  protocol, action and IP-version enumerations, the parsed packet metadata, and the
  classification result. A pointer-and-length pair into a packet (the hostname) is the
  bytes it denotes, \<open>None\<close> for the null pointer; fields named \<open>_be\<close> hold the raw
  network-order bytes as loaded on the host.
\<close>

datatype Protocol = kTcp | kUdp

datatype Action = kForward | kDrop

datatype IpVersion = kIpv4 | kIpv6

record PacketMetadata =
  source_ip6_address :: bytes
  destination_ip6_address :: bytes
  hostname :: "bytes option"
  source_ip_be :: u32
  destination_ip_be :: u32
  source_port_be :: u16
  destination_port_be :: u16
  tcp_sequence :: u32
  tcp_payload_offset :: u32
  tcp_payload_length :: u32
  tcp_flags :: byte
  protocol :: Protocol
  ip_version :: IpVersion

text \<open>The metadata as the C++ member initialisers leave it.\<close>

definition default_metadata :: PacketMetadata where
  "default_metadata = \<lparr>
     source_ip6_address = replicate 16 0, destination_ip6_address = replicate 16 0,
     hostname = None, source_ip_be = 0, destination_ip_be = 0,
     source_port_be = 0, destination_port_be = 0,
     tcp_sequence = 0, tcp_payload_offset = 0, tcp_payload_length = 0, tcp_flags = 0,
     protocol = kTcp, ip_version = kIpv4\<rparr>"

text \<open>\<^verbatim>\<open>kNoDpiLink\<close>: the index meaning that a group has no static link.\<close>

definition kNoDpiLink :: u32 where
  "kNoDpiLink = - 1"

record ClassificationResult =
  cr_group_name :: string
  cr_label :: string
  cr_group_precedence :: u32
  cr_bound_dpi_filter_index :: u32
  cr_action :: Action
  cr_matched :: bool
  cr_l7_required :: bool

definition no_classification :: ClassificationResult where
  "no_classification = \<lparr>cr_group_name = [], cr_label = [], cr_group_precedence = 0,
     cr_bound_dpi_filter_index = kNoDpiLink, cr_action = kForward, cr_matched = False,
     cr_l7_required = False\<rparr>"

lemma cr_matched_no_classification [simp]: "cr_matched no_classification = False"
  by (simp add: no_classification_def)

end
