(* ===== verification/Tcp_Reassembly.thy ===== *)
theory Tcp_Reassembly
  imports Spi_Types "HOL-Library.AList"
begin

text \<open>
  The bounded per-worker TCP stream reassembler (\<^verbatim>\<open>spi_tcp_reassembly.hpp\<close>,
  \<^verbatim>\<open>spi_tcp_reassembly.cpp\<close>). Sequence numbers are 32-bit words and wrap; the
  signed distance is \<^term>\<open>sint\<close> of the wrapped difference. Byte counts
  (\<^verbatim>\<open>std::size_t\<close>) are naturals: the invariant bounds them by the memory budget,
  which is at most \<open>2 ^ 52\<close>, so no 64-bit count of the code wraps. The hash map of
  streams is an association list with distinct keys; its iteration order is not relied on.
\<close>

section \<open>Data\<close>

datatype TcpReassemblyStatus =
  kDisabled | kWaiting | kReady | kConflictingOverlap | kResourceLimit

record TcpReassemblyConfig =
  trc_enabled :: bool
  trc_idle_timeout_sec :: u32
  trc_max_concurrent_streams :: u32
  trc_max_buffered_bytes_per_direction :: u32
  trc_max_out_of_order_segments :: u16
  trc_memory_budget_mb :: u32
  trc_drop_conflicting_overlap :: bool

record TcpReassemblyResult =
  trr_status :: TcpReassemblyStatus
  trr_contiguous_payload :: bytes

record Endpoint =
  ep_address :: bytes
  ep_port :: u16

record StreamKey =
  sk_first :: Endpoint
  sk_second :: Endpoint
  sk_version :: IpVersion

record PendingSegment =
  ps_sequence :: u32
  ps_payload :: bytes

record DirectionState =
  base_known :: bool
  base_sequence :: u32
  next_sequence :: u32
  contiguous :: bytes
  pending :: "PendingSegment list"

record StreamState =
  directions :: "DirectionState list"
  last_seen_tsc :: u64

record TcpStreamReassembler =
  trs_config :: TcpReassemblyConfig
  timeout_cycles :: u64
  buffered_bytes :: nat
  memory_budget_bytes :: nat
  streams :: "(StreamKey \<times> StreamState) list"

definition empty_direction :: DirectionState where
  "empty_direction = \<lparr>base_known = False, base_sequence = 0, next_sequence = 0,
     contiguous = [], pending = []\<rparr>"

definition kBytesPerMiB :: nat where
  "kBytesPerMiB = 1024 * 1024"

section \<open>Operations\<close>

definition make_TcpStreamReassembler :: "TcpReassemblyConfig \<Rightarrow> u64 \<Rightarrow> TcpStreamReassembler" where
  "make_TcpStreamReassembler config tsc_hz = \<lparr>
     trs_config = config,
     timeout_cycles = ucast (trc_idle_timeout_sec config) * tsc_hz,
     buffered_bytes = 0,
     memory_budget_bytes = unat (trc_memory_budget_mb config) * kBytesPerMiB,
     streams = []\<rparr>"

definition EndpointLess :: "Endpoint \<Rightarrow> Endpoint \<Rightarrow> bool" where
  "EndpointLess lhs rhs =
     (let address_order = memcmp (ep_address lhs) (ep_address rhs)
      in address_order < 0 \<or> (address_order = 0 \<and> ep_port lhs < ep_port rhs))"

definition DirectionBytes :: "DirectionState \<Rightarrow> nat" where
  "DirectionBytes d = length (contiguous d) + sum_list (map (\<lambda>p. length (ps_payload p)) (pending d))"

definition StateBytes :: "StreamState \<Rightarrow> nat" where
  "StateBytes state = sum_list (map DirectionBytes (directions state))"

definition MakeKey :: "PacketMetadata \<Rightarrow> StreamKey \<times> nat" where
  "MakeKey metadata =
     (let source = \<lparr>ep_address = (if ip_version metadata = kIpv4
                      then le_bytes32 (source_ip_be metadata) @ replicate 12 0
                      else source_ip6_address metadata),
                    ep_port = source_port_be metadata\<rparr>;
          destination = \<lparr>ep_address = (if ip_version metadata = kIpv4
                      then le_bytes32 (destination_ip_be metadata) @ replicate 12 0
                      else destination_ip6_address metadata),
                    ep_port = destination_port_be metadata\<rparr>;
          source_first = EndpointLess source destination
      in (\<lparr>sk_first = (if source_first then source else destination),
           sk_second = (if source_first then destination else source),
           sk_version = ip_version metadata\<rparr>,
          if source_first then 0 else 1))"

definition http_methods :: "string list" where
  "http_methods = [''GET '', ''POST '', ''PUT '', ''HEAD '', ''DELETE '', ''OPTIONS '', ''PATCH '']"

definition IsStreamStart :: "bytes \<Rightarrow> bool" where
  "IsStreamStart payload \<longleftrightarrow>
     (6 \<le> length payload \<and> payload ! 0 = 0x16 \<and> payload ! 1 = 0x03 \<and> payload ! 5 = 0x01) \<or>
     list_ex (\<lambda>method. length method \<le> length payload \<and>
                take (length method) payload = ascii method) http_methods"

definition SequenceDistance :: "u32 \<Rightarrow> u32 \<Rightarrow> int" where
  "SequenceDistance lhs rhs = sint (lhs - rhs)"

definition HasCapacity :: "TcpStreamReassembler \<Rightarrow> nat \<Rightarrow> bool" where
  "HasCapacity r additional \<longleftrightarrow>
     additional \<le> memory_budget_bytes r - min (memory_budget_bytes r) (buffered_bytes r)"

definition AccountAdd :: "nat \<Rightarrow> TcpStreamReassembler \<Rightarrow> TcpStreamReassembler" where
  "AccountAdd n r = r\<lparr>buffered_bytes := buffered_bytes r + n\<rparr>"

definition AccountRemove :: "StreamState \<Rightarrow> TcpStreamReassembler \<Rightarrow> TcpStreamReassembler" where
  "AccountRemove state r =
     r\<lparr>buffered_bytes := buffered_bytes r - min (buffered_bytes r) (StateBytes state)\<rparr>"

definition VerifyOverlap ::
    "TcpReassemblyConfig \<Rightarrow> DirectionState \<Rightarrow> u32 \<Rightarrow> bytes \<Rightarrow> TcpReassemblyStatus" where
  "VerifyOverlap config direction sequence payload =
     (let offset = SequenceDistance sequence (base_sequence direction);
          refusal = (if trc_drop_conflicting_overlap config then kConflictingOverlap else kWaiting)
      in if offset < 0 then refusal
         else let start = nat offset in
           if length (contiguous direction) \<le> start then kWaiting
           else let overlap = min (length payload) (length (contiguous direction) - start) in
             if take overlap payload \<noteq> take overlap (drop start (contiguous direction))
             then refusal else kWaiting)"

definition QueuePending ::
    "TcpStreamReassembler \<Rightarrow> DirectionState \<Rightarrow> u32 \<Rightarrow> bytes \<Rightarrow>
       TcpStreamReassembler \<times> DirectionState \<times> TcpReassemblyStatus" where
  "QueuePending r direction sequence payload =
     (if unat (trc_max_out_of_order_segments (trs_config r)) \<le> length (pending direction)
         \<or> \<not> HasCapacity r (length payload)
      then (r, direction, kResourceLimit)
      else case find (\<lambda>p. ps_sequence p = sequence) (pending direction) of
        Some p \<Rightarrow> (r, direction, if ps_payload p = payload then kWaiting else kConflictingOverlap)
      | None \<Rightarrow> (AccountAdd (length payload) r,
                  direction\<lparr>pending := pending direction @
                              [\<lparr>ps_sequence = sequence, ps_payload = payload\<rparr>]\<rparr>,
                  kWaiting))"

text \<open>
  The draining loop of \<^verbatim>\<open>AppendAndDrain\<close>: each round looks for the first pending
  segment that starts at the expected sequence number, appends it and erases it.
\<close>

function DrainPending :: "TcpReassemblyConfig \<Rightarrow> DirectionState \<Rightarrow> DirectionState \<times> TcpReassemblyStatus" where
  "DrainPending config direction =
     (case dropWhile (\<lambda>p. ps_sequence p \<noteq> next_sequence direction) (pending direction) of
        [] \<Rightarrow> (direction, kReady)
      | p # rest \<Rightarrow>
          if unat (trc_max_buffered_bytes_per_direction config)
             < length (contiguous direction) + length (ps_payload p)
          then (direction, kResourceLimit)
          else DrainPending config (direction\<lparr>
                 contiguous := contiguous direction @ ps_payload p,
                 next_sequence := next_sequence direction + of_nat (length (ps_payload p)),
                 pending := takeWhile (\<lambda>p. ps_sequence p \<noteq> next_sequence direction)
                              (pending direction) @ rest\<rparr>))"
  by pat_completeness auto

termination
proof (relation "measure (\<lambda>(config, direction). length (pending direction))", goal_cases)
  case 1
  then show ?case by simp
next
  case (2 config direction p rest)
  then show ?case
    using length_dropWhile_split [OF 2(1)] by simp
qed

declare DrainPending.simps [simp del]

definition AppendAndDrain ::
    "TcpStreamReassembler \<Rightarrow> DirectionState \<Rightarrow> u32 \<Rightarrow> bytes \<Rightarrow>
       TcpStreamReassembler \<times> DirectionState \<times> TcpReassemblyStatus" where
  "AppendAndDrain r direction sequence payload =
     (if \<not> HasCapacity r (length payload) \<or>
         unat (trc_max_buffered_bytes_per_direction (trs_config r))
           < length (contiguous direction) + length payload
      then (r, direction, kResourceLimit)
      else let direction1 = direction\<lparr>contiguous := contiguous direction @ payload,
                              next_sequence := sequence + of_nat (length payload)\<rparr>;
               (direction2, status) = DrainPending (trs_config r) direction1
           in (AccountAdd (length payload) r, direction2, status))"

definition AddSegment ::
    "TcpStreamReassembler \<Rightarrow> DirectionState \<Rightarrow> u32 \<Rightarrow> bytes \<Rightarrow>
       TcpStreamReassembler \<times> DirectionState \<times> TcpReassemblyStatus" where
  "AddSegment r direction sequence payload =
     (if payload = [] then (r, direction, kWaiting)
      else if \<not> base_known direction \<and> \<not> IsStreamStart payload
      then QueuePending r direction sequence payload
      else let direction = (if base_known direction then direction
             else direction\<lparr>base_known := True, base_sequence := sequence,
                            next_sequence := sequence\<rparr>);
               distance = SequenceDistance sequence (next_sequence direction)
           in if distance = 0 then AppendAndDrain r direction sequence payload
              else if 0 < distance then QueuePending r direction sequence payload
              else if VerifyOverlap (trs_config r) direction sequence payload = kConflictingOverlap
              then (r, direction, kConflictingOverlap)
              else let end_sequence = sequence + of_nat (length payload) in
                if SequenceDistance end_sequence (next_sequence direction) \<le> 0
                then (r, direction, kWaiting)
                else AppendAndDrain r direction (next_sequence direction)
                       (drop (nat (- distance)) payload))"

definition StreamExpired :: "TcpStreamReassembler \<Rightarrow> u64 \<Rightarrow> StreamState \<Rightarrow> bool" where
  "StreamExpired r now_tsc state \<longleftrightarrow> timeout_cycles r < now_tsc - last_seen_tsc state"

text \<open>
  \<^verbatim>\<open>PurgeExpired\<close> walks the map once, removing each expired stream and returning its
  bytes to the budget as it goes.
\<close>

definition Reassembler_PurgeExpired :: "u64 \<Rightarrow> TcpStreamReassembler \<Rightarrow> TcpStreamReassembler" where
  "Reassembler_PurgeExpired now_tsc r =
     (if timeout_cycles r = 0 then r
      else fold (\<lambda>(key, state) acc.
                   if StreamExpired acc now_tsc state
                   then (AccountRemove state acc)\<lparr>streams := AList.delete key (streams acc)\<rparr>
                   else acc)
             (streams r) r)"

definition RTE_TCP_SYN_FLAG :: byte where
  "RTE_TCP_SYN_FLAG = 0x02"

definition Reassembler_Insert ::
    "PacketMetadata \<Rightarrow> bytes \<Rightarrow> u64 \<Rightarrow> TcpStreamReassembler \<Rightarrow>
       TcpStreamReassembler \<times> TcpReassemblyResult" where
  "Reassembler_Insert metadata payload now_tsc r0 =
     (if \<not> trc_enabled (trs_config r0) \<or> protocol metadata \<noteq> kTcp
      then (r0, \<lparr>trr_status = kDisabled, trr_contiguous_payload = []\<rparr>)
      else let r = Reassembler_PurgeExpired now_tsc r0; (key, i) = MakeKey metadata in
        if map_of (streams r) key = None \<and>
           unat (trc_max_concurrent_streams (trs_config r)) \<le> length (streams r)
        then (r, \<lparr>trr_status = kResourceLimit, trr_contiguous_payload = []\<rparr>)
        else let state = (case map_of (streams r) key of
                   None \<Rightarrow> \<lparr>directions = [empty_direction, empty_direction], last_seen_tsc = now_tsc\<rparr>
                 | Some state \<Rightarrow> state\<lparr>last_seen_tsc := now_tsc\<rparr>);
                 data_sequence = tcp_sequence metadata +
                   (if tcp_flags metadata AND RTE_TCP_SYN_FLAG \<noteq> 0 then 1 else 0);
                 (r, direction, status) = AddSegment r (directions state ! i) data_sequence payload;
                 state = state\<lparr>directions := (directions state)[i := direction]\<rparr>
             in if status = kConflictingOverlap \<or> status = kResourceLimit
                then ((AccountRemove state r)\<lparr>streams := AList.delete key (streams r)\<rparr>,
                      \<lparr>trr_status = status, trr_contiguous_payload = []\<rparr>)
                else (r\<lparr>streams := AList.update key state (streams r)\<rparr>,
                      \<lparr>trr_status = status, trr_contiguous_payload = contiguous direction\<rparr>))"

section \<open>Invariants\<close>

text \<open>
  One direction: the retained prefix and the out-of-order queue are within their limits,
  nothing is contiguous before the stream start is known, and afterwards the expected
  sequence number is the base advanced by the bytes retained.
\<close>

definition direction_ok :: "TcpReassemblyConfig \<Rightarrow> DirectionState \<Rightarrow> bool" where
  "direction_ok config d \<longleftrightarrow>
     length (contiguous d) \<le> unat (trc_max_buffered_bytes_per_direction config) \<and>
     length (pending d) \<le> unat (trc_max_out_of_order_segments config) \<and>
     (if base_known d then next_sequence d = base_sequence d + of_nat (length (contiguous d))
      else contiguous d = [])"

definition stream_ok :: "TcpReassemblyConfig \<Rightarrow> StreamState \<Rightarrow> bool" where
  "stream_ok config state \<longleftrightarrow>
     length (directions state) = 2 \<and> list_all (direction_ok config) (directions state)"

definition total_bytes :: "(StreamKey \<times> StreamState) list \<Rightarrow> nat" where
  "total_bytes ss = sum_list (map (\<lambda>(key, state). StateBytes state) ss)"

text \<open>
  The whole reassembler: the byte counter is exactly what the streams hold, it never
  exceeds the budget, and the number of streams never exceeds its limit.
\<close>

definition reassembler_ok :: "TcpStreamReassembler \<Rightarrow> bool" where
  "reassembler_ok r \<longleftrightarrow>
     distinct (map fst (streams r)) \<and>
     buffered_bytes r = total_bytes (streams r) \<and>
     buffered_bytes r \<le> memory_budget_bytes r \<and>
     length (streams r) \<le> unat (trc_max_concurrent_streams (trs_config r)) \<and>
     list_all (\<lambda>(key, state). stream_ok (trs_config r) state) (streams r)"

subsection \<open>Sequence numbers\<close>

lemma SequenceDistance_zero [simp]: "SequenceDistance a b = 0 \<longleftrightarrow> a = b"
  by (metis SequenceDistance_def diff_self right_minus_eq signed_word_eqI sint_0)

subsection \<open>One direction\<close>

lemma sum_list_dropWhile_split:
  fixes f :: "'a \<Rightarrow> nat"
  assumes "dropWhile P xs = y # ys"
  shows "sum_list (map f xs) = f y + sum_list (map f (takeWhile P xs @ ys))"
  by (subst dropWhile_split [OF assms]) simp

lemma DrainPending_keeps:
  assumes "DrainPending config d = (d', status)" and "direction_ok config d" and "base_known d"
  shows "direction_ok config d' \<and> base_known d' \<and> base_sequence d' = base_sequence d \<and>
         DirectionBytes d' = DirectionBytes d \<and> prefix (contiguous d) (contiguous d')"
  using assms
proof (induction config d rule: DrainPending.induct)
  case (1 config d)
  show ?case
  proof (cases "dropWhile (\<lambda>p. ps_sequence p \<noteq> next_sequence d) (pending d)")
    case Nil
    with 1 show ?thesis by (auto simp: DrainPending.simps [of config d])
  next
    case (Cons p rest)
    note split = sum_list_dropWhile_split [OF Cons, of "\<lambda>p. length (ps_payload p)"]
      length_dropWhile_split [OF Cons]
    show ?thesis
    proof (cases "unat (trc_max_buffered_bytes_per_direction config)
                    < length (contiguous d) + length (ps_payload p)")
      case True
      with Cons 1 show ?thesis by (auto simp: DrainPending.simps [of config d])
    next
      case False
      from 1(1) [OF Cons False] 1(2-4) Cons False split show ?thesis
        by (auto simp: DrainPending.simps [of config d] direction_ok_def DirectionBytes_def
            intro: prefix_order.trans [rotated])
    qed
  qed
qed

text \<open>What adding a segment to one direction may do to the reassembler and the direction.\<close>

definition segment_step ::
    "TcpStreamReassembler \<Rightarrow> DirectionState \<Rightarrow> TcpStreamReassembler \<Rightarrow> DirectionState \<Rightarrow> bool" where
  "segment_step r d r' d' \<longleftrightarrow>
     (\<exists>n. r' = AccountAdd n r \<and> DirectionBytes d' = DirectionBytes d + n \<and>
          buffered_bytes r + n \<le> memory_budget_bytes r) \<and>
     direction_ok (trs_config r) d' \<and> prefix (contiguous d) (contiguous d') \<and>
     (base_known d \<longrightarrow> base_known d' \<and> base_sequence d' = base_sequence d)"

lemma segment_step_refl:
  "buffered_bytes r \<le> memory_budget_bytes r \<Longrightarrow> direction_ok (trs_config r) d \<Longrightarrow> segment_step r d r d"
  by (auto simp: segment_step_def AccountAdd_def intro!: exI [of _ 0])

lemma QueuePending_step:
  assumes "QueuePending r d sequence payload = (r', d', status)"
    and "buffered_bytes r \<le> memory_budget_bytes r" and "direction_ok (trs_config r) d"
  shows "segment_step r d r' d'"
  using assms segment_step_refl [OF assms(2,3)]
  by (auto simp: QueuePending_def segment_step_def HasCapacity_def
      direction_ok_def DirectionBytes_def split: if_splits option.splits)

lemma AppendAndDrain_step:
  assumes "AppendAndDrain r d (next_sequence d) payload = (r', d', status)"
    and "buffered_bytes r \<le> memory_budget_bytes r" and "direction_ok (trs_config r) d"
    and "base_known d"
  shows "segment_step r d r' d'"
proof (cases "\<not> HasCapacity r (length payload) \<or>
         unat (trc_max_buffered_bytes_per_direction (trs_config r))
           < length (contiguous d) + length payload")
  case True
  with assms show ?thesis by (auto simp: AppendAndDrain_def segment_step_refl)
next
  case False
  define d1 where "d1 = d\<lparr>contiguous := contiguous d @ payload,
                          next_sequence := next_sequence d + of_nat (length payload)\<rparr>"
  from False assms(1) have drain: "DrainPending (trs_config r) d1 = (d', status)"
    and r': "r' = AccountAdd (length payload) r"
    by (auto simp: AppendAndDrain_def d1_def Let_def split: prod.splits)
  from False assms(3,4) have "direction_ok (trs_config r) d1" and "base_known d1"
    by (auto simp: d1_def direction_ok_def)
  from DrainPending_keeps [OF drain this] False assms(2) show ?thesis
    by (auto simp: segment_step_def r' HasCapacity_def d1_def DirectionBytes_def
        intro: append_prefixD)
qed

lemma AddSegment_step:
  assumes "AddSegment r d sequence payload = (r', d', status)"
    and "buffered_bytes r \<le> memory_budget_bytes r" and "direction_ok (trs_config r) d"
  shows "segment_step r d r' d'"
proof -
  define d1 where "d1 = (if base_known d then d
     else d\<lparr>base_known := True, base_sequence := sequence, next_sequence := sequence\<rparr>)"
  have ok1: "direction_ok (trs_config r) d1" and known: "base_known d1"
    using assms(3) by (simp_all add: d1_def direction_ok_def)
  have from_d: "segment_step r d1 r' d' \<Longrightarrow> segment_step r d r' d'" for r' d'
    using assms(3) by (simp add: d1_def segment_step_def DirectionBytes_def split: if_splits)
  note unchanged = segment_step_refl [OF assms(2,3)] from_d [OF segment_step_refl [OF assms(2) ok1]]
  note queued = QueuePending_step [OF _ assms(2,3)] from_d [OF QueuePending_step [OF _ assms(2) ok1]]
  note appended = from_d [OF AppendAndDrain_step [OF _ assms(2) ok1 known]]
  show ?thesis
    using assms(1) unchanged queued appended
    by (auto simp: AddSegment_def d1_def [symmetric] Let_def split: if_splits)
qed

subsection \<open>The stream map\<close>

definition live_streams :: "u64 \<Rightarrow> TcpStreamReassembler \<Rightarrow> (StreamKey \<times> StreamState) list" where
  "live_streams now_tsc r = filter (\<lambda>(key, state). \<not> StreamExpired r now_tsc state) (streams r)"

lemma total_bytes_simps [simp]:
  "total_bytes [] = 0"
  "total_bytes ((key, state) # ss) = StateBytes state + total_bytes ss"
  "total_bytes (ss @ ts) = total_bytes ss + total_bytes ts"
  by (simp_all add: total_bytes_def)

lemma delete_absent: "key \<notin> fst ` set ss \<Longrightarrow> AList.delete key ss = ss"
  by (induction ss) auto

lemma delete_middle:
  "distinct (map fst (ss @ (key, state) # ts)) \<Longrightarrow> AList.delete key (ss @ (key, state) # ts) = ss @ ts"
  by (induction ss) (auto simp: delete_absent)

lemma total_bytes_delete:
  "distinct (map fst ss) \<Longrightarrow> map_of ss key = Some state \<Longrightarrow>
   total_bytes ss = StateBytes state + total_bytes (AList.delete key ss)"
  by (induction ss) (auto simp: delete_absent split: if_splits)

lemma total_bytes_update:
  "distinct (map fst ss) \<Longrightarrow>
   total_bytes (AList.update key state ss) = StateBytes state + total_bytes (AList.delete key ss)"
  by (induction ss) (auto simp: delete_absent)

lemma length_update:
  "length (AList.update key state ss) = (if key \<in> fst ` set ss then length ss else Suc (length ss))"
  by (induction ss) auto

lemma set_update_subset: "set (AList.update key state ss) \<subseteq> insert (key, state) (set ss)"
  by (induction ss) auto

lemma set_delete_subset: "set (AList.delete key ss) \<subseteq> set ss"
  by (auto simp: AList.delete_eq)

lemma length_delete: "length (AList.delete key ss) \<le> length ss"
  by (simp add: AList.delete_eq)

text \<open>Removing the expired streams one by one is filtering them out.\<close>

lemma purge_fold:
  assumes "distinct (map fst (kept @ ss))"
  shows "fold (\<lambda>(key, state) acc.
                 if StreamExpired acc now_tsc state
                 then (AccountRemove state acc)\<lparr>streams := AList.delete key (streams acc)\<rparr>
                 else acc)
           ss (r\<lparr>buffered_bytes := total_bytes (kept @ ss), streams := kept @ ss\<rparr>) =
         r\<lparr>buffered_bytes := total_bytes (kept @ filter (\<lambda>(key, state). \<not> StreamExpired r now_tsc state) ss),
           streams := kept @ filter (\<lambda>(key, state). \<not> StreamExpired r now_tsc state) ss\<rparr>"
  using assms
proof (induction ss arbitrary: kept)
  case Nil
  then show ?case by simp
next
  case (Cons entry ss)
  obtain key state where entry: "entry = (key, state)" by (cases entry)
  show ?case
  proof (cases "StreamExpired r now_tsc state")
    case True
    from Cons.prems delete_middle [of kept key state ss]
    have del: "AList.delete key (kept @ (key, state) # ss) = kept @ ss" by (simp add: entry)
    from Cons.prems have "distinct (map fst (kept @ ss))" by (simp add: entry)
    from Cons.IH [OF this] True del show ?thesis
      by (simp add: entry AccountRemove_def StreamExpired_def)
  next
    case False
    with Cons.IH [of "kept @ [entry]"] Cons.prems show ?thesis
      by (simp add: entry StreamExpired_def)
  qed
qed

lemma Reassembler_PurgeExpired_filter:
  assumes "reassembler_ok r" and "timeout_cycles r \<noteq> 0"
  shows "Reassembler_PurgeExpired now_tsc r =
           r\<lparr>buffered_bytes := total_bytes (live_streams now_tsc r), streams := live_streams now_tsc r\<rparr>"
proof -
  from assms(1) have "r = r\<lparr>buffered_bytes := total_bytes ([] @ streams r), streams := [] @ streams r\<rparr>"
    and dist: "distinct (map fst ([] @ streams r))"
    by (simp_all add: reassembler_ok_def)
  with assms(2) purge_fold [OF dist, of now_tsc r] show ?thesis
    by (simp add: Reassembler_PurgeExpired_def live_streams_def)
qed

lemma total_bytes_filter: "total_bytes (filter P ss) \<le> total_bytes ss"
  by (induction ss) auto

lemma Reassembler_PurgeExpired_ok:
  assumes "reassembler_ok r"
  shows "reassembler_ok (Reassembler_PurgeExpired now_tsc r)"
proof (cases "timeout_cycles r = 0")
  case True
  with assms show ?thesis by (simp add: Reassembler_PurgeExpired_def)
next
  case False
  have "total_bytes (live_streams now_tsc r) \<le> total_bytes (streams r)"
    and "length (live_streams now_tsc r) \<le> length (streams r)"
    and "distinct (map fst (streams r)) \<Longrightarrow> distinct (map fst (live_streams now_tsc r))"
    and "set (live_streams now_tsc r) \<subseteq> set (streams r)"
    by (auto simp: live_streams_def total_bytes_filter distinct_map_filter)
  then show ?thesis
    using assms unfolding Reassembler_PurgeExpired_filter [OF assms False]
    by (auto simp: reassembler_ok_def list_all_iff)
qed

lemma Reassembler_PurgeExpired_frame [simp]:
  "trs_config (Reassembler_PurgeExpired now_tsc r) = trs_config r"
proof -
  have "trs_config (fold (\<lambda>(key, state) acc. if StreamExpired acc now_tsc state
          then (AccountRemove state acc)\<lparr>streams := AList.delete key (streams acc)\<rparr> else acc) ss r) =
        trs_config r" for ss
    by (induction ss arbitrary: r) (auto simp: AccountRemove_def)
  then show ?thesis by (simp add: Reassembler_PurgeExpired_def)
qed

subsection \<open>Insertion\<close>

lemma MakeKey_index: "snd (MakeKey metadata) < 2"
  by (simp add: MakeKey_def Let_def)

lemma stream_ok_empty: "stream_ok config \<lparr>directions = [empty_direction, empty_direction], last_seen_tsc = t\<rparr>"
  by (simp add: stream_ok_def direction_ok_def empty_direction_def)

lemma StateBytes_update:
  assumes "i < length (directions state)"
    and "DirectionBytes d' = DirectionBytes (directions state ! i) + n"
  shows "StateBytes (state\<lparr>directions := (directions state)[i := d']\<rparr>) = StateBytes state + n"
  using assms
  by (simp add: StateBytes_def map_update sum_list_update
      member_le_sum_list [of "DirectionBytes (directions state ! i)"])

text \<open>
  The stream an insertion works on: the one in the map with its time refreshed, or a
  fresh one. Either way its bytes are accounted for.
\<close>

definition stream_for :: "StreamKey \<Rightarrow> u64 \<Rightarrow> TcpStreamReassembler \<Rightarrow> StreamState" where
  "stream_for key now_tsc r = (case map_of (streams r) key of
     None \<Rightarrow> \<lparr>directions = [empty_direction, empty_direction], last_seen_tsc = now_tsc\<rparr>
   | Some state \<Rightarrow> state\<lparr>last_seen_tsc := now_tsc\<rparr>)"

lemma stream_for_ok:
  assumes "reassembler_ok r"
  shows "stream_ok (trs_config r) (stream_for key now_tsc r)"
    and "buffered_bytes r = StateBytes (stream_for key now_tsc r) + total_bytes (AList.delete key (streams r))"
proof -
  show "stream_ok (trs_config r) (stream_for key now_tsc r)"
    using assms stream_ok_empty
    by (auto simp: stream_for_def reassembler_ok_def stream_ok_def list_all_iff
        dest!: map_of_SomeD split: option.splits)
  show "buffered_bytes r = StateBytes (stream_for key now_tsc r) + total_bytes (AList.delete key (streams r))"
    using assms total_bytes_delete [of "streams r" key]
    by (auto simp: stream_for_def reassembler_ok_def StateBytes_def DirectionBytes_def empty_direction_def
        delete_absent map_of_eq_None_iff split: option.splits)
qed

lemma erase_stream_ok:
  assumes "reassembler_ok r"
  shows "reassembler_ok (r\<lparr>buffered_bytes := total_bytes (AList.delete key (streams r)),
                           streams := AList.delete key (streams r)\<rparr>)"
  using assms stream_for_ok(2) [OF assms, of key 0] set_delete_subset [of key "streams r"]
    length_delete [of key "streams r"]
  by (auto simp: reassembler_ok_def list_all_iff distinct_delete)

lemma store_stream_ok:
  assumes "reassembler_ok r" and "stream_ok (trs_config r) state"
    and "StateBytes state + total_bytes (AList.delete key (streams r)) \<le> memory_budget_bytes r"
    and "map_of (streams r) key = None \<Longrightarrow>
           length (streams r) < unat (trc_max_concurrent_streams (trs_config r))"
  shows "reassembler_ok (r\<lparr>buffered_bytes := StateBytes state + total_bytes (AList.delete key (streams r)),
                           streams := AList.update key state (streams r)\<rparr>)"
  using assms set_update_subset [of key state "streams r"]
  by (auto simp: reassembler_ok_def list_all_iff distinct_update total_bytes_update length_update
      map_of_eq_None_iff)

lemma Reassembler_Insert_ok:
  assumes ok0: "reassembler_ok r0"
  shows "reassembler_ok (fst (Reassembler_Insert metadata payload now_tsc r0))"
proof -
  define r where "r = Reassembler_PurgeExpired now_tsc r0"
  obtain key i where key: "MakeKey metadata = (key, i)" by (cases "MakeKey metadata")
  define seq where "seq = tcp_sequence metadata +
                   (if tcp_flags metadata AND RTE_TCP_SYN_FLAG \<noteq> 0 then 1 else 0)"
  define state where "state = stream_for key now_tsc r"
  obtain r1 d1 status where add: "AddSegment r (directions state ! i) seq payload = (r1, d1, status)"
    by (cases "AddSegment r (directions state ! i) seq payload")
  define state1 where "state1 = state\<lparr>directions := (directions state)[i := d1]\<rparr>"
  have ok: "reassembler_ok r" using ok0 by (simp add: r_def Reassembler_PurgeExpired_ok)
  have i: "i < 2" using MakeKey_index [of metadata] key by simp
  note st = stream_for_ok [OF ok, of key now_tsc, folded state_def]
  from ok st(1) i have "direction_ok (trs_config r) (directions state ! i)"
    and "buffered_bytes r \<le> memory_budget_bytes r"
    by (auto simp: stream_ok_def list_all_length reassembler_ok_def)
  from AddSegment_step [OF add this(2,1)] obtain n
    where r1: "r1 = AccountAdd n r" and bytes: "DirectionBytes d1 = DirectionBytes (directions state ! i) + n"
      and budget: "buffered_bytes r + n \<le> memory_budget_bytes r" and d1: "direction_ok (trs_config r) d1"
    by (auto simp: segment_step_def)
  have state1: "stream_ok (trs_config r) state1" "StateBytes state1 = StateBytes state + n"
    using st(1) i d1 bytes
    by (auto simp: state1_def stream_ok_def list_all_length nth_list_update StateBytes_update)
  have erased: "(AccountRemove state1 r1)\<lparr>streams := AList.delete key (streams r1)\<rparr> =
     r\<lparr>buffered_bytes := total_bytes (AList.delete key (streams r)), streams := AList.delete key (streams r)\<rparr>"
    using st(2) state1(2) by (simp add: r1 AccountRemove_def AccountAdd_def)
  have stored: "r1\<lparr>streams := AList.update key state1 (streams r1)\<rparr> =
     r\<lparr>buffered_bytes := StateBytes state1 + total_bytes (AList.delete key (streams r)),
       streams := AList.update key state1 (streams r)\<rparr>"
    using st(2) state1(2) by (simp add: r1 AccountAdd_def)
  have "StateBytes state1 + total_bytes (AList.delete key (streams r)) \<le> memory_budget_bytes r"
    using st(2) state1(2) budget by simp
  note result = erase_stream_ok [OF ok, of key, folded erased]
    store_stream_ok [OF ok state1(1) this, folded stored]
  show ?thesis
    using ok0 ok result
    by (auto simp: Reassembler_Insert_def Let_def key r_def [symmetric] stream_for_def [symmetric]
        state_def [symmetric] seq_def [symmetric] add state1_def [symmetric])
qed

section \<open>Stream integrity\<close>

text \<open>
  The abstract specification: each direction of a connection carries one byte stream
  \<open>data\<close> whose first byte has sequence number \<open>isn\<close>. A segment is genuine if it is a
  piece of that stream, and a direction is faithful if everything it holds is.
\<close>

definition genuine :: "u32 \<Rightarrow> bytes \<Rightarrow> u32 \<Rightarrow> bytes \<Rightarrow> bool" where
  "genuine isn data sequence payload \<longleftrightarrow>
     (\<exists>k \<le> length data. sequence = isn + of_nat k \<and> prefix payload (drop k data))"

definition faithful :: "u32 \<Rightarrow> bytes \<Rightarrow> DirectionState \<Rightarrow> bool" where
  "faithful isn data d \<longleftrightarrow>
     (\<forall>p \<in> set (pending d). genuine isn data (ps_sequence p) (ps_payload p)) \<and>
     (base_known d \<longrightarrow> genuine isn data (base_sequence d) (contiguous d))"

lemma SequenceDistance_stream:
  assumes "k < 2 ^ 31" and "m < 2 ^ 31"
  shows "SequenceDistance (isn + of_nat k) (isn + of_nat m) = int k - int m"
proof -
  have "sint (word_of_int (int k - int m) :: u32) = int k - int m"
    unfolding sint_sbintrunc' using assms by (intro signed_take_bit_int_eq_self) auto
  then show ?thesis by (simp add: SequenceDistance_def)
qed

lemma of_nat_stream_inject:
  assumes "k < 2 ^ 32" and "m < 2 ^ 32"
  shows "(isn + of_nat k :: u32) = isn + of_nat m \<longleftrightarrow> k = m"
  using assms by (simp add: word_of_nat_eq_iff take_bit_nat_eq_self)

lemma genuine_append:
  assumes "genuine isn data base xs" and "genuine isn data (base + of_nat (length xs)) ys"
    and "length data < 2 ^ 31"
  shows "genuine isn data base (xs @ ys)"
proof -
  from assms(1) obtain k where k: "k \<le> length data" "base = isn + of_nat k" "prefix xs (drop k data)"
    by (auto simp: genuine_def)
  from assms(2) obtain m where m: "m \<le> length data" "base + of_nat (length xs) = isn + of_nat m"
    "prefix ys (drop m data)" by (auto simp: genuine_def)
  have len: "k + length xs \<le> length data" using k prefix_length_le [OF k(3)] by simp
  from k(2) m(2) have "isn + of_nat (k + length xs) = isn + of_nat m" by (simp add: add.assoc)
  then have "m = k + length xs"
    using len m(1) assms(3) of_nat_stream_inject [of "k + length xs" m isn] by simp
  with k m(3) show ?thesis by (auto simp: genuine_def intro: prefix_drop_append)
qed

lemma genuine_drop:
  assumes "genuine isn data sequence payload" and "t \<le> length payload"
  shows "genuine isn data (sequence + of_nat t) (drop t payload)"
proof -
  from assms(1) obtain k where k: "k \<le> length data" "sequence = isn + of_nat k"
    "prefix payload (drop k data)" by (auto simp: genuine_def)
  then have "k + t \<le> length data" using prefix_length_le [OF k(3)] assms(2) by simp
  with k prefix_drop_drop [OF k(3) assms(2)] show ?thesis
    by (auto simp: genuine_def add.assoc intro!: exI [of _ "k + t"])
qed

lemma DrainPending_faithful:
  assumes "DrainPending config d = (d', status)" and "faithful isn data d" and "base_known d"
    and "next_sequence d = base_sequence d + of_nat (length (contiguous d))"
    and "length data < 2 ^ 31"
  shows "faithful isn data d'"
  using assms(1-4)
proof (induction config d rule: DrainPending.induct)
  case (1 config d)
  show ?case
  proof (cases "dropWhile (\<lambda>p. ps_sequence p \<noteq> next_sequence d) (pending d)")
    case Nil
    with 1(2,3) show ?thesis by (simp add: DrainPending.simps [of config d])
  next
    case (Cons p rest)
    then have p: "ps_sequence p = next_sequence d"
      using dropWhile_eq_Cons_conv [of "\<lambda>p. ps_sequence p \<noteq> next_sequence d"] by blast
    from dropWhile_split [OF Cons] have sub: "set (p # rest) \<subseteq> set (pending d)"
      by (metis Un_upper2 set_append)
    have gen: "genuine isn data (base_sequence d) (contiguous d @ ps_payload p)"
      using 1(3-5) p sub assms(5) by (intro genuine_append) (auto simp: faithful_def)
    show ?thesis
    proof (cases "unat (trc_max_buffered_bytes_per_direction config)
                    < length (contiguous d) + length (ps_payload p)")
      case True
      with Cons 1(2,3) show ?thesis by (simp add: DrainPending.simps [of config d])
    next
      case False
      have "faithful isn data (d\<lparr>contiguous := contiguous d @ ps_payload p,
                 next_sequence := next_sequence d + of_nat (length (ps_payload p)),
                 pending := takeWhile (\<lambda>p. ps_sequence p \<noteq> next_sequence d) (pending d) @ rest\<rparr>)"
        using gen sub 1(3) by (auto simp: faithful_def dest: set_takeWhileD)
      from 1(1) [OF Cons False _ this] 1(2,4,5) Cons False show ?thesis
        by (simp add: DrainPending.simps [of config d])
    qed
  qed
qed

lemma QueuePending_faithful:
  assumes "QueuePending r d sequence payload = (r', d', status)"
    and "faithful isn data d" and "genuine isn data sequence payload"
  shows "faithful isn data d'"
  using assms by (auto simp: QueuePending_def faithful_def split: if_splits option.splits)

lemma AppendAndDrain_faithful:
  assumes "AppendAndDrain r d (next_sequence d) payload = (r', d', status)"
    and "faithful isn data d" and "genuine isn data (next_sequence d) payload"
    and "base_known d" and "direction_ok (trs_config r) d" and "length data < 2 ^ 31"
  shows "faithful isn data d'"
proof (cases "\<not> HasCapacity r (length payload) \<or>
         unat (trc_max_buffered_bytes_per_direction (trs_config r))
           < length (contiguous d) + length payload")
  case True
  with assms show ?thesis by (auto simp: AppendAndDrain_def)
next
  case False
  define d1 where "d1 = d\<lparr>contiguous := contiguous d @ payload,
                          next_sequence := next_sequence d + of_nat (length payload)\<rparr>"
  from False assms(1) have drain: "DrainPending (trs_config r) d1 = (d', status)"
    by (auto simp: AppendAndDrain_def d1_def Let_def split: prod.splits)
  from assms(4,5) have "next_sequence d = base_sequence d + of_nat (length (contiguous d))"
    by (simp add: direction_ok_def)
  with assms(2-4,6) have "faithful isn data d1"
    by (auto simp: faithful_def d1_def intro: genuine_append)
  then show ?thesis
    using assms(4-6) by (intro DrainPending_faithful [OF drain]) (auto simp: d1_def direction_ok_def)
qed

lemma genuine_Nil: "genuine isn data sequence payload \<Longrightarrow> genuine isn data sequence []"
  by (auto simp: genuine_def)

lemma genuine_next:
  assumes "faithful isn data d" and "direction_ok config d" and "base_known d"
  shows "genuine isn data (next_sequence d) []"
proof -
  have "genuine isn data (base_sequence d) (contiguous d)"
    and nxt: "next_sequence d = base_sequence d + of_nat (length (contiguous d))"
    using assms by (auto simp: faithful_def direction_ok_def)
  from genuine_drop [OF this(1) order_refl] nxt show ?thesis by simp
qed

text \<open>The part of a genuine segment beyond the bytes already held is genuine too.\<close>

lemma genuine_tail:
  assumes "genuine isn data sequence payload" and "genuine isn data nxt []"
    and "SequenceDistance sequence nxt \<le> 0"
    and "0 < SequenceDistance (sequence + of_nat (length payload)) nxt"
    and "length data < 2 ^ 31"
  shows "genuine isn data nxt (drop (nat (- SequenceDistance sequence nxt)) payload)"
proof -
  from assms(1) obtain k where k: "k \<le> length data" "sequence = isn + of_nat k"
    "prefix payload (drop k data)" by (auto simp: genuine_def)
  from assms(2) obtain m where m: "m \<le> length data" "nxt = isn + of_nat m"
    by (auto simp: genuine_def)
  have len: "k + length payload \<le> length data" using k(1) prefix_length_le [OF k(3)] by simp
  have before: "SequenceDistance sequence nxt = int k - int m"
    using k m assms(5) by (simp add: SequenceDistance_stream)
  have "sequence + of_nat (length payload) = isn + of_nat (k + length payload)"
    using k(2) by (simp add: add.assoc)
  then have after: "SequenceDistance (sequence + of_nat (length payload)) nxt =
      int (k + length payload) - int m"
    using len m assms(5) by (simp only: SequenceDistance_stream)
  have "nxt = sequence + of_nat (m - k)" using k m before assms(3)
    by (simp add: of_nat_diff)
  with genuine_drop [OF assms(1), of "m - k"] before after assms(3,4) show ?thesis
    by (simp add: nat_diff_distrib')
qed

lemma AddSegment_faithful:
  assumes add: "AddSegment r d sequence payload = (r', d', status)"
    and d: "faithful isn data d" "direction_ok (trs_config r) d"
    and gen: "genuine isn data sequence payload" and len: "length data < 2 ^ 31"
  shows "faithful isn data d'"
proof -
  define d1 where "d1 = (if base_known d then d
     else d\<lparr>base_known := True, base_sequence := sequence, next_sequence := sequence\<rparr>)"
  have d1: "faithful isn data d1" "direction_ok (trs_config r) d1" "base_known d1"
    using d genuine_Nil [OF gen] by (auto simp: d1_def faithful_def direction_ok_def)
  note nxt = genuine_next [OF d1]
  define distance where "distance = SequenceDistance sequence (next_sequence d1)"
  consider "payload = [] \<or> d' = d1" | "QueuePending r d sequence payload = (r', d', status)"
    | "distance = 0" "AppendAndDrain r d1 (next_sequence d1) payload = (r', d', status)"
    | "QueuePending r d1 sequence payload = (r', d', status)"
    | "distance \<le> 0" "0 < SequenceDistance (sequence + of_nat (length payload)) (next_sequence d1)"
      "AppendAndDrain r d1 (next_sequence d1) (drop (nat (- distance)) payload) = (r', d', status)"
    using add
    by (auto simp: AddSegment_def Let_def d1_def [symmetric] distance_def [symmetric] not_le not_less
        split: if_splits) (auto simp: distance_def)
  then show ?thesis
  proof cases
    case 1
    with add d(1) d1(1) show ?thesis by (auto simp: AddSegment_def)
  next
    case 2
    from QueuePending_faithful [OF 2 d(1) gen] show ?thesis .
  next
    case 3
    with gen have "genuine isn data (next_sequence d1) payload" by (simp add: distance_def)
    from AppendAndDrain_faithful [OF 3(2) d1(1) this d1(3,2) len] show ?thesis .
  next
    case 4
    from QueuePending_faithful [OF 4 d1(1) gen] show ?thesis .
  next
    case 5
    note tail = genuine_tail [OF gen nxt 5(1,2) [unfolded distance_def] len, folded distance_def]
    from AppendAndDrain_faithful [OF 5(3) d1(1) tail d1(3,2) len] show ?thesis .
  qed
qed

text \<open>
  The conversations on the wire: for each connection and direction, the initial sequence
  number and the bytes the sender transmits, fewer than \<open>2 ^ 31\<close>. A packet is genuine if
  its payload is a piece of the stream of its own direction.
\<close>

type_synonym conversations = "StreamKey \<times> nat \<Rightarrow> u32 \<times> bytes"

definition data_sequence :: "PacketMetadata \<Rightarrow> u32" where
  "data_sequence metadata =
     tcp_sequence metadata + (if tcp_flags metadata AND RTE_TCP_SYN_FLAG \<noteq> 0 then 1 else 0)"

definition genuine_packet :: "conversations \<Rightarrow> PacketMetadata \<Rightarrow> bytes \<Rightarrow> bool" where
  "genuine_packet conv metadata payload = (case conv (MakeKey metadata) of (isn, data) \<Rightarrow>
     length data < 2 ^ 31 \<and> genuine isn data (data_sequence metadata) payload)"

definition faithful_stream :: "conversations \<Rightarrow> StreamKey \<times> StreamState \<Rightarrow> bool" where
  "faithful_stream conv = (\<lambda>(key, state). \<forall>i < 2. case conv (key, i) of (isn, data) \<Rightarrow>
     faithful isn data (directions state ! i))"

definition all_faithful :: "conversations \<Rightarrow> TcpStreamReassembler \<Rightarrow> bool" where
  "all_faithful conv r = list_all (faithful_stream conv) (streams r)"

lemma PurgeExpired_faithful:
  assumes "reassembler_ok r" and "all_faithful conv r"
  shows "all_faithful conv (Reassembler_PurgeExpired now_tsc r)"
  using assms Reassembler_PurgeExpired_filter [OF assms(1), of now_tsc]
  by (cases "timeout_cycles r = 0")
    (auto simp: Reassembler_PurgeExpired_def all_faithful_def live_streams_def list_all_iff)

lemma stream_for_faithful:
  assumes "all_faithful conv r"
  shows "faithful_stream conv (key, stream_for key now_tsc r)"
  using assms
  by (auto simp: stream_for_def all_faithful_def list_all_iff faithful_stream_def faithful_def
      empty_direction_def less_2_cases_iff split: option.splits dest!: map_of_SomeD)

lemma faithful_update:
  assumes "all_faithful conv r" and "faithful_stream conv (key, state)"
  shows "list_all (faithful_stream conv) (AList.update key state (streams r))"
    and "list_all (faithful_stream conv) (AList.delete key (streams r))"
  using assms set_update_subset [of key state "streams r"] set_delete_subset [of key "streams r"]
  by (auto simp: all_faithful_def list_all_iff)

lemma contiguous_genuine:
  assumes "faithful isn data d" and "direction_ok config d"
  shows "\<exists>k. prefix (contiguous d) (drop k data)"
  using assms by (cases "base_known d") (auto simp: faithful_def genuine_def direction_ok_def)

lemma Reassembler_Insert_faithful:
  assumes ok0: "reassembler_ok r0" and faithful0: "all_faithful conv r0"
    and packet: "genuine_packet conv metadata payload"
    and ins: "Reassembler_Insert metadata payload now_tsc r0 = (r2, result)"
  shows "all_faithful conv r2 \<and>
    (\<exists>k. prefix (trr_contiguous_payload result) (drop k (snd (conv (MakeKey metadata)))))"
proof -
  define r where "r = Reassembler_PurgeExpired now_tsc r0"
  obtain key i where key: "MakeKey metadata = (key, i)" by (cases "MakeKey metadata")
  obtain isn data where conv: "conv (key, i) = (isn, data)" by (cases "conv (key, i)")
  define state where "state = stream_for key now_tsc r"
  obtain r1 d1 status
    where add: "AddSegment r (directions state ! i) (data_sequence metadata) payload = (r1, d1, status)"
    by (cases "AddSegment r (directions state ! i) (data_sequence metadata) payload")
  define state1 where "state1 = state\<lparr>directions := (directions state)[i := d1]\<rparr>"
  have ok: "reassembler_ok r" using ok0 by (simp add: r_def Reassembler_PurgeExpired_ok)
  have faithful: "all_faithful conv r"
    using ok0 faithful0 by (simp add: r_def PurgeExpired_faithful)
  have i: "i < 2" using MakeKey_index [of metadata] key by simp
  note st = stream_for_ok(1) [OF ok, of key now_tsc, folded state_def]
    stream_for_faithful [OF faithful, of key now_tsc, folded state_def]
  have dir: "direction_ok (trs_config r) (directions state ! i)" "faithful isn data (directions state ! i)"
    using st i conv by (auto simp: stream_ok_def list_all_length faithful_stream_def)
  have gen: "genuine isn data (data_sequence metadata) payload" "length data < 2 ^ 31"
    using packet by (auto simp: genuine_packet_def key conv)
  have d1: "faithful isn data d1"
    by (rule AddSegment_faithful [OF add dir(2,1) gen])
  have "buffered_bytes r \<le> memory_budget_bytes r" using ok by (simp add: reassembler_ok_def)
  with AddSegment_step [OF add _ dir(1)] obtain n
    where r1: "r1 = AccountAdd n r" and d1_ok: "direction_ok (trs_config r) d1"
    by (auto simp: segment_step_def)
  have state1: "faithful_stream conv (key, state1)"
    using st i conv d1
    by (auto simp: faithful_stream_def state1_def stream_ok_def nth_list_update split: prod.splits)
  show ?thesis
    using ins faithful faithful0 faithful_update [OF faithful state1] contiguous_genuine [OF d1 d1_ok]
    by (auto simp: Reassembler_Insert_def Let_def key conv r_def [symmetric] stream_for_def [symmetric]
        state_def [symmetric] data_sequence_def [symmetric] add state1_def [symmetric] r1
        AccountAdd_def AccountRemove_def all_faithful_def split: if_splits)
qed

section \<open>Properties\<close>

text \<open>A run of the reassembler over a sequence of packets, with the result of each.\<close>

fun Reassembler_run ::
    "(PacketMetadata \<times> bytes \<times> u64) list \<Rightarrow> TcpStreamReassembler \<Rightarrow>
       TcpStreamReassembler \<times> TcpReassemblyResult list" where
  "Reassembler_run [] r = (r, [])"
| "Reassembler_run ((metadata, payload, now_tsc) # packets) r =
     (let (r1, result) = Reassembler_Insert metadata payload now_tsc r;
          (r2, results) = Reassembler_run packets r1
      in (r2, result # results))"

lemma make_TcpStreamReassembler_ok: "reassembler_ok (make_TcpStreamReassembler config tsc_hz)"
  by (simp add: reassembler_ok_def make_TcpStreamReassembler_def)

lemma make_TcpStreamReassembler_faithful: "all_faithful conv (make_TcpStreamReassembler config tsc_hz)"
  by (simp add: all_faithful_def make_TcpStreamReassembler_def)

lemma Reassembler_run_ok: "reassembler_ok r \<Longrightarrow> reassembler_ok (fst (Reassembler_run packets r))"
  by (induction packets r rule: Reassembler_run.induct)
    (auto simp: Let_def split: prod.splits dest: Reassembler_Insert_ok,
     metis Reassembler_Insert_ok fst_conv)

definition returned_from ::
    "conversations \<Rightarrow> PacketMetadata \<times> bytes \<times> u64 \<Rightarrow> TcpReassemblyResult \<Rightarrow> bool" where
  "returned_from conv packet result \<longleftrightarrow>
     (\<exists>k. prefix (trr_contiguous_payload result) (drop k (snd (conv (MakeKey (fst packet))))))"

lemma Reassembler_run_faithful:
  assumes "reassembler_ok r" and "all_faithful conv r"
    and "list_all (\<lambda>(metadata, payload, now_tsc). genuine_packet conv metadata payload) packets"
  shows "list_all2 (returned_from conv) packets (snd (Reassembler_run packets r))"
  using assms
proof (induction packets r rule: Reassembler_run.induct)
  case (2 metadata payload now_tsc packets r)
  obtain r1 result where ins: "Reassembler_Insert metadata payload now_tsc r = (r1, result)"
    by fastforce
  obtain r2 results where run: "Reassembler_run packets r1 = (r2, results)" by fastforce
  from 2(4) have packet: "genuine_packet conv metadata payload" by simp
  note step = Reassembler_Insert_faithful [OF 2(2,3) packet ins]
  have ok1: "reassembler_ok r1"
    using Reassembler_Insert_ok [OF 2(2), of metadata payload now_tsc] ins by simp
  have "list_all2 (returned_from conv) packets results"
    using 2(1) [OF ins [symmetric] refl ok1] step 2(4) run by simp
  moreover have "returned_from conv (metadata, payload, now_tsc) result"
    using step by (simp add: returned_from_def)
  ultimately show ?case by (simp add: ins run)
qed simp

text \<open>
  C9. Resource safety of the TCP reassembler. Whatever packets arrive, at whatever times,
  a reassembler that starts empty stays within its configuration: the byte counter equals the
  bytes the streams really hold and never exceeds the memory budget, the number of streams
  never exceeds its limit, and in each direction the retained prefix and the out-of-order
  queue stay within theirs, with the next expected sequence number tracking the bytes held.
\<close>

theorem reassembler_resource_safety:
  "reassembler_ok (fst (Reassembler_run packets (make_TcpStreamReassembler config tsc_hz)))"
  by (rule Reassembler_run_ok [OF make_TcpStreamReassembler_ok])

text \<open>
  C1. Integrity of reassembly. If every packet is genuine, that is a piece of the byte stream
  its sender transmits at its sequence number (in any order, repeated, overlapping, with the
  sequence numbers wrapping), every payload the reassembler returns is a contiguous piece of that
  stream: bytes are never duplicated, reordered, skipped or mixed between directions.
\<close>

theorem reassembly_integrity:
  assumes "list_all (\<lambda>(metadata, payload, now_tsc). genuine_packet conv metadata payload) packets"
  shows "list_all2 (returned_from conv) packets (snd (Reassembler_run packets (make_TcpStreamReassembler config tsc_hz)))"
  by (rule Reassembler_run_faithful [OF make_TcpStreamReassembler_ok
        make_TcpStreamReassembler_faithful assms])

definition example_request :: bytes where
  "example_request = ascii ''GET / HTTP/1.1''"

definition example_packet :: "u32 \<Rightarrow> nat \<Rightarrow> nat \<Rightarrow> PacketMetadata \<times> bytes \<times> u64" where
  "example_packet isn off n =
     (default_metadata\<lparr>source_port_be := 7, tcp_sequence := isn + of_nat off\<rparr>,
      subspan off n example_request, 100)"

definition example_reassembly_config :: TcpReassemblyConfig where
  "example_reassembly_config = \<lparr>trc_enabled = True, trc_idle_timeout_sec = 30,
     trc_max_concurrent_streams = 4, trc_max_buffered_bytes_per_direction = 64,
     trc_max_out_of_order_segments = 4, trc_memory_budget_mb = 1,
     trc_drop_conflicting_overlap = True\<rparr>"

lemma length_example_request: "length example_request = 14"
  by (simp add: example_request_def ascii_def)

lemma example_packet_genuine:
  assumes "off \<le> 14"
  shows "case example_packet isn off n of (metadata, payload, now_tsc) \<Rightarrow>
           genuine_packet (\<lambda>_. (isn, example_request)) metadata payload"
  using assms
  by (auto simp: example_packet_def genuine_packet_def data_sequence_def default_metadata_def
      genuine_def subspan_def take_is_prefix length_example_request)

theorem reassembly_integrity_witness:
  "list_all2 (returned_from (\<lambda>_. (- 3, example_request)))
     [example_packet (- 3) 6 4, example_packet (- 3) 0 8]
     (snd (Reassembler_run [example_packet (- 3) 6 4, example_packet (- 3) 0 8]
             (make_TcpStreamReassembler example_reassembly_config 1000)))"
  by (rule reassembly_integrity) (simp add: example_packet_genuine)

end
