(* ===== verification/Hostname_Cache.thy ===== *)
theory Hostname_Cache
  imports Dpdk_Prelude
begin

text \<open>
  The per-worker cache from hostnames to DPI filter indices
  (\<^verbatim>\<open>dpi/hostname_cache.hpp\<close>): an open-addressed table of 4096 slots with at most
  four probes, FNV-1a hashing, a twelve-byte key for disambiguation and a generation
  stamp per entry. The array is a list of 4096 entries; \<^verbatim>\<open>std::memcpy\<close> into an
  integer is \<^term>\<open>le_load\<close>. On the target platform \<^verbatim>\<open>char\<close> is signed, so the
  hash sign-extends each byte.
\<close>

section \<open>Data\<close>

definition kNoMatchIdx :: u16 where "kNoMatchIdx = 0xFFFF"
definition kSlots :: nat where "kSlots = 4096"
definition kMask :: u32 where "kMask = 4095"
definition kMaxProbes :: nat where "kMaxProbes = 4"
definition kFnvOffsetBasis :: u32 where "kFnvOffsetBasis = 2166136261"
definition kFnvPrime :: u32 where "kFnvPrime = 16777619"

record Entry =
  e_hash :: u32
  e_key32 :: u32
  e_key64 :: u64
  e_filter_index :: u16
  e_generation :: u32

definition EmptyEntry :: Entry where
  "EmptyEntry = \<lparr>e_hash = 0, e_key32 = 0, e_key64 = 0, e_filter_index = kNoMatchIdx, e_generation = 0\<rparr>"

type_synonym HostnameCache = "Entry list"

definition make_HostnameCache :: HostnameCache where
  "make_HostnameCache = replicate kSlots EmptyEntry"

section \<open>Operations\<close>

definition SlotAt :: "HostnameCache \<Rightarrow> u32 \<Rightarrow> Entry" where
  "SlotAt cache idx = cache ! unat idx"

definition Hash32 :: "bytes \<Rightarrow> u32" where
  "Hash32 hostname = foldl (\<lambda>hash b. (hash XOR scast b) * kFnvPrime) kFnvOffsetBasis hostname"

definition CopyKey :: "bytes \<Rightarrow> Entry \<Rightarrow> Entry" where
  "CopyKey hostname entry = entry\<lparr>
     e_key32 := (if 4 \<le> length hostname then le_load (take 4 hostname) else le_load hostname),
     e_key64 := (if 4 < length hostname
                 then le_load (take (min (length hostname - 4) 8) (drop 4 hostname)) else 0)\<rparr>"

definition KeyMatches :: "Entry \<Rightarrow> bytes \<Rightarrow> bool" where
  "KeyMatches entry hostname =
     (if length hostname < 4 then True
      else if le_load (take 4 hostname) \<noteq> e_key32 entry then False
      else if length hostname \<le> 4 then True
      else let count = min (length hostname - 4) 8;
               next8 = le_load (take count (drop 4 hostname)) :: u64
           in memcmp (take count (le_bytes 8 next8)) (take count (le_bytes 8 (e_key64 entry))) = 0)"

definition StoreEntry :: "u32 \<Rightarrow> bytes \<Rightarrow> u16 \<Rightarrow> u32 \<Rightarrow> Entry \<Rightarrow> Entry" where
  "StoreEntry hash hostname filter_index generation entry =
     (CopyKey hostname (entry\<lparr>e_hash := hash\<rparr>))\<lparr>e_filter_index := filter_index,
        e_generation := generation\<rparr>"

definition entry_hits :: "u32 \<Rightarrow> u32 \<Rightarrow> bytes \<Rightarrow> Entry \<Rightarrow> bool" where
  "entry_hits hash generation hostname entry \<longleftrightarrow>
     e_hash entry \<noteq> 0 \<and> e_hash entry = hash \<and> e_generation entry = generation \<and>
     KeyMatches entry hostname"

text \<open>The slots after the first one that the loop \<^verbatim>\<open>probe = 1 .. kMaxProbes - 1\<close> visits.\<close>

definition probe_slots :: "u32 \<Rightarrow> u32 list" where
  "probe_slots slot = map (\<lambda>probe. (slot + of_nat probe) AND kMask) [1..<kMaxProbes]"

definition Cache_Lookup :: "HostnameCache \<Rightarrow> bytes \<Rightarrow> u32 \<Rightarrow> u16" where
  "Cache_Lookup cache hostname current_generation =
     (if hostname = [] then kNoMatchIdx
      else let hash = Hash32 hostname; slot = hash AND kMask; first_entry = SlotAt cache slot
        in if entry_hits hash current_generation hostname first_entry then e_filter_index first_entry
           else case find (\<lambda>idx. entry_hits hash current_generation hostname (SlotAt cache idx))
                       (probe_slots slot) of
                  Some idx \<Rightarrow> e_filter_index (SlotAt cache idx)
                | None \<Rightarrow> kNoMatchIdx)"

text \<open>
  What \<^verbatim>\<open>Insert\<close> does to the slot it settles on: fill an empty one, refresh one that
  already holds the key.
\<close>

definition settle :: "u32 \<Rightarrow> bytes \<Rightarrow> u16 \<Rightarrow> u32 \<Rightarrow> Entry \<Rightarrow> Entry" where
  "settle hash hostname filter_index generation entry =
     (if e_hash entry = 0 then StoreEntry hash hostname filter_index generation entry
      else entry\<lparr>e_filter_index := filter_index, e_generation := generation\<rparr>)"

definition entry_usable :: "u32 \<Rightarrow> bytes \<Rightarrow> Entry \<Rightarrow> bool" where
  "entry_usable hash hostname entry \<longleftrightarrow>
     e_hash entry = 0 \<or> (e_hash entry = hash \<and> KeyMatches entry hostname)"

definition Cache_Insert :: "bytes \<Rightarrow> u16 \<Rightarrow> u32 \<Rightarrow> HostnameCache \<Rightarrow> HostnameCache" where
  "Cache_Insert hostname filter_index current_generation cache =
     (if hostname = [] then cache
      else let hash = Hash32 hostname; slot = hash AND kMask;
               put = (\<lambda>idx. cache[unat idx :=
                        settle hash hostname filter_index current_generation (SlotAt cache idx)])
        in if entry_usable hash hostname (SlotAt cache slot) then put slot
           else case find (\<lambda>idx. entry_usable hash hostname (SlotAt cache idx)) (probe_slots slot) of
                  Some idx \<Rightarrow> put idx
                | None \<Rightarrow> cache)"

definition Cache_Clear :: "HostnameCache \<Rightarrow> HostnameCache" where
  "Cache_Clear cache = replicate kSlots EmptyEntry"

section \<open>Keys\<close>

text \<open>
  Two hostnames share a key if the cache cannot tell them apart: the same hash and, when both
  have at least four bytes, the same first twelve bytes as far as both extend.
\<close>

definition shares_key :: "bytes \<Rightarrow> bytes \<Rightarrow> bool" where
  "shares_key h h' \<longleftrightarrow> Hash32 h = Hash32 h' \<and>
     (let n = min 12 (min (length h) (length h')) in n < 4 \<or> take n h = take n h')"

lemma shares_key_refl [simp]: "shares_key h h"
  by (simp add: shares_key_def Let_def)

lemma KeyMatches_iff:
  "KeyMatches entry h \<longleftrightarrow> length h < 4 \<or>
     (le_load (take 4 h) = e_key32 entry \<and>
      take (length h - 4) (le_bytes 8 (e_key64 entry)) = take 8 (drop 4 h))"
proof (cases "length h \<le> 4")
  case False
  let ?c = "min (length h - 4) 8"
  have "take ?c (drop 4 h) = take 8 (drop 4 h)" by (auto simp: min_def)
  moreover have "take ?c (le_bytes 8 (le_load (take ?c (drop 4 h)) :: u64)) = take ?c (drop 4 h)"
    by (simp add: le_bytes_le_load)
  moreover have "take ?c (le_bytes 8 (e_key64 entry)) = take (length h - 4) (le_bytes 8 (e_key64 entry))"
    by (auto simp: min_def)
  ultimately show ?thesis
    using False by (auto simp: KeyMatches_def Let_def memcmp_zero_iff)
qed (auto simp: KeyMatches_def)

lemma KeyMatches_CopyKey [simp]: "KeyMatches (CopyKey h entry) h"
  by (auto simp: KeyMatches_iff CopyKey_def le_bytes_le_load min_def)

lemma e_hash_CopyKey [simp]: "e_hash (CopyKey h entry) = e_hash entry"
  by (simp add: CopyKey_def)

lemma KeyMatches_frame [simp]:
  "KeyMatches (entry\<lparr>e_filter_index := i\<rparr>) h = KeyMatches entry h"
  "KeyMatches (entry\<lparr>e_generation := g\<rparr>) h = KeyMatches entry h"
  by (simp_all add: KeyMatches_iff)

lemma KeyMatches_shares_key:
  assumes "KeyMatches entry h" and "KeyMatches entry h'" and "Hash32 h = Hash32 h'"
  shows "shares_key h h'"
proof -
  define n where "n = min 12 (min (length h) (length h'))"
  have "take n h = take n h'" if "4 \<le> n"
  proof -
    have four: "take 4 h = take 4 h'"
      using that assms(1,2) le_load_inject [of "take 4 h" "take 4 h'", where 'a = 32]
      by (auto simp: KeyMatches_iff n_def)
    have "take (n - 4) (drop 4 x) = take (n - 4) (le_bytes 8 (e_key64 entry))"
      if "KeyMatches entry x" and "n \<le> length x" for x
    proof -
      have "take (length x - 4) (le_bytes 8 (e_key64 entry)) = take 8 (drop 4 x)"
        using that \<open>4 \<le> n\<close> by (auto simp: KeyMatches_iff)
      from arg_cong [OF this, of "take (n - 4)"] that(2) show ?thesis
        by (simp add: n_def min_def split: if_splits)
    qed
    with assms(1,2) have "take (n - 4) (drop 4 h) = take (n - 4) (drop 4 h')"
      by (simp add: n_def)
    with four that show ?thesis
      by (metis le_add_diff_inverse take_add)
  qed
  with assms(3) show ?thesis
    unfolding shares_key_def Let_def n_def [symmetric] by (metis not_less)
qed

section \<open>Slots\<close>

lemma mask_bound: "unat (x AND kMask) < kSlots"
proof -
  have "x AND kMask \<le> kMask" by (rule word_and_le1)
  then show ?thesis by (simp add: kMask_def kSlots_def word_le_nat_alt)
qed

definition all_slots :: "bytes \<Rightarrow> u32 list" where
  "all_slots hostname = (Hash32 hostname AND kMask) # probe_slots (Hash32 hostname AND kMask)"

lemma all_slots_bound: "idx \<in> set (all_slots hostname) \<Longrightarrow> unat idx < kSlots"
  by (auto simp: all_slots_def probe_slots_def mask_bound)

lemma Cache_Lookup_find:
  assumes "hostname \<noteq> []"
  shows "Cache_Lookup cache hostname generation =
     (case find (\<lambda>idx. entry_hits (Hash32 hostname) generation hostname (SlotAt cache idx))
             (all_slots hostname) of
        Some idx \<Rightarrow> e_filter_index (SlotAt cache idx) | None \<Rightarrow> kNoMatchIdx)"
  using assms by (simp add: Cache_Lookup_def all_slots_def Let_def)

lemma Cache_Insert_find:
  assumes "hostname \<noteq> []"
  shows "Cache_Insert hostname i generation cache =
     (case find (\<lambda>idx. entry_usable (Hash32 hostname) hostname (SlotAt cache idx)) (all_slots hostname) of
        Some idx \<Rightarrow> cache[unat idx := settle (Hash32 hostname) hostname i generation (SlotAt cache idx)]
      | None \<Rightarrow> cache)"
  using assms by (simp add: Cache_Insert_def all_slots_def Let_def)

lemma length_Cache_Insert [simp]: "length (Cache_Insert hostname i generation cache) = length cache"
  by (auto simp: Cache_Insert_def Let_def split: option.splits)

lemma settle_key:
  assumes "entry_usable (Hash32 h) h entry"
  shows "e_hash (settle (Hash32 h) h i g entry) = Hash32 h"
    and "KeyMatches (settle (Hash32 h) h i g entry) h"
    and "e_filter_index (settle (Hash32 h) h i g entry) = i"
    and "e_generation (settle (Hash32 h) h i g entry) = g"
  using assms
  by (auto simp: settle_def entry_usable_def StoreEntry_def)

section \<open>Caches that memoise a function\<close>

text \<open>
  What a client relies on: every answer other than \<open>none\<close> was inserted at the same generation
  for a key the cache does not distinguish from the one asked for. The invariant \<open>inv\<close>
  relates the cache to the log of insertions. A client that fills the cache with the
  values of a function of the generation and the key, and whose function does not
  distinguish such keys either, gets that function back.
\<close>

locale memo_cache =
  fixes empty :: 'c
    and lookup :: "'c \<Rightarrow> 'k \<Rightarrow> 'g \<Rightarrow> 'v"
    and insert :: "'k \<Rightarrow> 'v \<Rightarrow> 'g \<Rightarrow> 'c \<Rightarrow> 'c"
    and none :: 'v
    and same :: "'k \<Rightarrow> 'k \<Rightarrow> bool"
    and inv :: "('k \<times> 'v \<times> 'g) list \<Rightarrow> 'c \<Rightarrow> bool"
  assumes inv_empty: "inv [] empty"
    and inv_insert: "inv log c \<Longrightarrow> inv ((k, v, g) # log) (insert k v g c)"
    and lookup_logged: "inv log c \<Longrightarrow> lookup c k g \<noteq> none \<Longrightarrow>
          \<exists>k'. (k', lookup c k g, g) \<in> set log \<and> same k' k"
begin

lemma inv_run: "inv (rev log) (fold (\<lambda>(k, v, g). insert k v g) log empty)"
proof (induction log rule: rev_induct)
  case (snoc x log)
  then show ?case using inv_insert by (cases x) auto
qed (simp add: inv_empty)

lemma run_logged:
  assumes "lookup (fold (\<lambda>(k, v, g). insert k v g) log empty) k g \<noteq> none"
  shows "\<exists>k'. (k', lookup (fold (\<lambda>(k, v, g). insert k v g) log empty) k g, g) \<in> set log \<and> same k' k"
  using lookup_logged [OF inv_run assms] by simp

lemma memo_hit:
  assumes "inv log c" and "\<forall>(k, v, g) \<in> set log. v = f g k"
    and "\<And>k k'. same k' k \<Longrightarrow> f g k' = f g k" and "lookup c k g \<noteq> none"
  shows "lookup c k g = f g k"
  using lookup_logged [OF assms(1,4)] assms(2,3) by fastforce

end

definition cache_log :: "(bytes \<times> u16 \<times> u32) list \<Rightarrow> HostnameCache \<Rightarrow> bool" where
  "cache_log log cache \<longleftrightarrow> length cache = kSlots \<and>
     (\<forall>entry \<in> set cache. e_hash entry \<noteq> 0 \<longrightarrow>
        (\<exists>h. (h, e_filter_index entry, e_generation entry) \<in> set log \<and>
             Hash32 h = e_hash entry \<and> KeyMatches entry h))"

lemma cache_log_Insert:
  assumes "cache_log log cache"
  shows "cache_log ((h, i, g) # log) (Cache_Insert h i g cache)"
proof (cases "h = [] \<or> find (\<lambda>idx. entry_usable (Hash32 h) h (SlotAt cache idx)) (all_slots h) = None")
  case True
  then have "Cache_Insert h i g cache = cache"
    by (cases "h = []") (simp_all add: Cache_Insert_find, simp add: Cache_Insert_def)
  with assms show ?thesis unfolding cache_log_def list.set(2) by (metis insertCI)
next
  case False
  then obtain idx where idx: "find (\<lambda>idx. entry_usable (Hash32 h) h (SlotAt cache idx)) (all_slots h) = Some idx"
    by blast
  let ?e = "settle (Hash32 h) h i g (SlotAt cache idx)"
  from idx have "entry_usable (Hash32 h) h (SlotAt cache idx)"
    by (metis (mono_tags, lifting) find_Some_iff)
  note e = settle_key [OF this, of i g]
  have "set (Cache_Insert h i g cache) \<subseteq> insert ?e (set cache)"
    using False idx by (auto simp: Cache_Insert_find dest: set_update_subset_insert [THEN subsetD])
  moreover have "\<exists>h'. (h', e_filter_index ?e, e_generation ?e) \<in> set ((h, i, g) # log) \<and>
                   Hash32 h' = e_hash ?e \<and> KeyMatches ?e h'"
    using e by (intro exI [of _ h]) simp
  ultimately show ?thesis
    using assms unfolding cache_log_def length_Cache_Insert list.set(2) by blast
qed

lemma cache_log_Lookup:
  assumes "cache_log log cache" and "Cache_Lookup cache h g \<noteq> kNoMatchIdx"
  shows "\<exists>h'. (h', Cache_Lookup cache h g, g) \<in> set log \<and> shares_key h' h"
proof -
  from assms(2) have "h \<noteq> []" by (auto simp: Cache_Lookup_def)
  with assms(2) obtain idx where
    idx: "find (\<lambda>idx. entry_hits (Hash32 h) g h (SlotAt cache idx)) (all_slots h) = Some idx"
    and val: "Cache_Lookup cache h g = e_filter_index (SlotAt cache idx)"
    by (auto simp: Cache_Lookup_find split: option.splits)
  from idx have hit: "entry_hits (Hash32 h) g h (SlotAt cache idx)" and "idx \<in> set (all_slots h)"
    by (auto simp: find_Some_iff)
  then have "SlotAt cache idx \<in> set cache"
    using assms(1) all_slots_bound by (auto simp: SlotAt_def cache_log_def)
  with assms(1) hit obtain h' where "(h', e_filter_index (SlotAt cache idx), g) \<in> set log"
    and "Hash32 h' = Hash32 h" and "KeyMatches (SlotAt cache idx) h'"
    by (auto simp: cache_log_def entry_hits_def)
  with hit val KeyMatches_shares_key show ?thesis by (auto simp: entry_hits_def)
qed

interpretation hostname_memo: memo_cache make_HostnameCache Cache_Lookup Cache_Insert kNoMatchIdx
  shares_key cache_log
proof (unfold_locales, goal_cases)
  case 1
  then show ?case by (simp add: cache_log_def make_HostnameCache_def EmptyEntry_def)
qed (fact cache_log_Insert, fact cache_log_Lookup)

section \<open>Properties\<close>

lemma find_in_range:
  assumes "find P (all_slots h) = Some idx" and "length cache = kSlots"
  shows "unat idx < length cache \<and> P idx"
  using assms all_slots_bound [of idx h] by (auto simp: find_Some_iff)

lemma SlotAt_update:
  assumes "unat idx < length cache"
  shows "SlotAt (cache[unat idx := e]) j = (if j = idx then e else SlotAt cache j)"
  using assms by (auto simp: SlotAt_def nth_list_update dest: word_unat_eq_iff [THEN iffD2])

lemma find_cong_first:
  assumes "find P xs = Some x" and "Q x" and "\<And>y. y \<in> set xs \<Longrightarrow> Q y \<Longrightarrow> y = x \<or> P y"
  shows "find Q xs = Some x"
  using assms by (induction xs) (auto split: if_splits)

text \<open>
  A hostname inserted with a filter index is found again at the same generation, provided
  its hash is not the reserved value zero and one of its four probe slots is free or already
  holds its key.
\<close>

theorem cache_lookup_insert:
  assumes "length cache = kSlots" and "hostname \<noteq> []" and "Hash32 hostname \<noteq> 0"
    and "\<exists>idx \<in> set (all_slots hostname). entry_usable (Hash32 hostname) hostname (SlotAt cache idx)"
  shows "Cache_Lookup (Cache_Insert hostname i generation cache) hostname generation = i"
proof -
  let ?h = "Hash32 hostname"
  from assms(4) obtain idx
    where idx: "find (\<lambda>idx. entry_usable ?h hostname (SlotAt cache idx)) (all_slots hostname) = Some idx"
    by (auto simp: find_None_iff dest: not_None_eq [THEN iffD1, rotated])
      (metis (mono_tags, lifting) find_None_iff not_Some_eq)
  let ?e = "settle ?h hostname i generation (SlotAt cache idx)"
  let ?cache = "cache[unat idx := ?e]"
  note range = find_in_range [OF idx assms(1)]
  have ins: "Cache_Insert hostname i generation cache = ?cache"
    using assms(2) idx by (simp add: Cache_Insert_find)
  note slot = SlotAt_update [of idx cache ?e]
  have "find (\<lambda>j. entry_hits ?h generation hostname (SlotAt ?cache j)) (all_slots hostname) = Some idx"
    using range assms(3) settle_key [of hostname "SlotAt cache idx" i generation]
    by (intro find_cong_first [OF idx]) (auto simp: slot entry_hits_def entry_usable_def)
  then show ?thesis
    using range settle_key(3) [of hostname "SlotAt cache idx" i generation]
    by (simp add: ins Cache_Lookup_find assms(2) slot)
qed

theorem cache_lookup_insert_witness:
  "Cache_Lookup (Cache_Insert (ascii ''a.vn'') 5 7 make_HostnameCache) (ascii ''a.vn'') 7 = 5"
proof (rule cache_lookup_insert)
  show "Hash32 (ascii ''a.vn'') \<noteq> 0" by code_simp
  have "SlotAt make_HostnameCache (Hash32 (ascii ''a.vn'') AND kMask) = EmptyEntry"
    using mask_bound by (simp add: SlotAt_def make_HostnameCache_def)
  then show "\<exists>idx \<in> set (all_slots (ascii ''a.vn'')).
     entry_usable (Hash32 (ascii ''a.vn'')) (ascii ''a.vn'') (SlotAt make_HostnameCache idx)"
    by (simp add: all_slots_def entry_usable_def EmptyEntry_def)
qed (simp_all add: make_HostnameCache_def ascii_def)

text \<open>
  Inserting one hostname never changes what is found for a hostname with another hash,
  at any generation: entries are never displaced.
\<close>

theorem cache_insert_frame:
  assumes "length cache = kSlots" and "Hash32 other \<noteq> Hash32 hostname"
  shows "Cache_Lookup (Cache_Insert hostname i generation cache) other g = Cache_Lookup cache other g"
proof (cases "hostname = [] \<or> other = [] \<or>
    find (\<lambda>idx. entry_usable (Hash32 hostname) hostname (SlotAt cache idx)) (all_slots hostname) = None")
  case True
  then show ?thesis
    by (cases "hostname = []"; cases "other = []")
      (simp_all add: Cache_Insert_find, simp_all add: Cache_Insert_def Cache_Lookup_def)
next
  case False
  then obtain idx where
    idx: "find (\<lambda>idx. entry_usable (Hash32 hostname) hostname (SlotAt cache idx)) (all_slots hostname) = Some idx"
    by blast
  let ?e = "settle (Hash32 hostname) hostname i generation (SlotAt cache idx)"
  note range = find_in_range [OF idx assms(1)]
  have miss: "\<not> entry_hits (Hash32 other) g other ?e"
    "\<not> entry_hits (Hash32 other) g other (SlotAt cache idx)"
    using settle_key(1) [of hostname "SlotAt cache idx" i generation] range assms(2)
    by (auto simp: entry_hits_def entry_usable_def)
  have same: "entry_hits (Hash32 other) g other (SlotAt (cache[unat idx := ?e]) j) \<longleftrightarrow>
              entry_hits (Hash32 other) g other (SlotAt cache j)" for j
    using range miss by (simp add: SlotAt_update)
  have "SlotAt (cache[unat idx := ?e]) j = SlotAt cache j"
    if "find (\<lambda>j. entry_hits (Hash32 other) g other (SlotAt cache j)) xs = Some j" for j xs
    using range miss that by (metis (mono_tags, lifting) SlotAt_update find_Some_iff)
  with False idx show ?thesis
    by (simp add: Cache_Insert_find Cache_Lookup_find same split: option.splits)
qed

theorem cache_insert_frame_witness:
  "Cache_Lookup (Cache_Insert (ascii ''b'') 3 7 make_HostnameCache) (ascii ''a'') 7 =
   Cache_Lookup make_HostnameCache (ascii ''a'') 7"
  by (rule cache_insert_frame) (simp add: make_HostnameCache_def, code_simp)

text \<open>
  C29. Generation safety. Whatever hostnames were inserted at whatever generations, an answer
  of the cache other than \<^verbatim>\<open>kNoMatchIdx\<close> was inserted at exactly the generation asked for,
  for a hostname with the same 32-bit hash that agrees with the one asked for on its first twelve
  bytes: filter indices of an older rule table are never returned.
\<close>

theorem cache_answers_are_current:
  assumes "Cache_Lookup (fold (\<lambda>(h, i, g). Cache_Insert h i g) log make_HostnameCache)
             hostname generation = i"
    and "i \<noteq> kNoMatchIdx"
  shows "\<exists>h. (h, i, generation) \<in> set log \<and> shares_key h hostname"
  using hostname_memo.run_logged [of log hostname generation] assms by simp

theorem cache_answers_are_current_witness:
  "\<exists>h. (h, 5, 7) \<in> set [(ascii ''a.vn'', 5 :: u16, 7 :: u32)] \<and> shares_key h (ascii ''a.vn'')"
proof (rule cache_answers_are_current)
  have "Hash32 (ascii ''a.vn'') \<noteq> 0" by code_simp
  moreover have "SlotAt make_HostnameCache (Hash32 (ascii ''a.vn'') AND kMask) = EmptyEntry"
    using mask_bound by (simp add: SlotAt_def make_HostnameCache_def)
  moreover have "ascii ''a.vn'' \<noteq> []" by (simp add: ascii_def)
  ultimately show "Cache_Lookup (fold (\<lambda>(h, i, g). Cache_Insert h i g)
      [(ascii ''a.vn'', 5, 7)] make_HostnameCache) (ascii ''a.vn'') 7 = 5"
    using mask_bound
    by (simp add: Cache_Insert_def Cache_Lookup_def Let_def entry_usable_def EmptyEntry_def
        SlotAt_update make_HostnameCache_def entry_hits_def settle_def StoreEntry_def)
qed (simp add: kNoMatchIdx_def)

end
