(* ===== verification/Table_Managers.thy ===== *)
theory Table_Managers
  imports Dpdk_Prelude
begin

text \<open>
  The two double-buffer managers that publish rule tables to the workers
  (\<^verbatim>\<open>spi/spi_rule_table_manager.hpp\<close>, \<^verbatim>\<open>dpi/dpi_rule_table_manager.hpp\<close>).
  Which table a pointer denotes and when it is deleted matters, so the state holds a heap
  from addresses to tables: resetting or overwriting a \<^verbatim>\<open>std::unique_ptr\<close> deletes what it
  owned. The atomic exchange is one step of the main lcore; workers only load.
\<close>

section \<open>State\<close>

type_synonym addr = nat

record 't TableManager =
  tm_heap :: "addr \<rightharpoonup> 't"
  tm_active :: "addr option"
  tm_retired :: "addr option"
  tm_prev_retired :: "addr option"

definition empty_manager :: "(addr \<rightharpoonup> 't) \<Rightarrow> 't TableManager" where
  "empty_manager h = \<lparr>tm_heap = h, tm_active = None, tm_retired = None, tm_prev_retired = None\<rparr>"

text \<open>Deleting the object a unique pointer owns; a null pointer owns nothing.\<close>

definition unique_delete :: "addr option \<Rightarrow> (addr \<rightharpoonup> 't) \<Rightarrow> (addr \<rightharpoonup> 't)" where
  "unique_delete p h = (case p of None \<Rightarrow> h | Some a \<Rightarrow> h(a := None))"

section \<open>The SPI manager\<close>

definition RuleTableManager_Load :: "'t TableManager \<Rightarrow> addr option" where
  "RuleTableManager_Load m = tm_active m"

definition RuleTableManager_Swap :: "addr option \<Rightarrow> 't TableManager \<Rightarrow> 't TableManager" where
  "RuleTableManager_Swap new_table m =
     (let old = tm_active m;
          m = m\<lparr>tm_active := new_table\<rparr>;
          m = m\<lparr>tm_heap := unique_delete (tm_prev_retired m) (tm_heap m),
                tm_prev_retired := tm_retired m, tm_retired := None\<rparr>
      in m\<lparr>tm_heap := unique_delete (tm_retired m) (tm_heap m), tm_retired := old\<rparr>)"

definition RuleTableManager_Init :: "addr option \<Rightarrow> 't TableManager \<Rightarrow> 't TableManager" where
  "RuleTableManager_Init table m = m\<lparr>tm_active := table\<rparr>"

section \<open>The DPI manager\<close>

text \<open>The part of a DPI rule table the manager touches: its generation.\<close>

record DpiTableHeader =
  dt_generation :: u32

definition DpiRuleTableManager_Load :: "'a DpiTableHeader_scheme TableManager \<Rightarrow> addr option" where
  "DpiRuleTableManager_Load m = tm_active m"

text \<open>
  \<^verbatim>\<open>new_table->SetGeneration(next_gen)\<close> writes through the pointer; the generation of the
  old table is read through \<^verbatim>\<open>active_\<close>.
\<close>

definition stamp_generation ::
    "addr option \<Rightarrow> 'a DpiTableHeader_scheme TableManager \<Rightarrow> 'a DpiTableHeader_scheme TableManager" where
  "stamp_generation new_table m = (case new_table of None \<Rightarrow> m
     | Some a \<Rightarrow>
         let next_gen = (case Option.bind (tm_active m) (tm_heap m) of
                           None \<Rightarrow> 1 | Some old \<Rightarrow> dt_generation old + 1)
         in m\<lparr>tm_heap := (tm_heap m)(a := map_option (\<lambda>t. t\<lparr>dt_generation := next_gen\<rparr>) (tm_heap m a))\<rparr>)"

definition DpiRuleTableManager_Swap ::
    "addr option \<Rightarrow> 'a DpiTableHeader_scheme TableManager \<Rightarrow> 'a DpiTableHeader_scheme TableManager" where
  "DpiRuleTableManager_Swap new_table m0 =
     (let m = stamp_generation new_table m0;
          old_ptr = tm_active m;
          m = m\<lparr>tm_active := new_table\<rparr>;
          m = m\<lparr>tm_heap := unique_delete (tm_prev_retired m) (tm_heap m),
                tm_prev_retired := tm_retired m, tm_retired := None\<rparr>
      in m\<lparr>tm_heap := unique_delete (tm_retired m) (tm_heap m), tm_retired := old_ptr\<rparr>)"

definition DpiRuleTableManager_Init ::
    "addr option \<Rightarrow> 'a DpiTableHeader_scheme TableManager \<Rightarrow> 'a DpiTableHeader_scheme TableManager" where
  "DpiRuleTableManager_Init table m = m\<lparr>tm_active := table\<rparr>"

section \<open>Deferred reclamation\<close>

text \<open>
  Ownership: the pointers the manager holds are distinct and point to live tables.
\<close>

definition owned :: "'t TableManager \<Rightarrow> addr list" where
  "owned m = List.map_filter id [tm_active m, tm_retired m, tm_prev_retired m]"

definition manager_ok :: "'t TableManager \<Rightarrow> bool" where
  "manager_ok m \<longleftrightarrow> distinct (owned m) \<and> set (owned m) \<subseteq> dom (tm_heap m)"

text \<open>A table handed to the manager is live and not yet owned by it.\<close>

definition handed_over :: "addr option \<Rightarrow> 't TableManager \<Rightarrow> bool" where
  "handed_over p m \<longleftrightarrow> (case p of None \<Rightarrow> True | Some a \<Rightarrow> a \<in> dom (tm_heap m) - set (owned m))"

text \<open>
  The contract the workers rely on, with the sequence of tables swapped in as a list: a swap
  publishes its argument, retires the previous table, and deletes at most the table
  retired two swaps before.
\<close>

locale deferred_reclaim =
  fixes load :: "'m \<Rightarrow> addr option"
    and swap :: "addr option \<Rightarrow> 'm \<Rightarrow> 'm"
    and live :: "'m \<Rightarrow> addr set"
    and old :: "'m \<Rightarrow> addr option"
    and older :: "'m \<Rightarrow> addr option"
    and ok :: "'m \<Rightarrow> bool"
    and given :: "addr option \<Rightarrow> 'm \<Rightarrow> bool"
  assumes load_swap: "load (swap p m) = p"
    and old_swap: "old (swap p m) = load m"
    and older_swap: "older (swap p m) = old m"
    and live_swap: "ok m \<Longrightarrow> given p m \<Longrightarrow> live (swap p m) = live m - set_option (older m)"
    and ok_swap: "ok m \<Longrightarrow> given p m \<Longrightarrow> ok (swap p m)"
    and ok_distinct: "ok m \<Longrightarrow> load m = Some a \<Longrightarrow>
          a \<in> live m \<and> old m \<noteq> Some a \<and> older m \<noteq> Some a"
begin

lemma survives_two:
  assumes "ok m" and "load m = Some a" and "given p m" and "given q (swap p m)"
  shows "a \<in> live (swap p m)" and "a \<in> live (swap q (swap p m))"
proof -
  note a = ok_distinct [OF assms(1,2)]
  with assms(1,3) show one: "a \<in> live (swap p m)" by (simp add: live_swap)
  from a one assms ok_swap [OF assms(1,3)] show "a \<in> live (swap q (swap p m))"
    by (simp add: live_swap older_swap)
qed

lemma freed_by_third:
  assumes "ok m" and "load m = Some a" and "given p m" and "given q (swap p m)"
    and "given r (swap q (swap p m))"
  shows "a \<notin> live (swap r (swap q (swap p m)))"
  using assms by (simp add: live_swap ok_swap older_swap old_swap)

end

lemmas manager_simps = owned_def unique_delete_def List.map_filter_def

lemma Swap_heap:
  "dom (tm_heap (RuleTableManager_Swap p m)) = dom (tm_heap m) - set_option (tm_prev_retired m)"
  by (auto simp: RuleTableManager_Swap_def Let_def unique_delete_def split: option.splits if_splits)

lemma Swap_pointers [simp]:
  "tm_active (RuleTableManager_Swap p m) = p"
  "tm_retired (RuleTableManager_Swap p m) = tm_active m"
  "tm_prev_retired (RuleTableManager_Swap p m) = tm_retired m"
  by (simp_all add: RuleTableManager_Swap_def Let_def)

lemma stamp_frame [simp]:
  "tm_active (stamp_generation p m) = tm_active m"
  "tm_retired (stamp_generation p m) = tm_retired m"
  "tm_prev_retired (stamp_generation p m) = tm_prev_retired m"
  "dom (tm_heap (stamp_generation p m)) = dom (tm_heap m)"
  by (auto simp: stamp_generation_def Let_def split: option.splits if_splits)

lemma DpiRuleTableManager_Swap_stamp:
  "DpiRuleTableManager_Swap p m = RuleTableManager_Swap p (stamp_generation p m)"
  by (simp add: DpiRuleTableManager_Swap_def RuleTableManager_Swap_def Let_def)

interpretation spi_manager: deferred_reclaim RuleTableManager_Load RuleTableManager_Swap
  "\<lambda>m. dom (tm_heap m)" tm_retired tm_prev_retired manager_ok handed_over
  by unfold_locales
    (auto simp: RuleTableManager_Load_def Swap_heap manager_ok_def manager_simps handed_over_def
      split: option.splits if_splits)

interpretation dpi_manager: deferred_reclaim DpiRuleTableManager_Load DpiRuleTableManager_Swap
  "\<lambda>m. dom (tm_heap m)" tm_retired tm_prev_retired manager_ok handed_over
  by unfold_locales
    (auto simp: DpiRuleTableManager_Load_def DpiRuleTableManager_Swap_stamp Swap_heap manager_ok_def
      manager_simps handed_over_def split: option.splits if_splits)

section \<open>Properties\<close>

text \<open>
  C30. A worker that loaded the SPI rule table may go on using it across two further swaps: the
  table it holds has not been deleted, and it is the same table. The third swap deletes it.
\<close>

theorem spi_table_reclaimed_by_third_swap:
  assumes "manager_ok m" and "RuleTableManager_Load m = Some a"
    and "handed_over p m" and "handed_over q (RuleTableManager_Swap p m)"
    and "handed_over r (RuleTableManager_Swap q (RuleTableManager_Swap p m))"
  shows "tm_heap (RuleTableManager_Swap p m) a = tm_heap m a \<and> a \<in> dom (tm_heap m) \<and>
         tm_heap (RuleTableManager_Swap q (RuleTableManager_Swap p m)) a = tm_heap m a \<and>
         tm_heap (RuleTableManager_Swap r (RuleTableManager_Swap q (RuleTableManager_Swap p m))) a = None"
proof -
  have same: "tm_heap (RuleTableManager_Swap p m) a = tm_heap m a"
    if "a \<in> dom (tm_heap (RuleTableManager_Swap p m))" for p :: "addr option" and m :: "'a TableManager"
    using that
    by (auto simp: RuleTableManager_Swap_def Let_def unique_delete_def split: option.splits if_splits)
  note live = spi_manager.survives_two [OF assms(1-4)]
  show ?thesis
    using same [OF live(1)] same [OF live(2)] spi_manager.freed_by_third [OF assms]
      spi_manager.ok_distinct [OF assms(1,2)] by (simp add: domIff)
qed

definition example_manager :: "nat TableManager" where
  "example_manager = RuleTableManager_Init (Some 0) (empty_manager [0 \<mapsto> 100, 1 \<mapsto> 101, 2 \<mapsto> 102, 3 \<mapsto> 103])"

theorem spi_table_reclaimed_by_third_swap_witness:
  "tm_heap (RuleTableManager_Swap (Some 3) (RuleTableManager_Swap (Some 2)
     (RuleTableManager_Swap (Some 1) example_manager))) 0 = None \<and>
   tm_heap (RuleTableManager_Swap (Some 2) (RuleTableManager_Swap (Some 1) example_manager)) 0 = Some 100"
proof -
  have eqs: "manager_ok example_manager" "RuleTableManager_Load example_manager = Some 0"
    "handed_over (Some 1) example_manager"
    "handed_over (Some 2) (RuleTableManager_Swap (Some 1) example_manager)"
    "handed_over (Some 3) (RuleTableManager_Swap (Some 2) (RuleTableManager_Swap (Some 1) example_manager))"
    "tm_heap example_manager 0 = Some 100"
    by (auto simp: manager_ok_def manager_simps handed_over_def example_manager_def empty_manager_def
        RuleTableManager_Init_def RuleTableManager_Load_def RuleTableManager_Swap_def Let_def)
  from spi_table_reclaimed_by_third_swap [OF eqs(1-5)] eqs(6) show ?thesis by simp
qed

text \<open>The generation workers read through the active pointer.\<close>

definition active_generation :: "'a DpiTableHeader_scheme TableManager \<Rightarrow> u32" where
  "active_generation m = (case Option.bind (tm_active m) (tm_heap m) of
     None \<Rightarrow> 0 | Some t \<Rightarrow> dt_generation t)"

fun publishes :: "addr list \<Rightarrow> 'a DpiTableHeader_scheme TableManager \<Rightarrow> bool" where
  "publishes [] m = True"
| "publishes (a # as) m = (handed_over (Some a) m \<and> publishes as (DpiRuleTableManager_Swap (Some a) m))"

lemma Swap_generation:
  assumes "manager_ok m" and "handed_over (Some a) m"
  shows "active_generation (DpiRuleTableManager_Swap (Some a) m) = active_generation m + 1"
  using assms
  by (auto simp: DpiRuleTableManager_Swap_stamp RuleTableManager_Swap_def stamp_generation_def Let_def
      active_generation_def manager_ok_def manager_simps handed_over_def
      split: option.splits if_splits)

text \<open>
  Every published DPI table carries a generation one above its predecessor's (modulo
  \<open>2 ^ 32\<close>): after \<open>n\<close> swaps the active table's generation has advanced by exactly \<open>n\<close>. So no two of
  the tables published within \<open>2 ^ 32\<close> consecutive swaps share a generation.
\<close>

theorem dpi_generation_counts_swaps:
  assumes "manager_ok m" and "publishes as m"
  shows "active_generation (fold (\<lambda>a. DpiRuleTableManager_Swap (Some a)) as m) =
           active_generation m + of_nat (length as)"
  using assms
proof (induction as arbitrary: m)
  case (Cons a as)
  then have "manager_ok (DpiRuleTableManager_Swap (Some a) m)"
    by (auto intro: dpi_manager.ok_swap)
  with Cons show ?case by (simp add: Swap_generation)
qed simp

definition example_dpi_manager :: "DpiTableHeader TableManager" where
  "example_dpi_manager = DpiRuleTableManager_Init (Some 0)
     (empty_manager (\<lambda>a. if a < 3 then Some \<lparr>dt_generation = 0\<rparr> else None))"

theorem dpi_generation_counts_swaps_witness:
  "active_generation (fold (\<lambda>a. DpiRuleTableManager_Swap (Some a)) [1, 2] example_dpi_manager) = 2"
proof -
  have "manager_ok example_dpi_manager" "publishes [1, 2] example_dpi_manager"
    "active_generation example_dpi_manager = 0"
    by (auto simp: example_dpi_manager_def DpiRuleTableManager_Init_def empty_manager_def manager_ok_def
        manager_simps handed_over_def DpiRuleTableManager_Swap_def stamp_generation_def Let_def
        active_generation_def split: if_splits)
  from dpi_generation_counts_swaps [OF this(1,2)] this(3) show ?thesis by simp
qed

end
