(* ===== verification/Pipeline_Counters.thy ===== *)
theory Pipeline_Counters
  imports Dpdk_Prelude
begin

text \<open>
  The counters of the pipeline (\<^verbatim>\<open>spi/spi_pipeline.hpp\<close> and the counter functions of
  \<^verbatim>\<open>spi/spi_pipeline.cpp\<close>). \<^verbatim>\<open>BurstCounters\<close>, \<^verbatim>\<open>AtomicCounters\<close> and \<^verbatim>\<open>PipelineStats\<close>
  have the same sixteen 64-bit fields; one record models them. All additions wrap at 64 bits, as in
  the code.
\<close>

record BurstCounters =
  c_received :: u64
  c_transmitted :: u64
  c_parsed :: u64
  c_matched :: u64
  c_unknown :: u64
  c_malformed :: u64
  c_dropped :: u64
  c_dropped_by_rule :: u64
  c_flow_cache_hits :: u64
  c_dpi_cache_hits :: u64
  c_dpi_cache_misses :: u64
  c_dpi_skipped_by_spi :: u64
  c_dpi_skipped_by_link :: u64
  c_flow_table_full :: u64
  c_pressure_evictions :: u64
  c_flow_table_resizes :: u64

type_synonym AtomicCounters = BurstCounters
type_synonym PipelineStats = BurstCounters

definition no_counters :: BurstCounters where
  "no_counters = \<lparr>c_received = 0, c_transmitted = 0, c_parsed = 0, c_matched = 0, c_unknown = 0, c_malformed = 0, c_dropped = 0,
     c_dropped_by_rule = 0, c_flow_cache_hits = 0, c_dpi_cache_hits = 0, c_dpi_cache_misses = 0, c_dpi_skipped_by_spi = 0,
     c_dpi_skipped_by_link = 0, c_flow_table_full = 0, c_pressure_evictions = 0, c_flow_table_resizes = 0\<rparr>"

definition add_counters :: "BurstCounters \<Rightarrow> BurstCounters \<Rightarrow> BurstCounters" where
  "add_counters a b = \<lparr>c_received = c_received a + c_received b, c_transmitted = c_transmitted a + c_transmitted b,
     c_parsed = c_parsed a + c_parsed b, c_matched = c_matched a + c_matched b, c_unknown = c_unknown a + c_unknown b,
     c_malformed = c_malformed a + c_malformed b, c_dropped = c_dropped a + c_dropped b,
     c_dropped_by_rule = c_dropped_by_rule a + c_dropped_by_rule b, c_flow_cache_hits = c_flow_cache_hits a + c_flow_cache_hits b,
     c_dpi_cache_hits = c_dpi_cache_hits a + c_dpi_cache_hits b, c_dpi_cache_misses = c_dpi_cache_misses a + c_dpi_cache_misses b,
     c_dpi_skipped_by_spi = c_dpi_skipped_by_spi a + c_dpi_skipped_by_spi b,
     c_dpi_skipped_by_link = c_dpi_skipped_by_link a + c_dpi_skipped_by_link b,
     c_flow_table_full = c_flow_table_full a + c_flow_table_full b,
     c_pressure_evictions = c_pressure_evictions a + c_pressure_evictions b,
     c_flow_table_resizes = c_flow_table_resizes a + c_flow_table_resizes b\<rparr>"

section \<open>Operations\<close>

text \<open>The five functions that add counters; the dispatching variant leaves out what was received.\<close>

definition CollectStats :: "AtomicCounters \<Rightarrow> PipelineStats" where
  "CollectStats counters = counters"

definition AddBurstCounters :: "BurstCounters \<Rightarrow> BurstCounters \<Rightarrow> BurstCounters" where
  "AddBurstCounters accumulator burst = add_counters accumulator burst"

definition AddDispatchedWorkerCounters :: "AtomicCounters \<Rightarrow> BurstCounters \<Rightarrow> AtomicCounters" where
  "AddDispatchedWorkerCounters counters burst = (add_counters counters burst)\<lparr>c_received := c_received counters\<rparr>"

definition AddBurstStats :: "PipelineStats \<Rightarrow> BurstCounters \<Rightarrow> PipelineStats" where
  "AddBurstStats stats burst = add_counters stats burst"

definition FlushAtomicCounters :: "AtomicCounters \<Rightarrow> BurstCounters \<Rightarrow> AtomicCounters" where
  "FlushAtomicCounters counters pending = add_counters counters pending"

definition kAtomicFlushBurstInterval :: u32 where "kAtomicFlushBurstInterval = 256"

text \<open>
  The statistics timer of the main loop: the time stamp last seen and the time accumulated, which
  is reset when the period is over and the statistics are printed.
\<close>

definition MaybePrintStats :: "u32 \<Rightarrow> u64 \<Rightarrow> u64 \<Rightarrow> u64 \<times> u64 \<Rightarrow> u64 \<times> u64" where
  "MaybePrintStats timer_period_sec stats_period_tsc current_tsc = (\<lambda>(previous_tsc, timer_tsc).
     if timer_period_sec = 0 then (previous_tsc, timer_tsc)
     else let timer_tsc = timer_tsc + (current_tsc - previous_tsc)
          in (current_tsc, if stats_period_tsc \<le> timer_tsc then 0 else timer_tsc))"

section \<open>Laws of addition\<close>

lemma add_counters_none [simp]: "add_counters a no_counters = a" "add_counters no_counters a = a"
  by (simp_all add: add_counters_def no_counters_def)

lemma add_counters_assoc: "add_counters (add_counters a b) c = add_counters a (add_counters b c)"
  by (simp add: add_counters_def add.assoc)

lemma add_counters_commute: "add_counters a b = add_counters b a"
  by (simp add: add_counters_def add.commute)

lemma add_counters_left_commute: "add_counters a (add_counters b c) = add_counters b (add_counters a c)"
  by (simp add: add_counters_def add.left_commute)

lemmas add_counters_ac = add_counters_assoc add_counters_commute add_counters_left_commute

lemma add_counters_fields [simp]:
  "c_received (add_counters a b) = c_received a + c_received b" "c_transmitted (add_counters a b) = c_transmitted a + c_transmitted b"
  "c_parsed (add_counters a b) = c_parsed a + c_parsed b" "c_matched (add_counters a b) = c_matched a + c_matched b"
  "c_unknown (add_counters a b) = c_unknown a + c_unknown b" "c_malformed (add_counters a b) = c_malformed a + c_malformed b"
  "c_dropped (add_counters a b) = c_dropped a + c_dropped b"
  "c_flow_cache_hits (add_counters a b) = c_flow_cache_hits a + c_flow_cache_hits b"
  by (simp_all add: add_counters_def)

end
