(* ===== verification/Ip_Address.thy ===== *)
theory Ip_Address
  imports Dpdk_Prelude
begin

text \<open>
  Parsing of addresses and CIDR blocks (\<^verbatim>\<open>spi_ip_address.hpp\<close>,
  \<^verbatim>\<open>spi_ip_address.cpp\<close>). \<^verbatim>\<open>inet_pton\<close> belongs to the C library and is a
  parameter: for IPv4 it yields the address as loaded from its network-order bytes, for IPv6
  sixteen bytes. \<^verbatim>\<open>std::from_chars\<close> and \<^verbatim>\<open>strtoul\<close> are written out.
\<close>

record inet_ops =
  inet_pton4 :: "string \<Rightarrow> u32 option"
  inet_pton6 :: "string \<Rightarrow> bytes option"

text \<open>What the code relies on: an IPv6 address has sixteen bytes.\<close>

definition inet_contract :: "inet_ops \<Rightarrow> bool" where
  "inet_contract inet \<longleftrightarrow> (\<forall>s bs. inet_pton6 inet s = Some bs \<longrightarrow> length bs = 16)"

datatype ip_error =
  InvalidIpv4Address string
| MissingSlash string
| InvalidCidrAddress string ip_error
| BadPrefixLength string
| InvalidIpv6Address string
| InvalidIpv6CidrAddress string ip_error
| BadIpv6PrefixLength string

section \<open>Numbers in text\<close>

definition is_digit :: "char \<Rightarrow> bool" where
  "is_digit c \<longleftrightarrow> 48 \<le> (of_char c :: nat) \<and> (of_char c :: nat) \<le> 57"

definition digits_value :: "string \<Rightarrow> nat" where
  "digits_value s = foldl (\<lambda>n c. 10 * n + (of_char c - 48)) 0 s"

text \<open>\<^verbatim>\<open>std::from_chars\<close> into a 16-bit unsigned: the value and the unread rest, or an error.\<close>

definition from_chars_u16 :: "string \<Rightarrow> (u16 \<times> string) option" where
  "from_chars_u16 s =
     (let digits = takeWhile is_digit s in
      if digits = [] \<or> 65535 < int (digits_value digits) then None
      else Some (of_nat (digits_value digits), dropWhile is_digit s))"

definition is_space :: "char \<Rightarrow> bool" where
  "is_space c \<longleftrightarrow> (let n = (of_char c :: nat) in n = 32 \<or> (9 \<le> n \<and> n \<le> 13))"

text \<open>\<^verbatim>\<open>strtoul(s, nullptr, 10)\<close>: white space, an optional sign, digits; saturating.\<close>

definition strtoul10 :: "string \<Rightarrow> u64" where
  "strtoul10 s =
     (let s = dropWhile is_space s;
          negative = (s \<noteq> [] \<and> hd s = CHR ''-'');
          body = (if s \<noteq> [] \<and> (hd s = CHR ''-'' \<or> hd s = CHR ''+'') then tl s else s);
          n = digits_value (takeWhile is_digit body)
      in if 2 ^ 64 \<le> int n then - 1 else if negative then - of_nat n else of_nat n)"

text \<open>\<^verbatim>\<open>std::string::find\<close> of one character.\<close>

definition find_char :: "char \<Rightarrow> string \<Rightarrow> nat option" where
  "find_char c s = (let n = length (takeWhile (\<lambda>x. x \<noteq> c) s) in if n < length s then Some n else None)"

section \<open>Operations\<close>

definition ParseIpv4Address :: "inet_ops \<Rightarrow> string \<Rightarrow> ip_error + u32" where
  "ParseIpv4Address inet address = (case inet_pton4 inet address of
     None \<Rightarrow> Inl (InvalidIpv4Address address)
   | Some s_addr \<Rightarrow> Inr (rte_be_to_cpu_32 s_addr))"

definition PrefixMask :: "u16 \<Rightarrow> u32" where
  "PrefixMask prefix_length =
     (if prefix_length = 0 then 0
      else if 32 \<le> prefix_length then 0xFFFFFFFF
      else NOT (push_bit (32 - unat prefix_length) 1 - 1))"

definition ParseCidr :: "inet_ops \<Rightarrow> string \<Rightarrow> ip_error + (u32 \<times> u32)" where
  "ParseCidr inet cidr = (case find_char (CHR ''/'') cidr of
     None \<Rightarrow> Inl (MissingSlash cidr)
   | Some slash \<Rightarrow>
       (case ParseIpv4Address inet (take slash cidr) of
          Inl e \<Rightarrow> Inl (InvalidCidrAddress cidr e)
        | Inr address \<Rightarrow>
            (case from_chars_u16 (drop (slash + 1) cidr) of
               None \<Rightarrow> Inl (BadPrefixLength cidr)
             | Some (prefix_length, rest) \<Rightarrow>
                 if rest \<noteq> [] \<or> 32 < prefix_length then Inl (BadPrefixLength cidr)
                 else let mask = PrefixMask prefix_length in Inr (address AND mask, mask))))"

definition ParseIpv6Address :: "inet_ops \<Rightarrow> string \<Rightarrow> ip_error + bytes" where
  "ParseIpv6Address inet address = (case inet_pton6 inet address of
     None \<Rightarrow> Inl (InvalidIpv6Address address)
   | Some bs \<Rightarrow> Inr bs)"

definition ParseIpv6Cidr :: "inet_ops \<Rightarrow> string \<Rightarrow> ip_error + (bytes \<times> u16)" where
  "ParseIpv6Cidr inet cidr = (case find_char (CHR ''/'') cidr of
     None \<Rightarrow> (case ParseIpv6Address inet cidr of
        Inl e \<Rightarrow> Inl (InvalidIpv6CidrAddress cidr e)
      | Inr address \<Rightarrow> Inr (address, 128))
   | Some slash \<Rightarrow>
       (case ParseIpv6Address inet (take slash cidr) of
          Inl e \<Rightarrow> Inl (InvalidIpv6CidrAddress cidr e)
        | Inr address \<Rightarrow>
            (case from_chars_u16 (drop (slash + 1) cidr) of
               None \<Rightarrow> Inl (BadIpv6PrefixLength cidr)
             | Some (prefix_length, rest) \<Rightarrow>
                 if rest \<noteq> [] \<or> 128 < prefix_length then Inl (BadIpv6PrefixLength cidr)
                 else Inr (address, prefix_length))))"

section \<open>Prefix masks\<close>

lemma PrefixMask_mask:
  assumes "n \<le> 32"
  shows "PrefixMask n = NOT (mask (32 - unat n))"
proof -
  have "unat n \<le> 32" using assms by (simp add: word_le_nat_alt)
  moreover have "n = 32" if "32 \<le> n" using assms that by simp
  ultimately show ?thesis
    by (auto simp: PrefixMask_def mask_eq_exp_minus_1 unat_eq_0 push_bit_of_1)
qed

lemma bit_PrefixMask:
  assumes "n \<le> 32"
  shows "bit (PrefixMask n) i \<longleftrightarrow> i < 32 \<and> 32 - unat n \<le> i"
  using assms by (auto simp: PrefixMask_mask bit_simps)

text \<open>Two addresses agree under a mask exactly if they agree on the masked bits.\<close>

lemma prefix_match_iff:
  assumes "n \<le> 32"
  shows "a AND PrefixMask n = b AND PrefixMask n \<longleftrightarrow>
         (\<forall>i. 32 - unat n \<le> i \<and> i < 32 \<longrightarrow> bit a i = bit b i)"
  unfolding bit_eq_iff using bit_PrefixMask [OF assms]
  by (auto simp: bit_simps dest: bit_imp_le_length)

lemma from_chars_strtoul:
  assumes "from_chars_u16 s = Some (n, [])"
  shows "strtoul10 s = ucast n"
proof -
  have "takeWhile is_digit s @ dropWhile is_digit s = s" by (rule takeWhile_dropWhile_id)
  moreover from assms have "dropWhile is_digit s = []" "takeWhile is_digit s \<noteq> []"
    and val: "n = of_nat (digits_value (takeWhile is_digit s))" "digits_value (takeWhile is_digit s) \<le> 65535"
    by (auto simp: from_chars_u16_def Let_def split: if_splits)
  ultimately have all: "takeWhile is_digit s = s" and s: "s \<noteq> []" by auto
  with val have n: "n = of_nat (digits_value s)" "digits_value s \<le> 65535" by simp_all
  from all s have "is_digit (hd s)" by (metis hd_in_set set_takeWhileD)
  then have not: "\<not> is_space (hd s)" "hd s \<noteq> CHR ''-''" "hd s \<noteq> CHR ''+''"
    by (auto simp: is_digit_def is_space_def Let_def)
  then have "dropWhile is_space s = s" using s by (cases s) auto
  moreover have "digits_value (takeWhile is_digit s) = digits_value s" by (simp only: all)
  ultimately have "strtoul10 s = of_nat (digits_value s)"
    using not s n(2) by (simp add: strtoul10_def Let_def)
  also have "\<dots> = ucast n"
    using n(2) by (simp add: n(1) unsigned_of_nat take_bit_nat_eq_self)
  finally show ?thesis .
qed

section \<open>Properties\<close>

lemma ParseCidr_cases:
  assumes "ParseCidr inet cidr = Inr (network, msk)"
  obtains slash address n where "find_char (CHR ''/'') cidr = Some slash"
    and "ParseIpv4Address inet (take slash cidr) = Inr address"
    and "from_chars_u16 (drop (slash + 1) cidr) = Some (n, [])" and "n \<le> 32"
    and "msk = PrefixMask n" and "network = address AND msk"
  using assms
  by (auto simp: ParseCidr_def Let_def split: option.splits sum.splits prod.splits if_splits)

text \<open>
  A CIDR block that parses denotes the addresses its text says: with the address part
  and the prefix length \<open>n\<close> read from the text, \<open>n\<close> is at most 32 and an address
  lies in the block (masked, it equals the network) exactly if its top \<open>n\<close> bits are those of the
  address part.
\<close>

theorem ParseCidr_membership:
  assumes "ParseCidr inet cidr = Inr (network, msk)"
  shows "\<exists>slash address n. find_char (CHR ''/'') cidr = Some slash \<and>
           ParseIpv4Address inet (take slash cidr) = Inr address \<and>
           from_chars_u16 (drop (slash + 1) cidr) = Some (n, []) \<and> n \<le> 32 \<and>
           strtoul10 (drop (slash + 1) cidr) = ucast n \<and>
           (\<forall>ip. ip AND msk = network \<longleftrightarrow> (\<forall>i. 32 - unat n \<le> i \<and> i < 32 \<longrightarrow> bit ip i = bit address i))"
  using assms
proof (rule ParseCidr_cases)
  fix slash address n
  assume *: "find_char (CHR ''/'') cidr = Some slash" "ParseIpv4Address inet (take slash cidr) = Inr address"
    "from_chars_u16 (drop (slash + 1) cidr) = Some (n, [])" "n \<le> 32" "msk = PrefixMask n"
    "network = address AND msk"
  then show ?thesis
    using from_chars_strtoul [OF *(3)] prefix_match_iff [OF *(4), of _ address]
    by (intro exI [of _ slash] exI [of _ address] exI [of _ n]) simp
qed

definition example_inet :: inet_ops where
  "example_inet = \<lparr>inet_pton4 = (\<lambda>s. if s = ''10.0.0.0'' then Some 10 else None),
                   inet_pton6 = (\<lambda>_. None)\<rparr>"

theorem ParseCidr_membership_witness:
  "\<exists>slash address n. find_char (CHR ''/'') ''10.0.0.0/8'' = Some slash \<and>
     ParseIpv4Address example_inet (take slash ''10.0.0.0/8'') = Inr address \<and>
     from_chars_u16 (drop (slash + 1) ''10.0.0.0/8'') = Some (n, []) \<and> n \<le> 32 \<and>
     strtoul10 (drop (slash + 1) ''10.0.0.0/8'') = ucast n \<and>
     (\<forall>ip :: u32. ip AND 0xFF000000 = 0x0A000000 \<longleftrightarrow>
        (\<forall>i. 32 - unat n \<le> i \<and> i < 32 \<longrightarrow> bit ip i = bit address i))"
  by (rule ParseCidr_membership) code_simp

end
