(* ===== verification/Config.thy ===== *)
theory Config
  imports Tcp_Reassembly Ip_Address
begin

text \<open>
  The configuration structures (\<^verbatim>\<open>config/dpdk_config.hpp\<close>) and their validation
  (\<^verbatim>\<open>config/dpdk_config_loader.cpp\<close>). Reading YAML or BEVE into the structures is
  the work of the glaze library and a parameter of \<open>LoadConfig\<close>. Each formatted error message is a
  constructor of \<open>ConfigError\<close> with the values the message shows; the macros
  \<^verbatim>\<open>CONFIG_VALIDATE\<close> and \<^verbatim>\<open>CONFIG_PROPAGATE\<close> are \<open>validate\<close> and \<open>propagate\<close>.
\<close>

section \<open>Structures\<close>

record EalConfig =
  cpu_core_list :: string
  memory_channels :: int
  disable_hugepages :: bool
  memory_size :: string
  legacy_memory :: bool
  disable_pci :: bool
  process_type :: string
  eal_file_prefix :: string
  log_level :: string
  virtual_devices :: "string list"

record PortPair =
  pp_receive_port :: u16
  pp_transmit_port :: u16

record PortConfig =
  port_bitmask :: string
  promiscuous :: bool
  receive_queues :: u16
  transmit_queues :: u16
  receive_descriptors :: u16
  transmit_descriptors :: u16
  link_speed :: u32
  port_pairs :: "PortPair list"
  link_check_interval_ms :: int
  link_check_max_count :: int

record MempoolConfig =
  mp_name :: string
  memory_buffer_count :: nat
  cache_size :: nat
  memory_buffer_size :: nat

record AppConfig =
  burst_size :: u16
  mac_updating :: bool
  timer_period_sec :: u32

record QueueMapping =
  qm_port_id :: u16
  qm_queue_id :: u16
  qm_lcore_id :: u32

record EthernetDestination =
  ed_port_id :: u16
  ed_mac_address :: string

record Ipv4Route =
  r4_destination_ip_address :: string
  r4_prefix_length :: u16
  r4_output_port :: u16

record Ipv6Route =
  r6_destination_ip_address :: string
  r6_prefix_length :: u16
  r6_output_port :: u16

record L3ForwardConfig =
  l3_enabled :: bool
  lookup_method :: string
  ipv4_rule_file :: string
  ipv6_rule_file :: string
  ipv4_routes :: "Ipv4Route list"
  ipv6_routes :: "Ipv6Route list"
  queue_mappings :: "QueueMapping list"
  ethernet_destinations :: "EthernetDestination list"
  receive_burst_size :: u16
  transmit_burst_size :: u16
  max_packet_length :: u32
  numa_aware :: bool
  hash_entry_num :: string
  l3_ipv6 :: bool
  parse_packet_type :: bool
  per_port_pool :: bool
  l3_mode :: string
  event_queue_schedule :: string
  event_eth_rx_queues :: u16
  event_vector :: bool
  event_vector_size :: u16
  event_vector_timeout_ns :: u64
  l3_acl_classify_algorithm :: string

record SpiFilterConfig =
  sfc_protocol :: string
  sfc_source_ip_address :: "string option"
  sfc_destination_ip_address :: "string option"
  sfc_source_port :: "u16 option"
  sfc_destination_port :: "u16 option"
  sfc_label :: string

record SpiFilterGroupConfig =
  sgc_name :: string
  sgc_precedence :: u32
  sgc_action :: string
  sgc_filters :: "SpiFilterConfig list"
  sgc_l7_required :: bool
  sgc_dpi_filter_group :: string

record SpiConfig =
  worker_count :: u16
  packet_distribution :: string
  dispatch_queue_size :: u32
  drop_unmatched :: bool
  flow_ttl_sec :: u32
  fragment_timeout_sec :: u32
  tcp_reassembly :: TcpReassemblyConfig
  spi_max_concurrent_flows :: u32
  flow_overflow_action :: string
  max_compilation_threads :: nat
  max_acl_build_threads :: nat
  acl_classify_algorithm :: string
  acl_build_max_size_mb :: nat
  rule_path :: string
  filter_groups :: "SpiFilterGroupConfig list"

record DpiFilterConfig =
  dfc_hostname_pattern :: string
  dfc_uri_pattern :: "string option"
  dfc_filter_group :: string
  dfc_priority :: u32
  dfc_label :: string

record DpiConfig =
  dpi_enabled :: bool
  dpi_filters :: "DpiFilterConfig list"

record RuleStoreConfig =
  rs_filter_groups :: "SpiFilterGroupConfig list"
  rs_dpi :: DpiConfig

record PcapInjectorConfig =
  pcap_enabled :: bool
  pcap_file :: string
  loop_count :: u32
  packets_per_second :: u64
  max_packets :: u64
  receive_port_id :: u16
  inject_burst_size :: u32

record DpdkConfig =
  cfg_eal :: EalConfig
  cfg_port :: PortConfig
  cfg_mempool :: MempoolConfig
  cfg_app :: AppConfig
  cfg_l3_forward :: L3ForwardConfig
  cfg_spi :: SpiConfig
  cfg_dpi :: DpiConfig
  cfg_pcap_injector :: PcapInjectorConfig

subsection \<open>Member initialisers\<close>

definition default_TcpReassemblyConfig :: TcpReassemblyConfig where
  "default_TcpReassemblyConfig = \<lparr>trc_enabled = False, trc_idle_timeout_sec = 60, trc_max_concurrent_streams = 16384,
     trc_max_buffered_bytes_per_direction = 16384, trc_max_out_of_order_segments = 32, trc_memory_budget_mb = 256,
     trc_drop_conflicting_overlap = True\<rparr>"

definition default_EalConfig :: EalConfig where
  "default_EalConfig = \<lparr>cpu_core_list = ''0-4'', memory_channels = 4, disable_hugepages = False, memory_size = [],
     legacy_memory = False, disable_pci = False, process_type = ''primary'', eal_file_prefix = [], log_level = ''7'',
     virtual_devices = []\<rparr>"

definition default_PortConfig :: PortConfig where
  "default_PortConfig = \<lparr>port_bitmask = ''0x1'', promiscuous = False, receive_queues = 1, transmit_queues = 1,
     receive_descriptors = 1024, transmit_descriptors = 1024, link_speed = 0, port_pairs = [],
     link_check_interval_ms = 100, link_check_max_count = 90\<rparr>"

text \<open>The default size of a buffer is DPDK's: 2048 bytes of data and 128 of head room.\<close>

definition default_MempoolConfig :: MempoolConfig where
  "default_MempoolConfig = \<lparr>mp_name = ''mbuf_pool'', memory_buffer_count = 65536, cache_size = 256,
     memory_buffer_size = 2176\<rparr>"

definition default_AppConfig :: AppConfig where
  "default_AppConfig = \<lparr>burst_size = 32, mac_updating = True, timer_period_sec = 10\<rparr>"

definition default_L3ForwardConfig :: L3ForwardConfig where
  "default_L3ForwardConfig = \<lparr>l3_enabled = False, lookup_method = ''lpm'', ipv4_rule_file = [], ipv6_rule_file = [],
     ipv4_routes = [], ipv6_routes = [], queue_mappings = [], ethernet_destinations = [], receive_burst_size = 32,
     transmit_burst_size = 32, max_packet_length = 0, numa_aware = True, hash_entry_num = [], l3_ipv6 = False,
     parse_packet_type = False, per_port_pool = False, l3_mode = ''poll'', event_queue_schedule = ''atomic'',
     event_eth_rx_queues = 1, event_vector = False, event_vector_size = 0, event_vector_timeout_ns = 0,
     l3_acl_classify_algorithm = ''default''\<rparr>"

definition default_SpiConfig :: SpiConfig where
  "default_SpiConfig = \<lparr>worker_count = 1, packet_distribution = ''auto'', dispatch_queue_size = 8192,
     drop_unmatched = False, flow_ttl_sec = 300, fragment_timeout_sec = 60,
     tcp_reassembly = default_TcpReassemblyConfig, spi_max_concurrent_flows = 1000000, flow_overflow_action = ''drop'',
     max_compilation_threads = 2, max_acl_build_threads = 2, acl_classify_algorithm = ''default'',
     acl_build_max_size_mb = 0, rule_path = [], filter_groups = []\<rparr>"

definition default_PcapInjectorConfig :: PcapInjectorConfig where
  "default_PcapInjectorConfig = \<lparr>pcap_enabled = False, pcap_file = [], loop_count = 1, packets_per_second = 0,
     max_packets = 0, receive_port_id = 0, inject_burst_size = 64\<rparr>"

definition default_DpdkConfig :: DpdkConfig where
  "default_DpdkConfig = \<lparr>cfg_eal = default_EalConfig, cfg_port = default_PortConfig,
     cfg_mempool = default_MempoolConfig, cfg_app = default_AppConfig, cfg_l3_forward = default_L3ForwardConfig,
     cfg_spi = default_SpiConfig, cfg_dpi = \<lparr>dpi_enabled = False, dpi_filters = []\<rparr>,
     cfg_pcap_injector = default_PcapInjectorConfig\<rparr>"

section \<open>Errors\<close>

datatype ConfigError =
  FilterProtocol nat nat | FilterNoMatchField nat nat | FilterSourceIp nat nat
| FilterDestinationIp nat nat | FilterSourcePort nat nat | FilterDestinationPort nat nat
| GroupName nat | GroupFiltersEmpty nat | GroupAction nat
| Ipv4RouteAddress nat | Ipv4RoutePrefix nat | Ipv6RouteAddress nat | Ipv6RoutePrefix nat
| EthernetDestinationMac nat | L3LookupMethod | L3Mode | L3EventQueueSchedule | L3EventRxQueues
| L3AclAlgorithm | L3ReceiveBurst | L3TransmitBurst | L3MaxPacketLength | L3HashEntryNum
| L3NoRouteSource | L3NoQueueMappings | Ipv4RouteNoDestination nat u16
| ReceiveQueuesZero | TransmitQueuesZero | WorkerCountZero | PacketDistribution
| DispatchQueueSize | WorkersExceedDispatch u16 u32 | WorkersExceedReceive u16 u16
| WorkersExceedTransmit u16 u16 | PcapFileEmpty | PcapBurstSize u32
| NoFilterGroups | MaxConcurrentFlows | FragmentTimeout | ReassemblyTimeout | ReassemblyStreams
| ReassemblyBytes | ReassemblySegments | ReassemblyBudget | FlowOverflowAction string
| CompilationThreads nat nat | AclBuildThreads nat nat | AclAlgorithm | AclBuildMaxSize
| UnresolvedDpiGroup nat string string
| ParseBeve string | ParseYaml string | RulePathFailed string

definition validate :: "bool \<Rightarrow> ConfigError \<Rightarrow> ConfigError + unit \<Rightarrow> ConfigError + unit" where
  "validate invalid_condition e rest = (if invalid_condition then Inl e else rest)"

definition propagate :: "ConfigError + unit \<Rightarrow> ConfigError + unit \<Rightarrow> ConfigError + unit" where
  "propagate r rest = (case r of Inl e \<Rightarrow> Inl e | Inr _ \<Rightarrow> rest)"

text \<open>A loop that propagates the first error of its body over the indexed elements.\<close>

fun validate_from :: "(nat \<Rightarrow> 'a \<Rightarrow> ConfigError + unit) \<Rightarrow> nat \<Rightarrow> 'a list \<Rightarrow> ConfigError + unit" where
  "validate_from f i [] = Inr ()"
| "validate_from f i (x # xs) = propagate (f i x) (validate_from f (Suc i) xs)"

lemma validate_ok [simp]: "validate bad e rest = Inr u \<longleftrightarrow> \<not> bad \<and> rest = Inr u"
  by (simp add: validate_def)

lemma propagate_ok [simp]: "propagate r rest = Inr u \<longleftrightarrow> r = Inr () \<and> rest = Inr u"
  by (cases r) (simp_all add: propagate_def)

lemma validate_from_ok:
  "validate_from f i xs = Inr u \<longleftrightarrow> (\<forall>j < length xs. f (i + j) (xs ! j) = Inr ())"
  by (induction f i xs rule: validate_from.induct)
    (auto simp: less_Suc_eq_0_disj nth_Cons split: nat.splits)

section \<open>Predicates\<close>

definition kMaxL3BurstSize :: u16 where "kMaxL3BurstSize = 64"
definition kMinL3PacketLength :: u32 where "kMinL3PacketLength = 64"
definition kMaxL3PacketLength :: u32 where "kMaxL3PacketLength = 9600"
definition kMacAddressLength :: nat where "kMacAddressLength = 17"
definition kMacAddressSeparatorPeriod :: nat where "kMacAddressSeparatorPeriod = 3"

definition IsSupportedProtocol :: "string \<Rightarrow> bool" where
  "IsSupportedProtocol p \<longleftrightarrow> p = ''tcp'' \<or> p = ''udp''"

definition IsSupportedL3LookupMethod :: "string \<Rightarrow> bool" where
  "IsSupportedL3LookupMethod m \<longleftrightarrow> m = ''em'' \<or> m = ''lpm'' \<or> m = ''fib'' \<or> m = ''acl''"

definition IsSupportedL3Mode :: "string \<Rightarrow> bool" where
  "IsSupportedL3Mode mode \<longleftrightarrow> mode = ''poll'' \<or> mode = ''eventdev''"

definition IsSupportedPacketDistribution :: "string \<Rightarrow> bool" where
  "IsSupportedPacketDistribution mode \<longleftrightarrow> mode = ''auto'' \<or> mode = ''queue'' \<or> mode = ''flow_hash''"

definition IsSupportedFlowOverflowAction :: "string \<Rightarrow> bool" where
  "IsSupportedFlowOverflowAction action \<longleftrightarrow> action = ''drop'' \<or> action = ''reclassify''"

definition IsSupportedEventQueueSchedule :: "string \<Rightarrow> bool" where
  "IsSupportedEventQueueSchedule s \<longleftrightarrow> s = ''ordered'' \<or> s = ''atomic'' \<or> s = ''parallel''"

definition IsSupportedAclClassifyAlgorithm :: "string \<Rightarrow> bool" where
  "IsSupportedAclClassifyAlgorithm a \<longleftrightarrow>
     a = ''default'' \<or> a = ''scalar'' \<or> a = ''sse'' \<or> a = ''avx2'' \<or> a = ''neon'' \<or>
     a = ''altivec'' \<or> a = ''avx512x16'' \<or> a = ''avx512x32''"

definition IsHexDigit :: "char \<Rightarrow> bool" where
  "IsHexDigit c \<longleftrightarrow> (let n = (of_char c :: nat) in
     (48 \<le> n \<and> n \<le> 57) \<or> (97 \<le> n \<and> n \<le> 102) \<or> (65 \<le> n \<and> n \<le> 70))"

definition HasInvalidPort :: "u16 option \<Rightarrow> bool" where
  "HasInvalidPort p \<longleftrightarrow> p = Some 0"

definition IsPowerOfTwo :: "u32 \<Rightarrow> bool" where
  "IsPowerOfTwo n \<longleftrightarrow> n \<noteq> 0 \<and> n AND (n - 1) = 0"

definition HasMatchField :: "SpiFilterConfig \<Rightarrow> bool" where
  "HasMatchField flt \<longleftrightarrow> sfc_source_ip_address flt \<noteq> None \<or>
     sfc_destination_ip_address flt \<noteq> None \<or> sfc_source_port flt \<noteq> None \<or>
     sfc_destination_port flt \<noteq> None"

definition IsCidr :: "string \<Rightarrow> bool" where
  "IsCidr address \<longleftrightarrow> CHR ''/'' \<in> set address"

definition HasValidIp :: "inet_ops \<Rightarrow> string option \<Rightarrow> bool" where
  "HasValidIp inet address = (case address of None \<Rightarrow> True
     | Some a \<Rightarrow> if IsCidr a then \<not> isl (ParseCidr inet a) else \<not> isl (ParseIpv4Address inet a))"

definition HasValidIpv4Address :: "inet_ops \<Rightarrow> string \<Rightarrow> bool" where
  "HasValidIpv4Address inet address \<longleftrightarrow> address \<noteq> [] \<and> \<not> isl (ParseIpv4Address inet address)"

definition HasValidIpv6Address :: "inet_ops \<Rightarrow> string \<Rightarrow> bool" where
  "HasValidIpv6Address inet address \<longleftrightarrow> address \<noteq> [] \<and> inet_pton6 inet address \<noteq> None"

definition hex_value :: "char \<Rightarrow> nat" where
  "hex_value c = (let n = of_char c in if n \<le> 57 then n - 48 else if n \<le> 70 then n - 55 else n - 87)"

text \<open>
  \<^verbatim>\<open>strtoul\<close> in base 16 on the characters before the terminating NUL: the value (\<open>None\<close> if it
  overflows 64 bits) and the rest after the number, or nothing if no digits were converted.
\<close>

definition strtoul16 :: "string \<Rightarrow> (u64 option \<times> string) option" where
  "strtoul16 text =
     (let s = dropWhile is_space (takeWhile (\<lambda>c. c \<noteq> CHR 0x00) text);
          negative = (s \<noteq> [] \<and> hd s = CHR ''-'');
          s = (if s \<noteq> [] \<and> (hd s = CHR ''-'' \<or> hd s = CHR ''+'') then tl s else s);
          s = (if 3 \<le> length s \<and> s ! 0 = CHR ''0'' \<and> (s ! 1 = CHR ''x'' \<or> s ! 1 = CHR ''X'') \<and>
                  IsHexDigit (s ! 2) then drop 2 s else s);
          digits = takeWhile IsHexDigit s;
          n = foldl (\<lambda>n c. 16 * n + hex_value c) 0 digits
      in if digits = [] then None
         else Some (if 2 ^ 64 \<le> int n then None else Some (if negative then - of_nat n else of_nat n),
                    dropWhile IsHexDigit s))"

definition HasValidOptionalHexUint32 :: "string \<Rightarrow> bool" where
  "HasValidOptionalHexUint32 text = (if text = [] then True else
     (case strtoul16 text of
        Some (Some parsed, rest) \<Rightarrow> rest = [] \<and> parsed \<le> 0xFFFFFFFF
      | _ \<Rightarrow> False))"

definition HasValidMacAddress :: "string \<Rightarrow> bool" where
  "HasValidMacAddress address \<longleftrightarrow> length address = kMacAddressLength \<and>
     list_all (\<lambda>i. if (i + 1) mod kMacAddressSeparatorPeriod = 0
                   then address ! i = CHR '':'' else IsHexDigit (address ! i)) [0..<length address]"

section \<open>Validation\<close>

definition ValidateFilterConfig :: "inet_ops \<Rightarrow> SpiFilterConfig \<Rightarrow> nat \<Rightarrow> nat \<Rightarrow> ConfigError + unit" where
  "ValidateFilterConfig inet flt gi fi =
     validate (\<not> IsSupportedProtocol (sfc_protocol flt)) (FilterProtocol gi fi) (
     validate (\<not> HasMatchField flt) (FilterNoMatchField gi fi) (
     validate (\<not> HasValidIp inet (sfc_source_ip_address flt)) (FilterSourceIp gi fi) (
     validate (\<not> HasValidIp inet (sfc_destination_ip_address flt)) (FilterDestinationIp gi fi) (
     validate (HasInvalidPort (sfc_source_port flt)) (FilterSourcePort gi fi) (
     validate (HasInvalidPort (sfc_destination_port flt)) (FilterDestinationPort gi fi) (
     Inr ()))))))"

definition ValidateFilterGroupConfig ::
    "inet_ops \<Rightarrow> SpiFilterGroupConfig \<Rightarrow> nat \<Rightarrow> ConfigError + unit" where
  "ValidateFilterGroupConfig inet grp index =
     validate (sgc_name grp = []) (GroupName index) (
     validate (sgc_filters grp = []) (GroupFiltersEmpty index) (
     validate (\<not> IsSupportedProtocol (sgc_action grp) \<and> sgc_action grp \<noteq> ''forward'' \<and>
               sgc_action grp \<noteq> ''drop'') (GroupAction index) (
     validate_from (\<lambda>fi flt. ValidateFilterConfig inet flt index fi) 0 (sgc_filters grp))))"

definition ValidateL3Ipv4Route :: "inet_ops \<Rightarrow> nat \<Rightarrow> Ipv4Route \<Rightarrow> ConfigError + unit" where
  "ValidateL3Ipv4Route inet index route =
     validate (\<not> HasValidIpv4Address inet (r4_destination_ip_address route)) (Ipv4RouteAddress index) (
     validate (32 < r4_prefix_length route) (Ipv4RoutePrefix index) (Inr ()))"

definition ValidateL3Ipv6Route :: "inet_ops \<Rightarrow> nat \<Rightarrow> Ipv6Route \<Rightarrow> ConfigError + unit" where
  "ValidateL3Ipv6Route inet index route =
     validate (\<not> HasValidIpv6Address inet (r6_destination_ip_address route)) (Ipv6RouteAddress index) (
     validate (128 < r6_prefix_length route) (Ipv6RoutePrefix index) (Inr ()))"

definition ValidateL3EthernetDestination :: "nat \<Rightarrow> EthernetDestination \<Rightarrow> ConfigError + unit" where
  "ValidateL3EthernetDestination index destination =
     validate (\<not> HasValidMacAddress (ed_mac_address destination)) (EthernetDestinationMac index) (Inr ())"

definition HasEthernetDestination :: "L3ForwardConfig \<Rightarrow> u16 \<Rightarrow> bool" where
  "HasEthernetDestination config port_id =
     list_ex (\<lambda>d. ed_port_id d = port_id) (ethernet_destinations config)"

definition HasL3RouteSource :: "L3ForwardConfig \<Rightarrow> bool" where
  "HasL3RouteSource config \<longleftrightarrow> ipv4_rule_file config \<noteq> [] \<or> ipv6_rule_file config \<noteq> [] \<or>
     ipv4_routes config \<noteq> [] \<or> ipv6_routes config \<noteq> []"

definition ValidateL3ModeOptions :: "L3ForwardConfig \<Rightarrow> ConfigError + unit" where
  "ValidateL3ModeOptions config =
     validate (\<not> IsSupportedL3LookupMethod (lookup_method config)) L3LookupMethod (
     validate (\<not> IsSupportedL3Mode (l3_mode config)) L3Mode (Inr ()))"

definition ValidateL3EventOptions :: "L3ForwardConfig \<Rightarrow> ConfigError + unit" where
  "ValidateL3EventOptions config =
     validate (\<not> IsSupportedEventQueueSchedule (event_queue_schedule config)) L3EventQueueSchedule (
     validate (event_eth_rx_queues config \<le> 0) L3EventRxQueues (Inr ()))"

definition ValidateL3AclOptions :: "L3ForwardConfig \<Rightarrow> ConfigError + unit" where
  "ValidateL3AclOptions config =
     validate (\<not> IsSupportedAclClassifyAlgorithm (l3_acl_classify_algorithm config)) L3AclAlgorithm (Inr ())"

definition ValidateL3BurstSizes :: "L3ForwardConfig \<Rightarrow> ConfigError + unit" where
  "ValidateL3BurstSizes config =
     validate (receive_burst_size config \<le> 0 \<or> kMaxL3BurstSize < receive_burst_size config) L3ReceiveBurst (
     validate (transmit_burst_size config \<le> 0 \<or> kMaxL3BurstSize < transmit_burst_size config)
       L3TransmitBurst (Inr ()))"

definition ValidateL3MaxPacketLength :: "L3ForwardConfig \<Rightarrow> ConfigError + unit" where
  "ValidateL3MaxPacketLength config =
     validate (max_packet_length config \<noteq> 0 \<and>
               (max_packet_length config < kMinL3PacketLength \<or> kMaxL3PacketLength < max_packet_length config))
       L3MaxPacketLength (Inr ())"

definition ValidateL3HashEntryNum :: "L3ForwardConfig \<Rightarrow> ConfigError + unit" where
  "ValidateL3HashEntryNum config =
     validate (\<not> HasValidOptionalHexUint32 (hash_entry_num config)) L3HashEntryNum (Inr ())"

definition ValidateL3ScalarOptions :: "L3ForwardConfig \<Rightarrow> ConfigError + unit" where
  "ValidateL3ScalarOptions config =
     propagate (ValidateL3ModeOptions config) (
     propagate (ValidateL3EventOptions config) (
     propagate (ValidateL3AclOptions config) (
     propagate (ValidateL3BurstSizes config) (
     propagate (ValidateL3MaxPacketLength config) (
     propagate (ValidateL3HashEntryNum config) (Inr ()))))))"

definition ValidateL3Ipv4Routes :: "inet_ops \<Rightarrow> L3ForwardConfig \<Rightarrow> ConfigError + unit" where
  "ValidateL3Ipv4Routes inet config = validate_from (ValidateL3Ipv4Route inet) 0 (ipv4_routes config)"

definition ValidateL3Ipv6Routes :: "inet_ops \<Rightarrow> L3ForwardConfig \<Rightarrow> ConfigError + unit" where
  "ValidateL3Ipv6Routes inet config = validate_from (ValidateL3Ipv6Route inet) 0 (ipv6_routes config)"

definition ValidateL3EthernetDestinations :: "L3ForwardConfig \<Rightarrow> ConfigError + unit" where
  "ValidateL3EthernetDestinations config =
     validate_from ValidateL3EthernetDestination 0 (ethernet_destinations config)"

definition ValidateEnabledL3RouteSource :: "L3ForwardConfig \<Rightarrow> ConfigError + unit" where
  "ValidateEnabledL3RouteSource config =
     validate (\<not> HasL3RouteSource config) L3NoRouteSource (Inr ())"

definition ValidateL3PollModeRequirements :: "L3ForwardConfig \<Rightarrow> ConfigError + unit" where
  "ValidateL3PollModeRequirements config =
     (if l3_mode config = ''poll''
      then validate (queue_mappings config = []) L3NoQueueMappings (Inr ()) else Inr ())"

definition ValidateL3Ipv4RouteDestinations :: "L3ForwardConfig \<Rightarrow> ConfigError + unit" where
  "ValidateL3Ipv4RouteDestinations config =
     validate_from (\<lambda>i route. validate (\<not> HasEthernetDestination config (r4_output_port route))
       (Ipv4RouteNoDestination i (r4_output_port route)) (Inr ())) 0 (ipv4_routes config)"

definition ValidateEnabledL3ForwardConfig :: "L3ForwardConfig \<Rightarrow> ConfigError + unit" where
  "ValidateEnabledL3ForwardConfig config =
     (if \<not> l3_enabled config then Inr ()
      else propagate (ValidateEnabledL3RouteSource config) (
           propagate (ValidateL3PollModeRequirements config) (
           propagate (ValidateL3Ipv4RouteDestinations config) (Inr ()))))"

definition ValidateL3ForwardConfig :: "inet_ops \<Rightarrow> L3ForwardConfig \<Rightarrow> ConfigError + unit" where
  "ValidateL3ForwardConfig inet config =
     propagate (ValidateL3ScalarOptions config) (
     propagate (ValidateL3Ipv4Routes inet config) (
     propagate (ValidateL3Ipv6Routes inet config) (
     propagate (ValidateL3EthernetDestinations config) (
     propagate (ValidateEnabledL3ForwardConfig config) (Inr ())))))"

definition ValidateWorkerQueueConfig :: "DpdkConfig \<Rightarrow> ConfigError + unit" where
  "ValidateWorkerQueueConfig config =
     (let port_config = cfg_port config; spi_config = cfg_spi config;
          injector_mode = pcap_enabled (cfg_pcap_injector config)
      in validate (\<not> injector_mode \<and> receive_queues port_config = 0) ReceiveQueuesZero (
         validate (\<not> injector_mode \<and> transmit_queues port_config = 0) TransmitQueuesZero (
         validate (worker_count spi_config = 0) WorkerCountZero (
         validate (\<not> IsSupportedPacketDistribution (packet_distribution spi_config)) PacketDistribution (
         validate (\<not> IsPowerOfTwo (dispatch_queue_size spi_config)) DispatchQueueSize (
         validate (dispatch_queue_size spi_config < ucast (worker_count spi_config))
           (WorkersExceedDispatch (worker_count spi_config) (dispatch_queue_size spi_config)) (
         validate (\<not> injector_mode \<and> packet_distribution spi_config = ''queue'' \<and>
                   receive_queues port_config < worker_count spi_config)
           (WorkersExceedReceive (worker_count spi_config) (receive_queues port_config)) (
         validate (\<not> injector_mode \<and> transmit_queues port_config < worker_count spi_config)
           (WorkersExceedTransmit (worker_count spi_config) (transmit_queues port_config)) (Inr ())))))))))"

definition ValidatePcapInjectorConfig :: "PcapInjectorConfig \<Rightarrow> ConfigError + unit" where
  "ValidatePcapInjectorConfig cfg =
     validate (pcap_enabled cfg \<and> pcap_file cfg = []) PcapFileEmpty (
     validate (inject_burst_size cfg = 0 \<or> 256 < inject_burst_size cfg)
       (PcapBurstSize (inject_burst_size cfg)) (Inr ()))"

text \<open>
  \<open>hardware_concurrency\<close> is what \<^verbatim>\<open>std::thread::hardware_concurrency()\<close> returns;
  \<^verbatim>\<open>std::size_t\<close> has 64 bits.
\<close>

definition ValidateTcpReassemblyConfig :: "TcpReassemblyConfig \<Rightarrow> ConfigError + unit" where
  "ValidateTcpReassemblyConfig t =
     validate (trc_enabled t \<and> trc_idle_timeout_sec t = 0) ReassemblyTimeout (
     validate (trc_enabled t \<and> trc_max_concurrent_streams t = 0) ReassemblyStreams (
     validate (trc_enabled t \<and> trc_max_buffered_bytes_per_direction t = 0) ReassemblyBytes (
     validate (trc_enabled t \<and> trc_max_out_of_order_segments t = 0) ReassemblySegments (
     validate (trc_enabled t \<and> trc_memory_budget_mb t = 0) ReassemblyBudget (Inr ())))))"

definition ValidateDpiLinks :: "DpdkConfig \<Rightarrow> ConfigError + unit" where
  "ValidateDpiLinks config =
     (let dpi_group_names = map dfc_filter_group (dpi_filters (cfg_dpi config))
      in validate_from (\<lambda>i g.
           if sgc_dpi_filter_group g = [] then Inr ()
           else validate (sgc_dpi_filter_group g \<notin> set dpi_group_names)
                  (UnresolvedDpiGroup i (sgc_name g) (sgc_dpi_filter_group g)) (Inr ()))
         0 (filter_groups (cfg_spi config)))"

definition ValidateConfig :: "inet_ops \<Rightarrow> nat \<Rightarrow> DpdkConfig \<Rightarrow> ConfigError + unit" where
  "ValidateConfig inet hardware_concurrency config =
     (let spi_config = cfg_spi config; sys_cpus = max 1 hardware_concurrency
      in propagate (ValidateL3ForwardConfig inet (cfg_l3_forward config)) (
         propagate (ValidateWorkerQueueConfig config) (
         propagate (ValidatePcapInjectorConfig (cfg_pcap_injector config)) (
         validate (filter_groups spi_config = []) NoFilterGroups (
         validate (spi_max_concurrent_flows spi_config = 0) MaxConcurrentFlows (
         validate (fragment_timeout_sec spi_config = 0) FragmentTimeout (
         propagate (ValidateTcpReassemblyConfig (tcp_reassembly spi_config)) (
         validate (\<not> IsSupportedFlowOverflowAction (flow_overflow_action spi_config))
           (FlowOverflowAction (flow_overflow_action spi_config)) (
         validate (max_compilation_threads spi_config = 0 \<or> sys_cpus < max_compilation_threads spi_config)
           (CompilationThreads (max_compilation_threads spi_config) sys_cpus) (
         validate (max_acl_build_threads spi_config = 0 \<or> sys_cpus < max_acl_build_threads spi_config)
           (AclBuildThreads (max_acl_build_threads spi_config) sys_cpus) (
         validate (\<not> IsSupportedAclClassifyAlgorithm (acl_classify_algorithm spi_config)) AclAlgorithm (
         validate ((2 ^ 64 - 1) div kBytesPerMiB < acl_build_max_size_mb spi_config) AclBuildMaxSize (
         propagate (validate_from (\<lambda>i g. ValidateFilterGroupConfig inet g i) 0 (filter_groups spi_config)) (
         propagate (ValidateDpiLinks config) (Inr ())))))))))))))))"

section \<open>Loading\<close>

text \<open>
  Reading a file into a structure: the glaze library, with the file system behind it. A
  rule store or a full configuration may be read from the same file.
\<close>

record config_reader =
  read_config_beve :: "string \<Rightarrow> DpdkConfig option"
  read_config_yaml :: "string \<Rightarrow> DpdkConfig option"
  read_store_beve :: "string \<Rightarrow> RuleStoreConfig option"
  read_store_yaml :: "string \<Rightarrow> RuleStoreConfig option"

definition is_binary_path :: "string \<Rightarrow> bool" where
  "is_binary_path path \<longleftrightarrow> suffix ''.beve'' path \<or> suffix ''.bin'' path"

definition store_of_config :: "DpdkConfig \<Rightarrow> RuleStoreConfig" where
  "store_of_config full_cfg =
     \<lparr>rs_filter_groups = filter_groups (cfg_spi full_cfg), rs_dpi = cfg_dpi full_cfg\<rparr>"

definition LoadRuleStore :: "config_reader \<Rightarrow> string \<Rightarrow> RuleStoreConfig option" where
  "LoadRuleStore reader path =
     (if is_binary_path path
      then (case read_store_beve reader path of Some store \<Rightarrow> Some store
            | None \<Rightarrow> map_option store_of_config (read_config_beve reader path))
      else (case read_store_yaml reader path of Some store \<Rightarrow> Some store
            | None \<Rightarrow> map_option store_of_config (read_config_yaml reader path)))"

definition ApplyRuleStore :: "RuleStoreConfig \<Rightarrow> DpdkConfig \<Rightarrow> DpdkConfig" where
  "ApplyRuleStore store config =
     (let config = (if rs_filter_groups store = [] then config
            else config\<lparr>cfg_spi := (cfg_spi config)\<lparr>filter_groups := rs_filter_groups store\<rparr>\<rparr>)
      in if dpi_enabled (rs_dpi store) \<or> dpi_filters (rs_dpi store) \<noteq> []
         then config\<lparr>cfg_dpi := rs_dpi store\<rparr> else config)"

definition LoadConfig ::
    "inet_ops \<Rightarrow> nat \<Rightarrow> config_reader \<Rightarrow> string \<Rightarrow> ConfigError + DpdkConfig" where
  "LoadConfig inet hardware_concurrency reader path =
     (case (if is_binary_path path then read_config_beve reader path else read_config_yaml reader path) of
        None \<Rightarrow> Inl (if is_binary_path path then ParseBeve path else ParseYaml path)
      | Some config \<Rightarrow>
          (case (if rule_path (cfg_spi config) = [] then Some config
                 else map_option (\<lambda>store. ApplyRuleStore store config)
                        (LoadRuleStore reader (rule_path (cfg_spi config)))) of
             None \<Rightarrow> Inl (RulePathFailed (rule_path (cfg_spi config)))
           | Some config \<Rightarrow>
               (case ValidateConfig inet hardware_concurrency config of
                  Inl e \<Rightarrow> Inl e | Inr _ \<Rightarrow> Inr config)))"

section \<open>What validation guarantees\<close>

lemmas validation_defs = ValidateConfig_def ValidateWorkerQueueConfig_def ValidateFilterGroupConfig_def
  ValidateFilterConfig_def ValidateDpiLinks_def Let_def

lemma ValidateConfig_groups:
  assumes "ValidateConfig inet n config = Inr u" and "g \<in> set (filter_groups (cfg_spi config))"
  shows "\<exists>i. ValidateFilterGroupConfig inet g i = Inr ()"
  using assms by (auto simp: ValidateConfig_def Let_def validate_from_ok in_set_conv_nth)

lemma ValidateFilterGroupConfig_filters:
  assumes "ValidateFilterGroupConfig inet g i = Inr u" and "f \<in> set (sgc_filters g)"
  shows "\<exists>fi. ValidateFilterConfig inet f i fi = Inr ()"
  using assms by (auto simp: ValidateFilterGroupConfig_def validate_from_ok in_set_conv_nth)

lemma ValidateConfig_dpi_links:
  assumes "ValidateConfig inet n config = Inr u" and "g \<in> set (filter_groups (cfg_spi config))"
    and "sgc_dpi_filter_group g \<noteq> []"
  shows "sgc_dpi_filter_group g \<in> dfc_filter_group ` set (dpi_filters (cfg_dpi config))"
  using assms
  by (auto simp: ValidateConfig_def ValidateDpiLinks_def Let_def validate_from_ok in_set_conv_nth)

lemma ValidateConfig_workers:
  assumes "ValidateConfig inet n config = Inr u"
  shows "worker_count (cfg_spi config) \<noteq> 0" and "IsPowerOfTwo (dispatch_queue_size (cfg_spi config))"
    and "ucast (worker_count (cfg_spi config)) \<le> dispatch_queue_size (cfg_spi config)"
  using assms by (auto simp: ValidateConfig_def ValidateWorkerQueueConfig_def Let_def)

end
