(* ===== verification/Packet_Parser.thy ===== *)
theory Packet_Parser
  imports Spi_Types
begin

text \<open>
  The packet parser (\<^verbatim>\<open>spi/spi_packet_parser.hpp\<close>, \<^verbatim>\<open>spi/spi_packet_parser.cpp\<close>): Ethernet, IPv4,
  IPv6, TCP and UDP headers, the hand-over of fragments to the reassembly table, and the
  hostname in a TLS ClientHello or an HTTP request. What DPDK provides (reading across
  segments, header length, fragment tests, reassembly) is the parameter \<open>pkt_ops\<close>. Indexing a
  span outside its bounds is the error \<open>OutOfRange\<close>. Offsets are natural numbers: none of the
  sums below reaches \<open>2^32\<close>, as every summand comes from an 8- or 16-bit field and the loops
  stop at the end of the data, which is at most 512 bytes.
\<close>

section \<open>Buffers\<close>

text \<open>A packet buffer: the bytes of its segments, the header lengths set for reassembly, the offload
  flags and the port it came from.\<close>

record Mbuf =
  mb_segments :: "bytes list"
  mb_l2_len :: u16
  mb_l3_len :: u16
  mb_ol_flags :: u64
  mb_port :: u16

definition nb_segs :: "Mbuf \<Rightarrow> nat" where
  "nb_segs m = length (mb_segments m)"

definition data_len :: "Mbuf \<Rightarrow> nat" where
  "data_len m = (case mb_segments m of [] \<Rightarrow> 0 | s # _ \<Rightarrow> length s)"

definition mtod :: "Mbuf \<Rightarrow> bytes" where
  "mtod m = (case mb_segments m of [] \<Rightarrow> [] | s # _ \<Rightarrow> s)"

definition pkt_bytes :: "Mbuf \<Rightarrow> bytes" where
  "pkt_bytes m = concat (mb_segments m)"

record Ipv4Hdr =
  ih_version_ihl :: byte
  ih_total_length :: u16
  ih_fragment_offset :: u16
  ih_next_proto_id :: byte
  ih_src_addr :: u32
  ih_dst_addr :: u32

record Ipv6Hdr =
  i6_payload_len :: u16
  i6_proto :: byte
  i6_src_addr :: bytes
  i6_dst_addr :: bytes

record TcpHdr =
  th_src_port :: u16
  th_dst_port :: u16
  th_sent_seq :: u32
  th_data_off :: byte
  th_tcp_flags :: byte

text \<open>The wire layout of the headers; multi-byte fields keep network order.\<close>

definition ether_type_of :: "bytes \<Rightarrow> u16" where
  "ether_type_of b = le_load (subspan 12 2 b)"

definition ipv4_hdr_of :: "bytes \<Rightarrow> Ipv4Hdr" where
  "ipv4_hdr_of b = \<lparr>ih_version_ihl = b ! 0, ih_total_length = le_load (subspan 2 2 b),
     ih_fragment_offset = le_load (subspan 6 2 b), ih_next_proto_id = b ! 9,
     ih_src_addr = le_load (subspan 12 4 b), ih_dst_addr = le_load (subspan 16 4 b)\<rparr>"

definition ipv6_hdr_of :: "bytes \<Rightarrow> Ipv6Hdr" where
  "ipv6_hdr_of b = \<lparr>i6_payload_len = le_load (subspan 4 2 b), i6_proto = b ! 6,
     i6_src_addr = subspan 8 16 b, i6_dst_addr = subspan 24 16 b\<rparr>"

definition tcp_hdr_of :: "bytes \<Rightarrow> TcpHdr" where
  "tcp_hdr_of b = \<lparr>th_src_port = le_load (subspan 0 2 b), th_dst_port = le_load (subspan 2 2 b),
     th_sent_seq = le_load (subspan 4 4 b), th_data_off = b ! 12, th_tcp_flags = b ! 13\<rparr>"

definition ether_hdr_size :: nat where "ether_hdr_size = 14"
definition ipv4_hdr_size :: nat where "ipv4_hdr_size = 20"
definition ipv6_hdr_size :: nat where "ipv6_hdr_size = 40"
definition ipv6_fragment_ext_size :: nat where "ipv6_fragment_ext_size = 8"
definition tcp_hdr_size :: nat where "tcp_hdr_size = 20"
definition udp_hdr_size :: nat where "udp_hdr_size = 8"

section \<open>Services of DPDK\<close>

record 'f pkt_ops =
  pktmbuf_read :: "Mbuf \<Rightarrow> nat \<Rightarrow> nat \<Rightarrow> bytes option"
  hdr_len_of :: "Ipv4Hdr \<Rightarrow> byte"
  pkt_is_fragmented :: "Ipv4Hdr \<Rightarrow> bool"
  ipv4_frag_reassemble :: "'f \<Rightarrow> Mbuf \<Rightarrow> u64 \<Rightarrow> 'f \<times> Mbuf option"
  ipv6_frag_reassemble :: "'f \<Rightarrow> Mbuf \<Rightarrow> u64 \<Rightarrow> 'f \<times> Mbuf option"

text \<open>
  Reading yields the requested bytes of the whole chain, or nothing if it is too short; the
  header length counts 32-bit words; a fragment has the more-fragments flag or an offset.
  Nothing is assumed of the reassembly table.
\<close>

definition pkt_contract :: "'f pkt_ops \<Rightarrow> bool" where
  "pkt_contract ops \<longleftrightarrow>
     (\<forall>m off n. pktmbuf_read ops m off n =
        (if off + n \<le> length (pkt_bytes m) then Some (subspan off n (pkt_bytes m)) else None)) \<and>
     (\<forall>h. hdr_len_of ops h = (ih_version_ihl h AND 0xF) * 4) \<and>
     (\<forall>h. pkt_is_fragmented ops h \<longleftrightarrow> rte_be_to_cpu_16 (ih_fragment_offset h) AND 0x3FFF \<noteq> 0)"

section \<open>Headers\<close>

definition ReadHeader :: "'f pkt_ops \<Rightarrow> Mbuf \<Rightarrow> nat \<Rightarrow> nat \<Rightarrow> bytes option" where
  "ReadHeader ops packet offset n = pktmbuf_read ops packet offset n"

definition ReadHeaderFast :: "'f pkt_ops \<Rightarrow> Mbuf \<Rightarrow> nat \<Rightarrow> nat \<Rightarrow> bytes option" where
  "ReadHeaderFast ops packet offset n =
     (if nb_segs packet \<noteq> 1 then ReadHeader ops packet offset n
      else if data_len packet < offset + n then None
      else Some (subspan offset n (mtod packet)))"

definition RTE_IPV4_HDR_OFFSET_MASK :: u16 where "RTE_IPV4_HDR_OFFSET_MASK = 0x1FFF"
definition RTE_IPV4_HDR_MF_FLAG :: u16 where "RTE_IPV4_HDR_MF_FLAG = 0x2000"

definition IsValidFragment :: "'f pkt_ops \<Rightarrow> Ipv4Hdr \<Rightarrow> bool" where
  "IsValidFragment ops ipv4_hdr =
     (let flag_offset = rte_be_to_cpu_16 (ih_fragment_offset ipv4_hdr);
          offset = (flag_offset AND RTE_IPV4_HDR_OFFSET_MASK) * 8;
          mf = flag_offset AND RTE_IPV4_HDR_MF_FLAG
      in if offset = 0 \<and> mf \<noteq> 0
         then let total_len = rte_be_to_cpu_16 (ih_total_length ipv4_hdr);
                  header_len = hdr_len_of ops ipv4_hdr
              in \<not> unat total_len < unat header_len + 8
         else True)"

text \<open>The four port bytes lead both transport headers; only their sizes differ.\<close>

definition ParseL4 :: "'f pkt_ops \<Rightarrow> nat \<Rightarrow> Mbuf \<Rightarrow> nat \<Rightarrow> Ipv4Hdr \<Rightarrow> Protocol \<Rightarrow> PacketMetadata option" where
  "ParseL4 ops l4_size packet l4_offset ipv4_hdr proto =
     (case ReadHeaderFast ops packet l4_offset l4_size of None \<Rightarrow> None
      | Some hdr \<Rightarrow> Some (default_metadata\<lparr>source_ip_be := ih_src_addr ipv4_hdr,
          destination_ip_be := ih_dst_addr ipv4_hdr, source_port_be := le_load (subspan 0 2 hdr),
          destination_port_be := le_load (subspan 2 2 hdr), protocol := proto, ip_version := kIpv4\<rparr>))"

definition ParseL4Ipv6 :: "'f pkt_ops \<Rightarrow> nat \<Rightarrow> Mbuf \<Rightarrow> nat \<Rightarrow> Ipv6Hdr \<Rightarrow> Protocol \<Rightarrow> PacketMetadata option" where
  "ParseL4Ipv6 ops l4_size packet l4_offset ipv6_hdr proto =
     (case ReadHeaderFast ops packet l4_offset l4_size of None \<Rightarrow> None
      | Some hdr \<Rightarrow> Some (default_metadata\<lparr>source_port_be := le_load (subspan 0 2 hdr),
          destination_port_be := le_load (subspan 2 2 hdr), protocol := proto, ip_version := kIpv6,
          source_ip6_address := i6_src_addr ipv6_hdr, destination_ip6_address := i6_dst_addr ipv6_hdr\<rparr>))"

definition PopulateTcpMetadata ::
    "'f pkt_ops \<Rightarrow> Mbuf \<Rightarrow> nat \<Rightarrow> nat \<Rightarrow> PacketMetadata \<Rightarrow> PacketMetadata option" where
  "PopulateTcpMetadata ops packet l4_offset l4_length metadata =
     (case ReadHeaderFast ops packet l4_offset tcp_hdr_size of None \<Rightarrow> None
      | Some b \<Rightarrow>
          let tcp_hdr = tcp_hdr_of b; tcp_header_length = unat (drop_bit 4 (th_data_off tcp_hdr)) * 4
          in if tcp_header_length < tcp_hdr_size \<or> l4_length < tcp_header_length then None
             else Some (metadata\<lparr>tcp_sequence := rte_be_to_cpu_32 (th_sent_seq tcp_hdr),
               tcp_payload_offset := of_nat (l4_offset + tcp_header_length),
               tcp_payload_length := of_nat (l4_length - tcp_header_length),
               tcp_flags := th_tcp_flags tcp_hdr\<rparr>))"

section \<open>Packets\<close>

datatype PacketParseStatus = kComplete | kWaitingForFragments | kMalformed

definition RTE_ETHER_TYPE_IPV4 :: u16 where "RTE_ETHER_TYPE_IPV4 = 0x0800"
definition RTE_ETHER_TYPE_IPV6 :: u16 where "RTE_ETHER_TYPE_IPV6 = 0x86DD"
definition IPPROTO_TCP :: byte where "IPPROTO_TCP = 6"
definition IPPROTO_UDP :: byte where "IPPROTO_UDP = 17"
definition IPPROTO_FRAGMENT :: byte where "IPPROTO_FRAGMENT = 44"

text \<open>
  The outcome: the fragment table, the buffer the caller now holds (none while the table
  keeps it), the status, whether a reassembled packet was substituted, and the metadata.
\<close>

record 'f ParseOutcome =
  po_frag_tbl :: "'f option"
  po_packet :: "Mbuf option"
  po_status :: PacketParseStatus
  po_was_reassembled :: bool
  po_metadata :: "PacketMetadata option"

definition outcome_of :: "'f option \<Rightarrow> Mbuf \<Rightarrow> bool \<Rightarrow> PacketMetadata option \<Rightarrow> 'f ParseOutcome" where
  "outcome_of tbl packet reassembled m = \<lparr>po_frag_tbl = tbl, po_packet = Some packet,
     po_status = (if m = None then kMalformed else kComplete), po_was_reassembled = reassembled, po_metadata = m\<rparr>"

definition waiting :: "'f \<Rightarrow> 'f ParseOutcome" where
  "waiting tbl = \<lparr>po_frag_tbl = Some tbl, po_packet = None, po_status = kWaitingForFragments,
     po_was_reassembled = False, po_metadata = None\<rparr>"

text \<open>The transport layer under IPv4, with the header length read before any reassembly.\<close>

definition parse_ipv4_l4 :: "'f pkt_ops \<Rightarrow> Mbuf \<Rightarrow> Ipv4Hdr \<Rightarrow> byte \<Rightarrow> PacketMetadata option" where
  "parse_ipv4_l4 ops packet ipv4_hdr header_len =
     (let l4_offset = ether_hdr_size + unat header_len in
      if ih_next_proto_id ipv4_hdr = IPPROTO_TCP
      then let total = unat (rte_be_to_cpu_16 (ih_total_length ipv4_hdr)) in
        (case ParseL4 ops tcp_hdr_size packet l4_offset ipv4_hdr kTcp of None \<Rightarrow> None
         | Some parsed \<Rightarrow> if total < unat header_len then None
             else PopulateTcpMetadata ops packet l4_offset (total - unat header_len) parsed)
      else if ih_next_proto_id ipv4_hdr = IPPROTO_UDP
      then ParseL4 ops udp_hdr_size packet l4_offset ipv4_hdr kUdp
      else None)"

definition parse_ipv4 :: "'f pkt_ops \<Rightarrow> 'f option \<Rightarrow> u64 \<Rightarrow> Mbuf \<Rightarrow> 'f ParseOutcome" where
  "parse_ipv4 ops frag_tbl tsc packet =
     (case ReadHeaderFast ops packet ether_hdr_size ipv4_hdr_size of
        None \<Rightarrow> outcome_of frag_tbl packet False None
      | Some b \<Rightarrow>
          let ipv4_hdr = ipv4_hdr_of b; header_len = hdr_len_of ops ipv4_hdr
          in if unat header_len < ipv4_hdr_size then outcome_of frag_tbl packet False None
             else if pkt_is_fragmented ops ipv4_hdr then
               if \<not> IsValidFragment ops ipv4_hdr then outcome_of frag_tbl packet False None
               else (case frag_tbl of
                 None \<Rightarrow> outcome_of None packet False (parse_ipv4_l4 ops packet ipv4_hdr header_len)
               | Some tbl \<Rightarrow>
                   if data_len packet < ether_hdr_size + unat header_len then outcome_of frag_tbl packet False None
                   else (case ipv4_frag_reassemble ops tbl
                           (packet\<lparr>mb_l2_len := of_nat ether_hdr_size, mb_l3_len := ucast header_len\<rparr>) tsc of
                       (tbl', None) \<Rightarrow> waiting tbl'
                     | (tbl', Some reassembled) \<Rightarrow>
                         outcome_of (Some tbl') reassembled True
                           (case ReadHeaderFast ops reassembled ether_hdr_size ipv4_hdr_size of None \<Rightarrow> None
                            | Some b' \<Rightarrow> parse_ipv4_l4 ops reassembled (ipv4_hdr_of b') header_len)))
             else outcome_of frag_tbl packet False (parse_ipv4_l4 ops packet ipv4_hdr header_len))"

definition parse_ipv6_l4 :: "'f pkt_ops \<Rightarrow> Mbuf \<Rightarrow> Ipv6Hdr \<Rightarrow> PacketMetadata option" where
  "parse_ipv6_l4 ops packet ipv6_hdr =
     (let l4_offset = ether_hdr_size + ipv6_hdr_size in
      if i6_proto ipv6_hdr = IPPROTO_TCP
      then (case ParseL4Ipv6 ops tcp_hdr_size packet l4_offset ipv6_hdr kTcp of None \<Rightarrow> None
            | Some parsed \<Rightarrow> PopulateTcpMetadata ops packet l4_offset
                (unat (rte_be_to_cpu_16 (i6_payload_len ipv6_hdr))) parsed)
      else if i6_proto ipv6_hdr = IPPROTO_UDP
      then ParseL4Ipv6 ops udp_hdr_size packet l4_offset ipv6_hdr kUdp
      else None)"

definition parse_ipv6 :: "'f pkt_ops \<Rightarrow> 'f option \<Rightarrow> u64 \<Rightarrow> Mbuf \<Rightarrow> 'f ParseOutcome" where
  "parse_ipv6 ops frag_tbl tsc packet =
     (case ReadHeaderFast ops packet ether_hdr_size ipv6_hdr_size of
        None \<Rightarrow> outcome_of frag_tbl packet False None
      | Some b \<Rightarrow>
          let ipv6_hdr = ipv6_hdr_of b; fragment_offset = ether_hdr_size + ipv6_hdr_size
          in if i6_proto ipv6_hdr = IPPROTO_FRAGMENT then
               (case ReadHeaderFast ops packet fragment_offset ipv6_fragment_ext_size of
                  None \<Rightarrow> outcome_of frag_tbl packet False None
                | Some _ \<Rightarrow>
                    (case frag_tbl of None \<Rightarrow> outcome_of None packet False None
                     | Some tbl \<Rightarrow>
                         if data_len packet < fragment_offset + ipv6_fragment_ext_size
                         then outcome_of frag_tbl packet False None
                         else (case ipv6_frag_reassemble ops tbl
                                 (packet\<lparr>mb_l2_len := of_nat ether_hdr_size, mb_l3_len := of_nat ipv6_hdr_size\<rparr>) tsc of
                             (tbl', None) \<Rightarrow> waiting tbl'
                           | (tbl', Some reassembled) \<Rightarrow>
                               outcome_of (Some tbl') reassembled True
                                 (case ReadHeaderFast ops reassembled ether_hdr_size ipv6_hdr_size of None \<Rightarrow> None
                                  | Some b' \<Rightarrow> parse_ipv6_l4 ops reassembled (ipv6_hdr_of b')))))
             else outcome_of frag_tbl packet False (parse_ipv6_l4 ops packet ipv6_hdr))"

definition ParsePacketOwned :: "'f pkt_ops \<Rightarrow> 'f option \<Rightarrow> u64 \<Rightarrow> Mbuf option \<Rightarrow> 'f ParseOutcome" where
  "ParsePacketOwned ops frag_tbl tsc packet =
     (case packet of
        None \<Rightarrow> \<lparr>po_frag_tbl = frag_tbl, po_packet = None, po_status = kMalformed,
                 po_was_reassembled = False, po_metadata = None\<rparr>
      | Some packet \<Rightarrow>
          (case ReadHeaderFast ops packet 0 ether_hdr_size of
             None \<Rightarrow> outcome_of frag_tbl packet False None
           | Some b \<Rightarrow>
               let ether_type = rte_be_to_cpu_16 (ether_type_of b)
               in if ether_type = RTE_ETHER_TYPE_IPV4 then parse_ipv4 ops frag_tbl tsc packet
                  else if ether_type = RTE_ETHER_TYPE_IPV6 then parse_ipv6 ops frag_tbl tsc packet
                  else outcome_of frag_tbl packet False None))"

definition ParsePacket :: "'f pkt_ops \<Rightarrow> 'f option \<Rightarrow> u64 \<Rightarrow> Mbuf \<Rightarrow> PacketMetadata option" where
  "ParsePacket ops frag_tbl tsc packet = po_metadata (ParsePacketOwned ops frag_tbl tsc (Some packet))"

section \<open>Hostnames\<close>

datatype AccessError = OutOfRange

text \<open>\<^verbatim>\<open>data[i]\<close> on a span.\<close>

definition span_at :: "bytes \<Rightarrow> nat \<Rightarrow> AccessError + byte" where
  "span_at data i = (if i < length data then Inr (data ! i) else Inl OutOfRange)"

definition and_then :: "AccessError + 'a \<Rightarrow> ('a \<Rightarrow> AccessError + 'b) \<Rightarrow> AccessError + 'b" where
  "and_then r f = (case r of Inl e \<Rightarrow> Inl e | Inr x \<Rightarrow> f x)"

definition ReadUint16Be :: "bytes \<Rightarrow> nat \<Rightarrow> AccessError + u16" where
  "ReadUint16Be data offset =
     and_then (span_at data offset) (\<lambda>hi. and_then (span_at data (offset + 1)) (\<lambda>lo.
       Inr (push_bit 8 (ucast hi) OR ucast lo)))"

definition ValidateTlsRecordHeader :: "bytes \<Rightarrow> AccessError + bool" where
  "ValidateTlsRecordHeader data =
     and_then (span_at data 0) (\<lambda>d0. if d0 \<noteq> 0x16 then Inr False
       else and_then (span_at data 1) (\<lambda>d1. if d1 < 0x03 then Inr False
         else and_then (if d1 = 0x03 then and_then (span_at data 2) (\<lambda>d2. Inr (d2 < 0x01)) else Inr False) (\<lambda>old.
           if old then Inr False
           else and_then (span_at data 5) (\<lambda>d5. Inr (d5 = 0x01)))))"

definition WalkClientHelloPreamble :: "bytes \<Rightarrow> AccessError + nat option" where
  "WalkClientHelloPreamble data =
     (let off = 43 in
      if length data \<le> off then Inr None
      else and_then (span_at data off) (\<lambda>session_id_len.
        let off = off + 1 + unat session_id_len in
        if length data < off + 2 then Inr None
        else and_then (ReadUint16Be data off) (\<lambda>cipher_len.
          let off = off + 2 + unat cipher_len in
          if length data < off + 1 then Inr None
          else and_then (span_at data off) (\<lambda>comp_len.
            let off = off + 1 + unat comp_len in
            if length data < off + 2 then Inr None else Inr (Some off)))))"

definition kSniHeaderLen :: nat where "kSniHeaderLen = 9"

text \<open>The loop over the extensions.\<close>

function sni_loop :: "bytes \<Rightarrow> nat \<Rightarrow> nat \<Rightarrow> AccessError + bytes option" where
  "sni_loop data ext_end ext_offset =
     (if ext_end < ext_offset + 4 then Inr None
      else and_then (ReadUint16Be data ext_offset) (\<lambda>ext_type.
        and_then (ReadUint16Be data (ext_offset + 2)) (\<lambda>ext_data_len.
          and_then
            (if ext_type = 0 \<and> ext_offset + kSniHeaderLen \<le> ext_end
             then and_then (ReadUint16Be data (ext_offset + 7)) (\<lambda>name_len.
               if ext_offset + kSniHeaderLen + unat name_len \<le> ext_end \<and> 0 < name_len
               then and_then (span_at data (ext_offset + kSniHeaderLen)) (\<lambda>_.
                 Inr (Some (subspan (ext_offset + kSniHeaderLen) (unat name_len) data)))
               else Inr None)
             else Inr None)
            (\<lambda>found. case found of Some name \<Rightarrow> Inr (Some name)
              | None \<Rightarrow> sni_loop data ext_end (ext_offset + 4 + unat ext_data_len)))))"
  by pat_completeness auto

termination
  by (relation "measure (\<lambda>(data, ext_end, ext_offset). ext_end - ext_offset)") auto

declare sni_loop.simps [simp del]

definition FindSniExtension :: "bytes \<Rightarrow> nat \<Rightarrow> AccessError + bytes option" where
  "FindSniExtension data ext_offset =
     and_then (ReadUint16Be data ext_offset) (\<lambda>ext_len.
       sni_loop data (min (ext_offset + 2 + unat ext_len) (length data)) (ext_offset + 2))"

text \<open>Both callers pass at least four bytes; shorter spans count as an access outside.\<close>

definition IsHttpMethodValid :: "bytes \<Rightarrow> AccessError + bool" where
  "IsHttpMethodValid data =
     (if 4 \<le> length data
      then Inr (take 4 data \<in> {ascii ''GET '', ascii ''POST'', ascii ''HEAD'', ascii ''PUT '', ascii ''DELE'',
                               ascii ''PATC'', ascii ''OPTI''})
      else Inl OutOfRange)"

definition carriage_return :: byte where "carriage_return = 13"
definition line_feed :: byte where "line_feed = 10"
definition space :: byte where "space = 32"

definition host_pattern :: bytes where
  "host_pattern = [carriage_return, line_feed] @ ascii ''Host:''"

text \<open>The value after the colon: spaces skipped, up to the next carriage return.\<close>

definition host_value :: "bytes \<Rightarrow> bytes" where
  "host_value rest = takeWhile (\<lambda>c. c \<noteq> carriage_return) (dropWhile (\<lambda>c. c = space) rest)"

function host_loop :: "bytes \<Rightarrow> nat \<Rightarrow> bytes option" where
  "host_loop data i =
     (if length data \<le> i + 7 then None
      else if subspan i 7 data \<noteq> host_pattern then host_loop data (i + 1)
      else let name = host_value (drop (i + 7) data)
           in if name \<noteq> [] then Some name else host_loop data (i + 1))"
  by pat_completeness auto

termination
  by (relation "measure (\<lambda>(data, i). length data - i)") auto

declare host_loop.simps [simp del]

definition FindHostHeaderValue :: "bytes \<Rightarrow> bytes option" where
  "FindHostHeaderValue data = host_loop data 4"

definition kMaxTlsInspect :: nat where "kMaxTlsInspect = 512"
definition kMinTlsRecord :: nat where "kMinTlsRecord = 5"
definition kMaxHttpInspect :: nat where "kMaxHttpInspect = 256"
definition kMinHttpLen :: nat where "kMinHttpLen = 4"

text \<open>On a contiguous byte stream.\<close>

definition ExtractTlsSni :: "bytes \<Rightarrow> AccessError + bytes option" where
  "ExtractTlsSni payload =
     (let data = take (min (length payload) kMaxTlsInspect) payload in
      if length data < kMinTlsRecord then Inr None
      else and_then (ValidateTlsRecordHeader data) (\<lambda>valid. if \<not> valid then Inr None
        else and_then (WalkClientHelloPreamble data) (\<lambda>ext_offset.
          case ext_offset of None \<Rightarrow> Inr None | Some off \<Rightarrow> FindSniExtension data off)))"

definition ExtractHttpHost :: "bytes \<Rightarrow> AccessError + bytes option" where
  "ExtractHttpHost payload =
     (let data = take (min (length payload) kMaxHttpInspect) payload in
      if length data < kMinHttpLen then Inr None
      else and_then (IsHttpMethodValid data) (\<lambda>valid. if \<not> valid then Inr None
        else Inr (FindHostHeaderValue data)))"

text \<open>
  On a packet. The number of bytes available is computed in 32 bits and wraps if the payload
  starts behind the first segment; the read then fails or succeeds on the whole chain.
\<close>

definition inspect_payload :: "'f pkt_ops \<Rightarrow> Mbuf \<Rightarrow> u32 \<Rightarrow> nat \<Rightarrow> nat \<Rightarrow> bytes option" where
  "inspect_payload ops packet tcp_payload_off max_inspect min_len =
     (let available = (of_nat (data_len packet) :: u32) - tcp_payload_off;
          len = min (unat available) max_inspect
      in if len < min_len then None else pktmbuf_read ops packet (unat tcp_payload_off) len)"

definition ExtractTlsSniPacket :: "'f pkt_ops \<Rightarrow> Mbuf \<Rightarrow> u32 \<Rightarrow> AccessError + bytes option" where
  "ExtractTlsSniPacket ops packet tcp_payload_off =
     (case inspect_payload ops packet tcp_payload_off kMaxTlsInspect kMinTlsRecord of None \<Rightarrow> Inr None
      | Some data \<Rightarrow> and_then (ValidateTlsRecordHeader data) (\<lambda>valid. if \<not> valid then Inr None
          else and_then (WalkClientHelloPreamble data) (\<lambda>ext_offset.
            case ext_offset of None \<Rightarrow> Inr None | Some off \<Rightarrow> FindSniExtension data off)))"

definition ExtractHttpHostPacket :: "'f pkt_ops \<Rightarrow> Mbuf \<Rightarrow> u32 \<Rightarrow> AccessError + bytes option" where
  "ExtractHttpHostPacket ops packet tcp_payload_off =
     (case inspect_payload ops packet tcp_payload_off kMaxHttpInspect kMinHttpLen of None \<Rightarrow> Inr None
      | Some data \<Rightarrow> and_then (IsHttpMethodValid data) (\<lambda>valid. if \<not> valid then Inr None
          else Inr (FindHostHeaderValue data)))"

end
