(* ===== verification/L3_Forward.thy ===== *)
theory L3_Forward
  imports Config Packet_Parser
begin

text \<open>
  Choosing the output port and rewriting headers (\<^verbatim>\<open>spi/spi_pipeline.cpp\<close>, the helpers before
  \<^verbatim>\<open>CollectStats\<close>): the route table, the table of destination MAC addresses, port pairing,
  and the header updates for layer 2 and layer 3 forwarding. The checksum routines of DPDK and its
  offload mask are the parameter \<open>cksum_ops\<close>. \<^verbatim>\<open>std::ranges::sort\<close> is the stable
  \<^term>\<open>sort_key\<close>; the order among routes of equal length is not specified, and no theorem
  depends on it.
\<close>

section \<open>Tables\<close>

record L3RouteEntry =
  network_address :: u32
  prefix_mask :: u32
  route_prefix_length :: u16
  route_output_port :: u16

record EthernetDestinationEntry =
  destination_port_id :: u16
  destination_mac :: bytes

definition kHexBase :: byte where "kHexBase = 10"

definition HexValue :: "char \<Rightarrow> byte" where
  "HexValue c =
     (let v = of_char c :: byte in
      if of_char (CHR ''0'') \<le> v \<and> v \<le> of_char (CHR ''9'') then v - of_char (CHR ''0'')
      else if of_char (CHR ''a'') \<le> v \<and> v \<le> of_char (CHR ''f'') then v - of_char (CHR ''a'') + kHexBase
      else v - of_char (CHR ''A'') + kHexBase)"

text \<open>Six pairs of digits, three characters apart; the text has been validated.\<close>

definition ParseMacAddress :: "string \<Rightarrow> bytes" where
  "ParseMacAddress mac_address =
     map (\<lambda>byte_index. let string_index = byte_index * 3;
              high_nibble = HexValue (mac_address ! string_index);
              low_nibble = HexValue (mac_address ! (string_index + 1))
            in push_bit 4 high_nibble OR low_nibble) [0..<6]"

definition route_of_config :: "inet_ops \<Rightarrow> Ipv4Route \<Rightarrow> L3RouteEntry option" where
  "route_of_config inet route =
     (case ParseIpv4Address inet (r4_destination_ip_address route) of Inl e \<Rightarrow> None
      | Inr parsed_address \<Rightarrow>
          let mask = PrefixMask (r4_prefix_length route) in
          Some \<lparr>network_address = parsed_address AND mask, prefix_mask = mask,
                route_prefix_length = r4_prefix_length route, route_output_port = r4_output_port route\<rparr>)"

text \<open>Longest prefixes first.\<close>

definition BuildL3Routes :: "inet_ops \<Rightarrow> L3ForwardConfig \<Rightarrow> L3RouteEntry list" where
  "BuildL3Routes inet config =
     sort_key (\<lambda>r. - int (unat (route_prefix_length r))) (List.map_filter (route_of_config inet) (ipv4_routes config))"

definition BuildEthernetDestinations :: "L3ForwardConfig \<Rightarrow> EthernetDestinationEntry list" where
  "BuildEthernetDestinations config =
     map (\<lambda>d. \<lparr>destination_port_id = ed_port_id d, destination_mac = ParseMacAddress (ed_mac_address d)\<rparr>)
       (ethernet_destinations config)"

section \<open>Output ports\<close>

definition GetTransmitPort :: "u16 list \<Rightarrow> u16 \<Rightarrow> u16" where
  "GetTransmitPort active_ports receive_port =
     (if length active_ports \<le> 1 then receive_port
      else let port_index = length (takeWhile (\<lambda>p. p \<noteq> receive_port) active_ports) in
        if port_index = length active_ports then receive_port
        else if even port_index \<and> port_index + 1 < length active_ports then active_ports ! (port_index + 1)
        else if odd port_index then active_ports ! (port_index - 1)
        else receive_port)"

fun LookupL3TransmitPort :: "L3RouteEntry list \<Rightarrow> PacketMetadata \<Rightarrow> u16 option" where
  "LookupL3TransmitPort [] metadata = None"
| "LookupL3TransmitPort (route # routes) metadata =
     (if rte_be_to_cpu_32 (destination_ip_be metadata) AND prefix_mask route = network_address route
      then Some (route_output_port route) else LookupL3TransmitPort routes metadata)"

fun GetEthernetDestination :: "EthernetDestinationEntry list \<Rightarrow> u16 \<Rightarrow> bytes option" where
  "GetEthernetDestination [] port_id = None"
| "GetEthernetDestination (d # destinations) port_id =
     (if destination_port_id d = port_id then Some (destination_mac d) else GetEthernetDestination destinations port_id)"

section \<open>Headers\<close>

text \<open>Overwriting bytes of the first segment; bytes behind its end are no packet data.\<close>

definition overwrite :: "nat \<Rightarrow> bytes \<Rightarrow> bytes \<Rightarrow> bytes" where
  "overwrite off new old = take (length old) (take off old @ new @ drop (off + length new) old)"

definition write_at :: "nat \<Rightarrow> bytes \<Rightarrow> Mbuf \<Rightarrow> Mbuf" where
  "write_at off new m = (case mb_segments m of [] \<Rightarrow> m
     | s # segs \<Rightarrow> m\<lparr>mb_segments := overwrite off new s # segs\<rparr>)"

definition kLocalAdminMacPrefix :: byte where "kLocalAdminMacPrefix = 0x02"

definition UpdateL2ForwardMacs :: "Mbuf \<Rightarrow> bytes \<Rightarrow> u16 \<Rightarrow> Mbuf" where
  "UpdateL2ForwardMacs packet src_addr transmit_port =
     (let dst_addr = [kLocalAdminMacPrefix, 0, 0, 0, 0, ucast transmit_port]
      in write_at 6 src_addr (write_at 0 dst_addr packet))"

record cksum_ops =
  tx_offload_mask :: u64
  ipv4_cksum :: "bytes \<Rightarrow> u16"
  ipv4_udptcp_cksum_mbuf :: "Mbuf \<Rightarrow> Ipv4Hdr \<Rightarrow> nat \<Rightarrow> u16"

text \<open>The checksum is at offset 16 of a TCP header and at offset 6 of a UDP header.\<close>

definition RecomputeL4Checksum :: "'f pkt_ops \<Rightarrow> cksum_ops \<Rightarrow> Mbuf \<Rightarrow> Ipv4Hdr \<Rightarrow> bool \<times> Mbuf" where
  "RecomputeL4Checksum ops ck packet ipv4_hdr =
     (let l4_offset = ether_hdr_size + unat (hdr_len_of ops ipv4_hdr);
          packet = packet\<lparr>mb_ol_flags := mb_ol_flags packet AND NOT (tx_offload_mask ck)\<rparr>;
          recompute = (\<lambda>off. let cleared = write_at off (le_bytes16 0) packet
             in write_at off (le_bytes16 (ipv4_udptcp_cksum_mbuf ck cleared ipv4_hdr l4_offset)) cleared)
      in if ih_next_proto_id ipv4_hdr = IPPROTO_TCP
         then if data_len packet < l4_offset + tcp_hdr_size then (False, packet)
              else (True, recompute (l4_offset + 16))
         else if ih_next_proto_id ipv4_hdr = IPPROTO_UDP
         then if data_len packet < l4_offset + udp_hdr_size then (False, packet)
              else (True, recompute (l4_offset + 6))
         else (True, packet))"

text \<open>
  The IPv4 header is read and written through a pointer into the first segment; a first
  segment that ends before it is an access outside. The time to live is at offset 8 of the header,
  the checksum at offset 10.
\<close>

definition UpdateL3ForwardHeaders ::
    "'f pkt_ops \<Rightarrow> cksum_ops \<Rightarrow> Mbuf \<Rightarrow> bytes \<Rightarrow> bytes \<Rightarrow> AccessError + (bool \<times> Mbuf)" where
  "UpdateL3ForwardHeaders ops ck packet src_addr dst_addr =
     (let packet = write_at 6 src_addr (write_at 0 dst_addr packet) in
      if data_len packet < ether_hdr_size + ipv4_hdr_size then Inl OutOfRange
      else let time_to_live = mtod packet ! (ether_hdr_size + 8) in
        if time_to_live \<le> 1 then Inr (False, packet)
        else let packet = write_at (ether_hdr_size + 8) [time_to_live - 1] packet;
                 packet = write_at (ether_hdr_size + 10) (le_bytes16 0) packet;
                 packet = write_at (ether_hdr_size + 10) (le_bytes16 (ipv4_cksum ck (drop ether_hdr_size (mtod packet)))) packet;
                 ipv4_hdr = ipv4_hdr_of (subspan ether_hdr_size ipv4_hdr_size (mtod packet))
             in Inr (RecomputeL4Checksum ops ck packet ipv4_hdr))"

end
