(* ===== verification/Environment.thy ===== *)
theory Environment
  imports Config
begin

text \<open>
  The DPDK environment (\<^verbatim>\<open>dpdk_environment.hpp\<close>, \<^verbatim>\<open>dpdk_environment.cpp\<close>): EAL arguments,
  the port mask, start-up of the ports and the queries about them that the pipeline uses. The
  device functions of DPDK are the parameter \<open>eth_ops\<close>; every one of them may fail at every
  call, and nothing is assumed of them. The memory pool is represented by whether it was created.
\<close>

section \<open>Devices\<close>

record DevInfo =
  di_driver_name :: "string option"
  di_rss_offloads :: u64
  di_max_rx_queues :: u16
  di_max_tx_queues :: u16
  di_tx_offload_capa :: u64

record EthConf =
  ec_mq_mode_rss :: bool
  ec_rss_hf :: u64
  ec_rx_offloads :: u64
  ec_tx_offloads :: u64

definition default_port_conf :: EthConf where
  "default_port_conf = \<lparr>ec_mq_mode_rss = False, ec_rss_hf = 0, ec_rx_offloads = 0, ec_tx_offloads = 0\<rparr>"

text \<open>
  Return codes are integers as in C. \<open>link_get\<close> is asked at the given poll and gives the code
  and whether the link is up.
\<close>

record eth_ops =
  eal_init :: "string list \<Rightarrow> int"
  dev_count_avail :: u16
  pktmbuf_pool_create :: "string \<Rightarrow> u32 \<Rightarrow> u32 \<Rightarrow> u32 \<Rightarrow> bool"
  dev_info_get :: "u16 \<Rightarrow> int \<times> DevInfo"
  dev_configure :: "u16 \<Rightarrow> u16 \<Rightarrow> u16 \<Rightarrow> EthConf \<Rightarrow> int"
  adjust_nb_rx_tx_desc :: "u16 \<Rightarrow> u16 \<Rightarrow> u16 \<Rightarrow> int \<times> u16 \<times> u16"
  macaddr_get :: "u16 \<Rightarrow> int \<times> bytes"
  rx_queue_setup :: "u16 \<Rightarrow> u16 \<Rightarrow> u16 \<Rightarrow> u64 \<Rightarrow> int"
  tx_queue_setup :: "u16 \<Rightarrow> u16 \<Rightarrow> u16 \<Rightarrow> u64 \<Rightarrow> int"
  dev_start :: "u16 \<Rightarrow> int"
  promiscuous_enable :: "u16 \<Rightarrow> int"
  link_get :: "nat \<Rightarrow> u16 \<Rightarrow> int \<times> bool"
  fast_free_flag :: u64
  kDefaultRssHash :: u64

datatype DpdkError =
  CallFailed string int
| NoEthernetPorts
| PoolCreateFailed string
| NoPortsAfterMask
| InvalidPortMask string
| PortMaskExceeds u32 u32
| ReceiveQueuesExceed u16 u16 u16
| TransmitQueuesExceed u16 u16 u16

record PortRuntimeInfo =
  pri_driver_name :: string
  pri_rss_offloads :: u64
  pri_software_backed :: bool

definition empty_runtime_info :: PortRuntimeInfo where
  "empty_runtime_info = \<lparr>pri_driver_name = [], pri_rss_offloads = 0, pri_software_backed = False\<rparr>"

record Environment =
  env_config :: DpdkConfig
  env_initialized :: bool
  env_skip_ports :: bool
  env_pool_created :: bool
  env_port_count :: u16
  env_active_ports :: "u16 list"
  env_port_mac_addrs :: "bytes list"
  env_port_runtime_infos :: "PortRuntimeInfo list"

definition make_Environment :: "DpdkConfig \<Rightarrow> Environment" where
  "make_Environment config = \<lparr>env_config = config, env_initialized = False, env_skip_ports = False,
     env_pool_created = False, env_port_count = 0, env_active_ports = [], env_port_mac_addrs = [],
     env_port_runtime_infos = []\<rparr>"

section \<open>Helpers\<close>

definition CheckNegativeResult :: "int \<Rightarrow> string \<Rightarrow> DpdkError + unit" where
  "CheckNegativeResult dpdk_result function_name =
     (if dpdk_result < 0 then Inl (CallFailed function_name dpdk_result) else Inr ())"

definition CheckNonZeroResult :: "int \<Rightarrow> string \<Rightarrow> DpdkError + unit" where
  "CheckNonZeroResult dpdk_result function_name =
     (if dpdk_result \<noteq> 0 then Inl (CallFailed function_name dpdk_result) else Inr ())"

text \<open>\<^verbatim>\<open>std::to_string\<close>.\<close>

definition to_string :: "int \<Rightarrow> string" where
  "to_string n = (if n < 0 then CHR ''-'' # decimal (nat (- n)) else decimal (nat n))"

definition BuildEalArgs :: "EalConfig \<Rightarrow> string list" where
  "BuildEalArgs eal =
     [''dpdk_app'', ''-l'', cpu_core_list eal, ''-n'', to_string (memory_channels eal)] @
     (if disable_hugepages eal then [''--no-huge''] else []) @
     (if memory_size eal \<noteq> [] then [''-m'', memory_size eal] else []) @
     (if legacy_memory eal then [''--legacy-mem''] else []) @
     (if disable_pci eal then [''--no-pci''] else []) @
     concat (map (\<lambda>vdev. [''--vdev'', vdev]) (virtual_devices eal)) @
     (if process_type eal \<noteq> ''primary'' then [''--proc-type'', process_type eal] else []) @
     (if eal_file_prefix eal \<noteq> [] then [''--file-prefix'', eal_file_prefix eal] else []) @
     (if log_level eal \<noteq> ''7'' then [''--log-level'', log_level eal] else [])"

text \<open>A mask that does not fit 64 bits saturates; the conversion keeps the lower 32 bits.\<close>

definition ParsePortMask :: "string \<Rightarrow> u32 option" where
  "ParsePortMask m =
     (if m = [] then None
      else case strtoul16 m of None \<Rightarrow> None
        | Some (val, rest) \<Rightarrow>
            if rest \<noteq> [] then None else Some (case val of None \<Rightarrow> - 1 | Some v \<Rightarrow> ucast v))"

definition kSoftwareBackedDriverPrefixes :: "string list" where
  "kSoftwareBackedDriverPrefixes = [''net_af_packet'', ''net_pcap'', ''net_tap'', ''net_ring'', ''net_memif'',
     ''net_vhost'', ''net_virtio'', ''net_vmxnet3'', ''net_null'', ''net_softnic'', ''net_af_xdp'']"

definition starts_with :: "string \<Rightarrow> string \<Rightarrow> bool" where
  "starts_with s p \<longleftrightarrow> take (length p) s = p"

definition IsSoftwareBackedDriver :: "string \<Rightarrow> bool" where
  "IsSoftwareBackedDriver driver_name = list_ex (starts_with driver_name) kSoftwareBackedDriverPrefixes"

section \<open>Start-up\<close>

definition InitEal :: "eth_ops \<Rightarrow> Environment \<Rightarrow> Environment \<times> (DpdkError + unit)" where
  "InitEal ops env =
     (case CheckNegativeResult (eal_init ops (BuildEalArgs (cfg_eal (env_config env)))) ''rte_eal_init'' of
        Inl e \<Rightarrow> (env, Inl e)
      | Inr _ \<Rightarrow>
          let env = env\<lparr>env_port_count := dev_count_avail ops\<rparr> in
          if env_port_count env = 0 \<and> \<not> env_skip_ports env then (env, Inl NoEthernetPorts)
          else let env = (if env_skip_ports env
                          then env\<lparr>env_port_count := 1, env_active_ports := env_active_ports env @ [0]\<rparr> else env);
                   n = unat (env_port_count env)
               in (env\<lparr>env_port_mac_addrs := take n (env_port_mac_addrs env @ replicate n (replicate 6 0)),
                       env_port_runtime_infos := take n (env_port_runtime_infos env @ replicate n empty_runtime_info)\<rparr>,
                   Inr ()))"

definition CreateMempool :: "eth_ops \<Rightarrow> Environment \<Rightarrow> Environment \<times> (DpdkError + unit)" where
  "CreateMempool ops env =
     (let pool = cfg_mempool (env_config env);
          num_mbufs = of_nat (max (memory_buffer_count pool) (unat (env_port_count env) * 1024));
          created = pktmbuf_pool_create ops (mp_name pool) num_mbufs (of_nat (cache_size pool))
                      (of_nat (memory_buffer_size pool));
          env = env\<lparr>env_pool_created := created\<rparr>
      in (env, if created then Inr () else Inl (PoolCreateFailed (mp_name pool))))"

text \<open>\<^verbatim>\<open>1U << port_count_\<close> is defined for fewer than 32 ports.\<close>

definition ValidatePortMask :: "Environment \<Rightarrow> DpdkError + u32" where
  "ValidatePortMask env =
     (let text = port_bitmask (cfg_port (env_config env)) in
      case ParsePortMask text of None \<Rightarrow> Inl (InvalidPortMask text)
      | Some port_mask \<Rightarrow>
          let available = push_bit (unat (env_port_count env)) 1 - 1 in
          if port_mask AND NOT available \<noteq> 0 then Inl (PortMaskExceeds port_mask available) else Inr port_mask)"

definition QueryDeviceInfo :: "eth_ops \<Rightarrow> u16 \<Rightarrow> DpdkError + DevInfo" where
  "QueryDeviceInfo ops port_id =
     (let (ret, info) = dev_info_get ops port_id in
      case CheckNonZeroResult ret ''rte_eth_dev_info_get'' of Inl e \<Rightarrow> Inl e | Inr _ \<Rightarrow> Inr info)"

definition StoreRuntimeInfo :: "u16 \<Rightarrow> DevInfo \<Rightarrow> Environment \<Rightarrow> Environment" where
  "StoreRuntimeInfo port_id dev_info env =
     (let driver_name = (case di_driver_name dev_info of None \<Rightarrow> [] | Some s \<Rightarrow> s) in
      env\<lparr>env_port_runtime_infos := (env_port_runtime_infos env)[unat port_id :=
        \<lparr>pri_driver_name = driver_name, pri_rss_offloads = di_rss_offloads dev_info,
         pri_software_backed = IsSoftwareBackedDriver driver_name\<rparr>]\<rparr>)"

definition ValidateQueueCounts :: "u16 \<Rightarrow> PortConfig \<Rightarrow> DevInfo \<Rightarrow> DpdkError + unit" where
  "ValidateQueueCounts port_id port_config dev_info =
     (if di_max_rx_queues dev_info < receive_queues port_config
      then Inl (ReceiveQueuesExceed port_id (receive_queues port_config) (di_max_rx_queues dev_info))
      else if di_max_tx_queues dev_info < transmit_queues port_config
      then Inl (TransmitQueuesExceed port_id (transmit_queues port_config) (di_max_tx_queues dev_info))
      else Inr ())"

definition BuildPortConf :: "eth_ops \<Rightarrow> PortConfig \<Rightarrow> DevInfo \<Rightarrow> EthConf" where
  "BuildPortConf ops port_config dev_info =
     (let port_conf = default_port_conf;
          port_conf = (if di_tx_offload_capa dev_info AND fast_free_flag ops \<noteq> 0
                       then port_conf\<lparr>ec_tx_offloads := ec_tx_offloads port_conf OR fast_free_flag ops\<rparr> else port_conf);
          rss_hf = kDefaultRssHash ops AND di_rss_offloads dev_info
      in if 1 < receive_queues port_config \<and> rss_hf \<noteq> 0
         then port_conf\<lparr>ec_mq_mode_rss := True, ec_rss_hf := rss_hf\<rparr> else port_conf)"

definition ApplyConfiguration ::
    "eth_ops \<Rightarrow> u16 \<Rightarrow> PortConfig \<Rightarrow> EthConf \<Rightarrow> DpdkError + (u16 \<times> u16)" where
  "ApplyConfiguration ops port_id port_config port_conf =
     (case CheckNegativeResult (dev_configure ops port_id (receive_queues port_config) (transmit_queues port_config)
             port_conf) ''rte_eth_dev_configure'' of
        Inl e \<Rightarrow> Inl e
      | Inr _ \<Rightarrow>
          (case adjust_nb_rx_tx_desc ops port_id (receive_descriptors port_config) (transmit_descriptors port_config) of
             (ret, descriptors) \<Rightarrow>
               (case CheckNegativeResult ret ''rte_eth_dev_adjust_nb_rx_tx_desc'' of
                  Inl e \<Rightarrow> Inl e | Inr _ \<Rightarrow> Inr descriptors)))"

definition RetrieveMacAddress :: "eth_ops \<Rightarrow> u16 \<Rightarrow> Environment \<Rightarrow> Environment \<times> (DpdkError + unit)" where
  "RetrieveMacAddress ops port_id env =
     (let (ret, mac_addr) = macaddr_get ops port_id in
      case CheckNegativeResult ret ''rte_eth_macaddr_get'' of Inl e \<Rightarrow> (env, Inl e)
      | Inr _ \<Rightarrow> (env\<lparr>env_port_mac_addrs := (env_port_mac_addrs env)[unat port_id := mac_addr]\<rparr>, Inr ()))"

text \<open>The configuration of a port with its receive and transmit descriptors.\<close>

definition ConfigurePort ::
    "eth_ops \<Rightarrow> u16 \<Rightarrow> PortConfig \<Rightarrow> Environment \<Rightarrow> Environment \<times> (DpdkError + EthConf \<times> u16 \<times> u16)" where
  "ConfigurePort ops port_id port_config env =
     (case QueryDeviceInfo ops port_id of Inl e \<Rightarrow> (env, Inl e)
      | Inr dev_info \<Rightarrow>
          let env = StoreRuntimeInfo port_id dev_info env in
          (case ValidateQueueCounts port_id port_config dev_info of Inl e \<Rightarrow> (env, Inl e)
           | Inr _ \<Rightarrow>
               let local_port_conf = BuildPortConf ops port_config dev_info in
               (case ApplyConfiguration ops port_id port_config local_port_conf of Inl e \<Rightarrow> (env, Inl e)
                | Inr descriptors \<Rightarrow>
                    (case RetrieveMacAddress ops port_id env of (env, Inl e) \<Rightarrow> (env, Inl e)
                     | (env, Inr _) \<Rightarrow> (env, Inr (local_port_conf, descriptors))))))"

text \<open>Queues are set up one after the other until one fails.\<close>

fun first_failure :: "('q \<Rightarrow> DpdkError + unit) \<Rightarrow> 'q list \<Rightarrow> DpdkError + unit" where
  "first_failure setup [] = Inr ()"
| "first_failure setup (q # qs) = (case setup q of Inl e \<Rightarrow> Inl e | Inr _ \<Rightarrow> first_failure setup qs)"

definition SetupReceiveQueues :: "eth_ops \<Rightarrow> u16 \<Rightarrow> EthConf \<Rightarrow> u16 \<Rightarrow> Environment \<Rightarrow> DpdkError + unit" where
  "SetupReceiveQueues ops port_id port_conf receive_desc env =
     first_failure (\<lambda>queue_id. CheckNegativeResult
         (rx_queue_setup ops port_id (of_nat queue_id) receive_desc (ec_rx_offloads port_conf)) ''rte_eth_rx_queue_setup'')
       [0..<unat (receive_queues (cfg_port (env_config env)))]"

definition SetupTransmitQueues :: "eth_ops \<Rightarrow> u16 \<Rightarrow> EthConf \<Rightarrow> u16 \<Rightarrow> Environment \<Rightarrow> DpdkError + unit" where
  "SetupTransmitQueues ops port_id port_conf transmit_desc env =
     first_failure (\<lambda>queue_id. CheckNegativeResult
         (tx_queue_setup ops port_id (of_nat queue_id) transmit_desc (ec_tx_offloads port_conf)) ''rte_eth_tx_queue_setup'')
       [0..<unat (transmit_queues (cfg_port (env_config env)))]"

definition SetupPort :: "eth_ops \<Rightarrow> u16 \<Rightarrow> Environment \<Rightarrow> Environment \<times> (DpdkError + unit)" where
  "SetupPort ops port_id env =
     (let port_config = cfg_port (env_config env) in
      case ConfigurePort ops port_id port_config env of (env, Inl e) \<Rightarrow> (env, Inl e)
      | (env, Inr (port_conf, receive_desc, transmit_desc)) \<Rightarrow>
          (case SetupReceiveQueues ops port_id port_conf receive_desc env of Inl e \<Rightarrow> (env, Inl e)
           | Inr _ \<Rightarrow>
             (case SetupTransmitQueues ops port_id port_conf transmit_desc env of Inl e \<Rightarrow> (env, Inl e)
              | Inr _ \<Rightarrow>
                (case CheckNegativeResult (dev_start ops port_id) ''rte_eth_dev_start'' of Inl e \<Rightarrow> (env, Inl e)
                 | Inr _ \<Rightarrow>
                   (case (if promiscuous port_config
                          then CheckNonZeroResult (promiscuous_enable ops port_id) ''rte_eth_promiscuous_enable''
                          else Inr ()) of Inl e \<Rightarrow> (env, Inl e)
                    | Inr _ \<Rightarrow> (env\<lparr>env_active_ports := env_active_ports env @ [port_id]\<rparr>, Inr ()))))))"

fun setup_ports :: "eth_ops \<Rightarrow> u32 \<Rightarrow> u16 list \<Rightarrow> nat \<Rightarrow> Environment \<Rightarrow> Environment \<times> (DpdkError + nat)" where
  "setup_ports ops port_mask [] nb_ports_available env = (env, Inr nb_ports_available)"
| "setup_ports ops port_mask (port_id # port_ids) nb_ports_available env =
     (if port_mask AND push_bit (unat port_id) 1 = 0
      then setup_ports ops port_mask port_ids nb_ports_available env
      else case SetupPort ops port_id env of (env, Inl e) \<Rightarrow> (env, Inl e)
           | (env, Inr _) \<Rightarrow> setup_ports ops port_mask port_ids (nb_ports_available + 1) env)"

definition SetupPorts :: "eth_ops \<Rightarrow> Environment \<Rightarrow> Environment \<times> (DpdkError + unit)" where
  "SetupPorts ops env =
     (case ValidatePortMask env of Inl e \<Rightarrow> (env, Inl e)
      | Inr port_mask \<Rightarrow>
          (case setup_ports ops port_mask (map of_nat [0..<unat (env_port_count env)]) 0 env of
             (env, Inl e) \<Rightarrow> (env, Inl e)
           | (env, Inr nb_ports_available) \<Rightarrow>
               (env, if nb_ports_available = 0 then Inl NoPortsAfterMask else Inr ())))"

text \<open>
  Polling the links: at most \<^verbatim>\<open>link_check_max_count + 1\<close> polls; when time runs out the code
  goes on all the same. The result is the number of polls that found a link down.
\<close>

definition all_ports_up :: "eth_ops \<Rightarrow> Environment \<Rightarrow> nat \<Rightarrow> bool" where
  "all_ports_up ops env count = list_all (\<lambda>port_id. case link_get ops count port_id of (ret, up) \<Rightarrow> 0 \<le> ret \<and> up)
     (env_active_ports env)"

definition CheckLinkStatus :: "eth_ops \<Rightarrow> Environment \<Rightarrow> (DpdkError + unit) \<times> nat" where
  "CheckLinkStatus ops env =
     (let polls = [0..<nat (link_check_max_count (cfg_port (env_config env)) + 1)]
      in (Inr (), length (takeWhile (\<lambda>count. \<not> all_ports_up ops env count) polls)))"

definition init :: "eth_ops \<Rightarrow> Environment \<Rightarrow> Environment \<times> (DpdkError + unit)" where
  "init ops env =
     (if env_initialized env then (env, Inr ())
      else let env = env\<lparr>env_skip_ports := pcap_enabled (cfg_pcap_injector (env_config env))\<rparr> in
        case InitEal ops env of (env, Inl e) \<Rightarrow> (env, Inl e)
        | (env, Inr _) \<Rightarrow>
            (case CreateMempool ops env of (env, Inl e) \<Rightarrow> (env, Inl e)
             | (env, Inr _) \<Rightarrow>
                 if env_skip_ports env then (env\<lparr>env_initialized := True\<rparr>, Inr ())
                 else (case SetupPorts ops env of (env, Inl e) \<Rightarrow> (env, Inl e)
                       | (env, Inr _) \<Rightarrow>
                           (case CheckLinkStatus ops env of (Inl e, _) \<Rightarrow> (env, Inl e)
                            | (Inr _, _) \<Rightarrow> (env\<lparr>env_initialized := True\<rparr>, Inr ())))))"

definition Cleanup :: "Environment \<Rightarrow> Environment" where
  "Cleanup env = env\<lparr>env_initialized := False\<rparr>"

definition destroy_Environment :: "Environment \<Rightarrow> Environment" where
  "destroy_Environment env = (if env_initialized env then Cleanup env else env)"

section \<open>Queries\<close>

definition GetPortMacAddress :: "Environment \<Rightarrow> u16 \<Rightarrow> bytes option" where
  "GetPortMacAddress env port_id =
     (if length (env_port_mac_addrs env) \<le> unat port_id then None else Some (env_port_mac_addrs env ! unat port_id))"

definition runtime_info_satisfies :: "(PortRuntimeInfo \<Rightarrow> bool) \<Rightarrow> Environment \<Rightarrow> u16 \<Rightarrow> bool" where
  "runtime_info_satisfies P env port_id \<longleftrightarrow> unat port_id < length (env_port_runtime_infos env) \<and>
     P (env_port_runtime_infos env ! unat port_id)"

definition HasSoftwareBackedPort :: "Environment \<Rightarrow> bool" where
  "HasSoftwareBackedPort env = list_ex (runtime_info_satisfies pri_software_backed env) (env_active_ports env)"

definition ActivePortsSupportRss :: "Environment \<Rightarrow> bool" where
  "ActivePortsSupportRss env =
     list_all (runtime_info_satisfies (\<lambda>info. pri_rss_offloads info \<noteq> 0) env) (env_active_ports env)"

definition HasPcapPort :: "Environment \<Rightarrow> bool" where
  "HasPcapPort env =
     list_ex (runtime_info_satisfies (\<lambda>info. starts_with (pri_driver_name info) ''net_pcap'') env) (env_active_ports env)"

definition GetPortDriverName :: "Environment \<Rightarrow> u16 \<Rightarrow> string" where
  "GetPortDriverName env port_id =
     (if length (env_port_runtime_infos env) \<le> unat port_id then []
      else pri_driver_name (env_port_runtime_infos env ! unat port_id))"

definition GetReceiveQueueCount :: "Environment \<Rightarrow> u16" where
  "GetReceiveQueueCount env = receive_queues (cfg_port (env_config env))"

definition GetTransmitQueueCount :: "Environment \<Rightarrow> u16" where
  "GetTransmitQueueCount env = transmit_queues (cfg_port (env_config env))"

section \<open>Ports after start-up\<close>

text \<open>Setting up a port keeps everything but the tables and, on success, the list of active ports.\<close>

lemmas setup_defs = SetupPort_def ConfigurePort_def QueryDeviceInfo_def StoreRuntimeInfo_def ValidateQueueCounts_def
  ApplyConfiguration_def RetrieveMacAddress_def CheckNegativeResult_def CheckNonZeroResult_def Let_def

lemma ConfigurePort_frame:
  assumes "ConfigurePort ops p c env = (env', r)"
  shows "env_active_ports env' = env_active_ports env" "env_port_count env' = env_port_count env"
    "env_config env' = env_config env" "length (env_port_mac_addrs env') = length (env_port_mac_addrs env)"
    "env_skip_ports env' = env_skip_ports env"
  using assms by (auto simp: setup_defs split: sum.splits prod.splits if_splits)

lemma SetupPort_frame:
  assumes "SetupPort ops p env = (env', r)"
  shows "env_active_ports env' = env_active_ports env @ (case r of Inl _ \<Rightarrow> [] | Inr _ \<Rightarrow> [p])"
    "env_port_count env' = env_port_count env" "env_config env' = env_config env"
    "length (env_port_mac_addrs env') = length (env_port_mac_addrs env)" "env_skip_ports env' = env_skip_ports env"
  using assms unfolding SetupPort_def Let_def
  by (auto dest: ConfigurePort_frame split: sum.splits prod.splits)

lemma setup_ports_active:
  assumes "setup_ports ops m ps n env = (env', Inr n')"
  shows "env_active_ports env' = env_active_ports env @ filter (\<lambda>p. m AND push_bit (unat p) 1 \<noteq> 0) ps \<and>
     n' = n + length (filter (\<lambda>p. m AND push_bit (unat p) 1 \<noteq> 0) ps) \<and>
     env_port_count env' = env_port_count env \<and> length (env_port_mac_addrs env') = length (env_port_mac_addrs env)"
  using assms
proof (induction ps arbitrary: n env)
  case (Cons p ps)
  show ?case
  proof (cases "m AND push_bit (unat p) 1 = 0")
    case True
    with Cons show ?thesis by simp
  next
    case False
    with Cons.prems obtain env1 where "SetupPort ops p env = (env1, Inr ())" "setup_ports ops m ps (n + 1) env1 = (env', Inr n')"
      by (auto split: prod.splits sum.splits)
    with Cons.IH [OF this(2)] SetupPort_frame [OF this(1)] False show ?thesis by simp
  qed
qed simp

lemma mask_bit_iff: "m AND push_bit n 1 \<noteq> 0 \<longleftrightarrow> bit m n" for m :: u32
  by (simp add: push_bit_of_1 and_exp_eq_0_iff_not_bit)

lemma InitEal_ok:
  assumes "InitEal ops env = (env', Inr u)" and "\<not> env_skip_ports env"
  shows "env_active_ports env' = env_active_ports env" "env_port_count env' = dev_count_avail ops"
    "env_config env' = env_config env" "length (env_port_mac_addrs env') = unat (dev_count_avail ops)"
    "\<not> env_skip_ports env'"
  using assms by (auto simp: InitEal_def CheckNegativeResult_def Let_def split: if_splits)

lemma CreateMempool_ok:
  assumes "CreateMempool ops env = (env', Inr u)"
  shows "env' = env\<lparr>env_pool_created := True\<rparr>"
  using assms by (auto simp: CreateMempool_def Let_def split: if_splits)

text \<open>
  Start-up. If initialisation succeeds (on fewer than 32 ports, not in pcap mode), the active
  ports are exactly the available ports whose bit is set in the configured mask, in order and
  without repetition; there is at least one, each is below the port count and has an entry in
  the table of MAC addresses, and no bit of the mask is set above the port count.
\<close>

theorem init_active_ports:
  assumes "init ops (make_Environment config) = (env, Inr ())" and "\<not> pcap_enabled (cfg_pcap_injector config)"
    and "dev_count_avail ops < 32"
  shows "env_initialized env \<and> (\<exists>m. ParsePortMask (port_bitmask (cfg_port config)) = Some m \<and>
     env_active_ports env = filter (\<lambda>p. bit m (unat p)) (map of_nat [0..<unat (dev_count_avail ops)]) \<and>
     distinct (env_active_ports env) \<and> env_active_ports env \<noteq> [] \<and>
     (\<forall>p \<in> set (env_active_ports env). p < env_port_count env \<and> GetPortMacAddress env p \<noteq> None) \<and>
     (\<forall>i. bit m i \<longrightarrow> i < unat (env_port_count env)))"
proof -
  let ?e0 = "make_Environment config" and ?n = "dev_count_avail ops"
  define s where "s = ?e0\<lparr>env_skip_ports := False\<rparr>"
  have s: "env_active_ports s = []" "env_config s = config" "\<not> env_skip_ports s" by (simp_all add: s_def make_Environment_def)
  obtain e1 where e1: "InitEal ops s = (e1, Inr ())"
    using assms(1,2) by (auto simp: init_def make_Environment_def Let_def s_def split: prod.splits sum.splits)
  obtain e2 where e2: "CreateMempool ops e1 = (e2, Inr ())"
    using assms(1,2) e1 by (auto simp: init_def make_Environment_def Let_def s_def split: prod.splits sum.splits)
  have fields: "env_active_ports e2 = []" "env_port_count e2 = ?n" "env_config e2 = config"
      "length (env_port_mac_addrs e2) = unat ?n" "\<not> env_skip_ports e2"
    using InitEal_ok [OF e1 s(3)] s(1,2) CreateMempool_ok [OF e2] by simp_all
  obtain e3 where e3: "SetupPorts ops e2 = (e3, Inr ())" and env: "env = e3\<lparr>env_initialized := True\<rparr>"
    using assms(1,2) e1 e2 fields(5)
    by (auto simp: init_def make_Environment_def Let_def s_def CheckLinkStatus_def split: prod.splits sum.splits)
  from e3 obtain m n where m: "ValidatePortMask e2 = Inr m"
    and set: "setup_ports ops m (map of_nat [0..<unat (env_port_count e2)]) 0 e2 = (e3, Inr n)" "n \<noteq> 0"
    by (auto simp: SetupPorts_def split: sum.splits prod.splits if_splits)
  note active = setup_ports_active [OF set(1), unfolded mask_bit_iff]
  have parsed: "ParsePortMask (port_bitmask (cfg_port config)) = Some m" "m AND NOT (push_bit (unat ?n) 1 - 1) = 0"
    using m fields by (auto simp: ValidatePortMask_def Let_def split: option.splits if_splits)
  have small: "unat ?n < 32" using assms(3) by (simp add: word_less_nat_alt)
  have bits: "i < unat ?n" if "bit m i" for i
  proof (rule ccontr)
    assume "\<not> i < unat ?n"
    then have "bit (m AND NOT (mask (unat ?n))) i" using that bit_imp_le_length [OF that] by (simp add: bit_simps)
    with parsed(2) show False by (simp add: push_bit_of_1 mask_eq_exp_minus_1)
  qed
  have inj: "inj_on (of_nat :: nat \<Rightarrow> u16) {0..<unat ?n}"
    using small by (intro inj_on_inverseI [where g = unat]) (simp add: unat_of_nat take_bit_nat_eq_self_iff)
  have distinct: "distinct (env_active_ports env)"
    using active fields inj by (simp add: env distinct_map)
  have below: "p < ?n" if "p \<in> set (env_active_ports env)" for p
    using that active fields small by (auto simp: env word_less_nat_alt unat_of_nat take_bit_nat_eq_self_iff)
  have "length (env_active_ports env) = n" using active fields by (simp add: env)
  then have nonempty: "env_active_ports env \<noteq> []" using set(2) by auto
  have count: "env_port_count env = ?n" "length (env_port_mac_addrs env) = unat ?n" using active fields by (simp_all add: env)
  have macs: "\<forall>p \<in> set (env_active_ports env). p < env_port_count env \<and> GetPortMacAddress env p \<noteq> None"
    using below by (auto simp: count GetPortMacAddress_def word_less_nat_alt not_le)
  have ports: "env_active_ports env = filter (\<lambda>p. bit m (unat p)) (map of_nat [0..<unat ?n])"
    using active fields by (simp add: env)
  have bits: "\<forall>i. bit m i \<longrightarrow> i < unat (env_port_count env)" using bits by (simp add: count)
  have init: "env_initialized env" by (simp add: env)
  show ?thesis by (intro conjI exI [of _ m]; fact)
qed

text \<open>Two ports without failures, both in the mask.\<close>

definition two_ports :: eth_ops where
  "two_ports = \<lparr>eal_init = (\<lambda>args. 0), dev_count_avail = 2, pktmbuf_pool_create = (\<lambda>name n cache size. True),
     dev_info_get = (\<lambda>p. (0, \<lparr>di_driver_name = None, di_rss_offloads = 0, di_max_rx_queues = 1,
       di_max_tx_queues = 1, di_tx_offload_capa = 0\<rparr>)),
     dev_configure = (\<lambda>p rx tx conf. 0), adjust_nb_rx_tx_desc = (\<lambda>p rx tx. (0, rx, tx)),
     macaddr_get = (\<lambda>p. (0, [2, 0, 0, 0, 0, ucast p])), rx_queue_setup = (\<lambda>p q n offloads. 0),
     tx_queue_setup = (\<lambda>p q n offloads. 0), dev_start = (\<lambda>p. 0), promiscuous_enable = (\<lambda>p. 0),
     link_get = (\<lambda>count p. (0, True)), fast_free_flag = 0, kDefaultRssHash = 0\<rparr>"

definition two_port_config :: DpdkConfig where
  "two_port_config = default_DpdkConfig\<lparr>cfg_port := default_PortConfig\<lparr>port_bitmask := ''0x3''\<rparr>,
     cfg_mempool := \<lparr>mp_name = ''pool'', memory_buffer_count = 8, cache_size = 1, memory_buffer_size = 8\<rparr>\<rparr>"

theorem init_active_ports_witness:
  "set (env_active_ports (fst (init two_ports (make_Environment two_port_config)))) \<subseteq> {0, 1} \<and>
   env_active_ports (fst (init two_ports (make_Environment two_port_config))) \<noteq> []"
proof -
  have "snd (init two_ports (make_Environment two_port_config)) = Inr ()"
    by code_simp
  then obtain env where env: "init two_ports (make_Environment two_port_config) = (env, Inr ())" by (metis prod.collapse)
  have two: "dev_count_avail two_ports = 2" "\<not> pcap_enabled (cfg_pcap_injector two_port_config)"
    by (simp_all add: two_ports_def two_port_config_def default_DpdkConfig_def default_PcapInjectorConfig_def)
  have "dev_count_avail two_ports < 32" by (simp add: two)
  from init_active_ports [OF env two(2) this]
  obtain m :: u32 where m: "env_active_ports env = filter (\<lambda>p. bit m (unat p)) (map of_nat [0..<unat (dev_count_avail two_ports)])"
    and ne: "env_active_ports env \<noteq> []" by blast
  have "set (map of_nat [0..<unat (2 :: u16)]) = {0, 1 :: u16}" by code_simp
  moreover have "set (env_active_ports env) \<subseteq> set (map of_nat [0..<unat (2 :: u16)])"
    unfolding m two(1) by (rule filter_is_subset)
  ultimately show ?thesis using env ne by auto
qed

end
