(* ===== verification/Flow_Table.thy ===== *)
theory Flow_Table
  imports Spi_Types
begin

text \<open>
  The flow cache (\<^verbatim>\<open>spi_flow_table.hpp\<close>, \<^verbatim>\<open>spi_flow_table.cpp\<close>): canonical
  five-tuple keys, the packed entry word, and the table of preallocated entries with its
  LIFO free list. A pointer into \<^verbatim>\<open>data_\<close> is the index of the entry. DPDK's
  \<^verbatim>\<open>rte_hash\<close> is code outside the repository: its calls are the fields of
  \<open>rte_hash_ops\<close>, and what its documentation promises is \<open>rte_hash_contract\<close>.
  Every operation is one atomic step; \<^verbatim>\<open>rte_rdtsc()\<close> is an argument.
\<close>

section \<open>Keys\<close>

record FlowKey =
  src_ip :: u32
  dst_ip :: u32
  src_port :: u16
  dst_port :: u16
  fk_protocol :: Protocol

definition MakeCanonical :: "u32 \<Rightarrow> u32 \<Rightarrow> u16 \<Rightarrow> u16 \<Rightarrow> Protocol \<Rightarrow> FlowKey" where
  "MakeCanonical sip dip sp dp proto =
     (if dip < sip \<or> (sip = dip \<and> dp < sp)
      then \<lparr>src_ip = dip, dst_ip = sip, src_port = dp, dst_port = sp, fk_protocol = proto\<rparr>
      else \<lparr>src_ip = sip, dst_ip = dip, src_port = sp, dst_port = dp, fk_protocol = proto\<rparr>)"

text \<open>An IPv6 address folded to 32 bits: its first word exclusive-or its last.\<close>

definition fold_ip6 :: "bytes \<Rightarrow> u32" where
  "fold_ip6 address = le_load (subspan 0 4 address) XOR le_load (subspan 12 4 address)"

definition MakeCanonicalFromMetadata :: "PacketMetadata \<Rightarrow> FlowKey" where
  "MakeCanonicalFromMetadata meta =
     (if ip_version meta = kIpv4
      then MakeCanonical (source_ip_be meta) (destination_ip_be meta)
             (source_port_be meta) (destination_port_be meta) (protocol meta)
      else MakeCanonical (fold_ip6 (source_ip6_address meta)) (fold_ip6 (destination_ip6_address meta))
             (source_port_be meta) (destination_port_be meta) (protocol meta))"

section \<open>Entries\<close>

definition kFlowActionMask :: u64 where "kFlowActionMask = 0xF"
definition kFlowMatchCountShift :: nat where "kFlowMatchCountShift = 4"

record FlowData =
  action_and_count :: u64
  last_seen :: u64

definition empty_FlowData :: FlowData where
  "empty_FlowData = \<lparr>action_and_count = 0, last_seen = 0\<rparr>"

text \<open>
  The numeric value of an action and back. Only 0 and 1 are enumerators; only words packed
  from an action are ever decoded.
\<close>

definition action_bits :: "Action \<Rightarrow> u64" where
  "action_bits action = (case action of kForward \<Rightarrow> 0 | kDrop \<Rightarrow> 1)"

definition action_of_bits :: "u64 \<Rightarrow> Action" where
  "action_of_bits bits = (if bits = 0 then kForward else kDrop)"

definition pack_entry :: "u64 \<Rightarrow> Action \<Rightarrow> u64" where
  "pack_entry match_count action =
     push_bit kFlowMatchCountShift match_count OR (action_bits action AND kFlowActionMask)"

definition DecodePacked :: "u64 \<Rightarrow> Action" where
  "DecodePacked packed = action_of_bits (packed AND kFlowActionMask)"

record BulkResult =
  br_view :: Action
  br_valid :: bool

definition empty_BulkResult :: BulkResult where
  "empty_BulkResult = \<lparr>br_view = kForward, br_valid = False\<rparr>"

datatype FlowInsertResult = kOk | kFull

section \<open>The rte_hash library\<close>

record 'h rte_hash_ops =
  op_create :: "u32 \<Rightarrow> 'h option"
  op_lookup_data :: "'h \<Rightarrow> FlowKey \<Rightarrow> nat option"
  op_lookup_bulk_data :: "'h \<Rightarrow> FlowKey list \<Rightarrow> nat option list"
  op_add_key_data :: "'h \<Rightarrow> FlowKey \<Rightarrow> nat \<Rightarrow> 'h option"
  op_get_key_with_position :: "'h \<Rightarrow> nat \<Rightarrow> FlowKey option"
  op_del_key :: "'h \<Rightarrow> FlowKey \<Rightarrow> 'h option"
  op_free_key_with_position :: "'h \<Rightarrow> nat \<Rightarrow> 'h"
  op_count :: "'h \<Rightarrow> int"

definition rte_hash_contract :: "'h rte_hash_ops \<Rightarrow> bool" where
  "rte_hash_contract ops \<longleftrightarrow>
     (\<forall>n h. op_create ops n = Some h \<longrightarrow> op_lookup_data ops h = Map.empty) \<and>
     (\<forall>h keys. op_lookup_bulk_data ops h keys = map (op_lookup_data ops h) keys) \<and>
     (\<forall>h k d h'. op_add_key_data ops h k d = Some h' \<longrightarrow>
        op_lookup_data ops h' = (op_lookup_data ops h)(k \<mapsto> d)) \<and>
     (\<forall>h pos k. op_get_key_with_position ops h pos = Some k \<longrightarrow> op_lookup_data ops h k \<noteq> None) \<and>
     (\<forall>h k h'. op_del_key ops h k = Some h' \<longrightarrow>
        op_lookup_data ops h' = (op_lookup_data ops h)(k := None)) \<and>
     (\<forall>h pos. op_lookup_data ops (op_free_key_with_position ops h pos) = op_lookup_data ops h) \<and>
     (\<forall>h k h' pos p k'. op_del_key ops h k = Some h' \<longrightarrow>
        op_get_key_with_position ops (op_free_key_with_position ops h' pos) p = Some k' \<longrightarrow>
        op_get_key_with_position ops h p = Some k' \<and> k' \<noteq> k)"

section \<open>The table\<close>

record 'h FlowTable =
  ft_ops :: "'h rte_hash_ops"
  ft_hash :: "'h option"
  ft_data :: "FlowData list"
  max_concurrent_flows :: u32
  free_list :: "nat list"
  overflow_count :: u64
  eviction_threshold :: u64

definition make_FlowTable :: "'h rte_hash_ops \<Rightarrow> u32 \<Rightarrow> 'h FlowTable" where
  "make_FlowTable ops n = (case op_create ops n of
     None \<Rightarrow> \<lparr>ft_ops = ops, ft_hash = None, ft_data = [], max_concurrent_flows = n, free_list = [],
              overflow_count = 0, eviction_threshold = 0\<rparr>
   | Some h \<Rightarrow> \<lparr>ft_ops = ops, ft_hash = Some h, ft_data = replicate (unat n) empty_FlowData,
               max_concurrent_flows = n, free_list = [0..<unat n], overflow_count = 0,
               eviction_threshold = (let threshold = ucast n div 100
                                     in if threshold = 0 then 1 else threshold)\<rparr>)"

definition update_data :: "nat \<Rightarrow> (FlowData \<Rightarrow> FlowData) \<Rightarrow> 'h FlowTable \<Rightarrow> 'h FlowTable" where
  "update_data i f t = t\<lparr>ft_data := (ft_data t)[i := f (ft_data t ! i)]\<rparr>"

definition Flow_Lookup :: "FlowKey \<Rightarrow> u64 \<Rightarrow> 'h FlowTable \<Rightarrow> 'h FlowTable \<times> Action option" where
  "Flow_Lookup key now_tsc t =
     (case ft_hash t of None \<Rightarrow> (t, None)
      | Some h \<Rightarrow> (case op_lookup_data (ft_ops t) h key of None \<Rightarrow> (t, None)
        | Some data \<Rightarrow>
            let packed = action_and_count (ft_data t ! data) in
            if packed = 0 then (t, None)
            else (update_data data (\<lambda>d. d\<lparr>last_seen := now_tsc\<rparr>) t, Some (DecodePacked packed))))"

definition kMaxBulkKeys :: nat where "kMaxBulkKeys = 64"

text \<open>One iteration of the snapshot loop of \<^verbatim>\<open>LookupBulk\<close>.\<close>

definition bulk_snapshot ::
    "u64 \<Rightarrow> nat \<times> nat option \<Rightarrow> 'h FlowTable \<times> BulkResult list \<Rightarrow> 'h FlowTable \<times> BulkResult list" where
  "bulk_snapshot now_tsc = (\<lambda>(i, hit) (t, results).
     case hit of None \<Rightarrow> (t, results)
     | Some data \<Rightarrow>
         let packed = action_and_count (ft_data t ! data) in
         if packed = 0 then (t, results)
         else (update_data data (\<lambda>d. d\<lparr>last_seen := now_tsc\<rparr>) t,
               results[i := \<lparr>br_view = DecodePacked packed, br_valid = True\<rparr>]))"

definition Flow_LookupBulk ::
    "FlowKey list \<Rightarrow> u64 \<Rightarrow> BulkResult list \<Rightarrow> 'h FlowTable \<Rightarrow> 'h FlowTable \<times> BulkResult list" where
  "Flow_LookupBulk keys now_tsc results t =
     (case ft_hash t of
        None \<Rightarrow> (t, map (\<lambda>_. empty_BulkResult) (take (length keys) results) @ drop (length keys) results)
      | Some h \<Rightarrow>
          if keys = [] then (t, results)
          else fold (bulk_snapshot now_tsc)
                 (List.enumerate 0 (op_lookup_bulk_data (ft_ops t) h (take kMaxBulkKeys keys)))
                 (t, results))"

definition store_entry :: "nat \<Rightarrow> u64 \<Rightarrow> Action \<Rightarrow> u64 \<Rightarrow> 'h FlowTable \<Rightarrow> 'h FlowTable" where
  "store_entry i match_count action tsc =
     update_data i (\<lambda>d. d\<lparr>last_seen := tsc, action_and_count := pack_entry match_count action\<rparr>)"

definition Flow_Insert ::
    "FlowKey \<Rightarrow> u64 \<Rightarrow> Action \<Rightarrow> u64 \<Rightarrow> 'h FlowTable \<Rightarrow> 'h FlowTable \<times> FlowInsertResult" where
  "Flow_Insert key match_count action tsc t =
     (case ft_hash t of None \<Rightarrow> (t\<lparr>overflow_count := overflow_count t + 1\<rparr>, kFull)
      | Some h \<Rightarrow> (case op_lookup_data (ft_ops t) h key of
          Some data \<Rightarrow> (store_entry data match_count action tsc t, kOk)
        | None \<Rightarrow>
            if free_list t = [] then (t\<lparr>overflow_count := overflow_count t + 1\<rparr>, kFull)
            else let data = last (free_list t);
                     t = t\<lparr>free_list := butlast (free_list t)\<rparr>;
                     t = store_entry data match_count action tsc t
                 in case op_add_key_data (ft_ops t) h key data of
                      None \<Rightarrow> (t\<lparr>free_list := free_list t @ [data],
                                 overflow_count := overflow_count t + 1\<rparr>, kFull)
                    | Some h' \<Rightarrow> (t\<lparr>ft_hash := Some h'\<rparr>, kOk)))"

definition Flow_InsertRaw ::
    "FlowKey \<Rightarrow> u64 \<Rightarrow> Action \<Rightarrow> u64 \<Rightarrow> 'h FlowTable \<Rightarrow> 'h FlowTable \<times> FlowInsertResult" where
  "Flow_InsertRaw key match_count action tsc t =
     (case ft_hash t of None \<Rightarrow> (t, kFull)
      | Some h \<Rightarrow>
          if free_list t = [] then (t, kFull)
          else let data = last (free_list t);
                   t = t\<lparr>free_list := butlast (free_list t)\<rparr>;
                   t = store_entry data match_count action tsc t
               in case op_add_key_data (ft_ops t) h key data of
                    None \<Rightarrow> (t\<lparr>free_list := free_list t @ [data]\<rparr>, kFull)
                  | Some h' \<Rightarrow> (t\<lparr>ft_hash := Some h'\<rparr>, kOk))"

definition Flow_ForEachOccupied :: "'h FlowTable \<Rightarrow> (FlowKey \<times> u64 \<times> Action) list" where
  "Flow_ForEachOccupied t =
     (case ft_hash t of None \<Rightarrow> []
      | Some h \<Rightarrow> List.map_filter (\<lambda>idx.
          let packed = action_and_count (ft_data t ! idx) in
          if packed = 0 then None
          else map_option (\<lambda>key. (key, drop_bit kFlowMatchCountShift packed, DecodePacked packed))
                 (op_get_key_with_position (ft_ops t) h idx))
          [0..<unat (max_concurrent_flows t)])"

definition Flow_IsValid :: "'h FlowTable \<Rightarrow> bool" where
  "Flow_IsValid t \<longleftrightarrow> ft_hash t \<noteq> None"

definition Flow_Capacity :: "'h FlowTable \<Rightarrow> u32" where
  "Flow_Capacity t = max_concurrent_flows t"

definition Flow_ResetOverflowCount :: "'h FlowTable \<Rightarrow> 'h FlowTable" where
  "Flow_ResetOverflowCount t = t\<lparr>overflow_count := 0\<rparr>"

definition Flow_ShouldEvictOnPressure :: "'h FlowTable \<Rightarrow> bool" where
  "Flow_ShouldEvictOnPressure t \<longleftrightarrow> eviction_threshold t \<le> overflow_count t"

definition Flow_Count :: "'h FlowTable \<Rightarrow> nat" where
  "Flow_Count t = (case ft_hash t of None \<Rightarrow> 0
     | Some h \<Rightarrow> let count = op_count (ft_ops t) h in if 0 \<le> count then nat count else 0)"

subsection \<open>Expiry\<close>

definition kCancelCheckInterval :: nat where "kCancelCheckInterval = 1024"

text \<open>The body of the scan for one index; the second component collects freed entries.\<close>

definition purge_slot :: "u64 \<Rightarrow> nat \<Rightarrow> 'h FlowTable \<times> nat list \<Rightarrow> 'h FlowTable \<times> nat list" where
  "purge_slot threshold idx = (\<lambda>(t, expired).
     let slot = ft_data t ! idx in
     if action_and_count slot = 0 then (t, expired)
     else if last_seen slot < threshold then
       (case Option.bind (ft_hash t) (\<lambda>h. Option.bind (op_get_key_with_position (ft_ops t) h idx)
               (op_del_key (ft_ops t) h)) of
          None \<Rightarrow> (t, expired)
        | Some h' \<Rightarrow>
            (let t = update_data idx (\<lambda>_. empty_FlowData) t
             in (t\<lparr>ft_hash := Some (op_free_key_with_position (ft_ops t) h' idx)\<rparr>, expired @ [idx])))
     else (t, expired))"

fun purge_scan ::
    "(nat \<Rightarrow> bool) \<Rightarrow> u64 \<Rightarrow> nat list \<Rightarrow> nat \<Rightarrow> 'h FlowTable \<times> nat list \<Rightarrow> 'h FlowTable \<times> nat list" where
  "purge_scan force_quit threshold [] until acc = acc"
| "purge_scan force_quit threshold (idx # idxs) until acc =
     (let until = until - 1 in
      if until = 0 \<and> force_quit idx then acc
      else purge_scan force_quit threshold idxs (if until = 0 then kCancelCheckInterval else until)
             (purge_slot threshold idx acc))"

definition Flow_PurgeExpired :: "u64 \<Rightarrow> u64 \<Rightarrow> (nat \<Rightarrow> bool) \<Rightarrow> 'h FlowTable \<Rightarrow> 'h FlowTable" where
  "Flow_PurgeExpired now_tsc ttl_cycles force_quit t =
     (if ft_hash t = None \<or> now_tsc \<le> ttl_cycles then t
      else let (t, expired) = purge_scan force_quit (now_tsc - ttl_cycles)
                 [0..<unat (max_concurrent_flows t)] kCancelCheckInterval (t, [])
           in t\<lparr>free_list := free_list t @ expired\<rparr>)"

definition Flow_DrainPendingFrees :: "'h FlowTable \<Rightarrow> 'h FlowTable" where
  "Flow_DrainPendingFrees t = t"

section \<open>Packing\<close>

lemma action_bits_cases: "action_bits a AND kFlowActionMask = action_bits a"
  by (cases a) (simp_all add: action_bits_def kFlowActionMask_def)

lemma pack_entry_action: "pack_entry match_count action AND kFlowActionMask = action_bits action"
proof -
  have "(0xF :: u64) = mask 4" by (simp add: mask_eq_exp_minus_1)
  moreover have "push_bit 4 match_count AND mask 4 = (0 :: u64)"
    by (rule bit_word_eqI) (auto simp: bit_simps)
  ultimately have "push_bit 4 match_count AND 0xF = (0 :: u64)" by simp
  then show ?thesis
    by (simp add: pack_entry_def bit.conj_disj_distrib2 kFlowMatchCountShift_def kFlowActionMask_def
        action_bits_cases [unfolded kFlowActionMask_def])
qed

lemma pack_entry_count:
  assumes "match_count < 2 ^ 60"
  shows "drop_bit kFlowMatchCountShift (pack_entry match_count action) = match_count"
proof (rule bit_word_eqI)
  fix n assume "n < LENGTH(64)"
  moreover have "take_bit 60 match_count = match_count"
    using less_mask_eq [OF assms] by (simp add: take_bit_eq_mask)
  then have "bit match_count n \<longrightarrow> n < 60"
    using bit_take_bit_iff [of 60 match_count n] by metis
  ultimately show "bit (drop_bit kFlowMatchCountShift (pack_entry match_count action)) n = bit match_count n"
    by (cases action)
      (auto simp: pack_entry_def kFlowMatchCountShift_def kFlowActionMask_def action_bits_def bit_simps)
qed

lemma DecodePacked_pack: "DecodePacked (pack_entry match_count action) = action"
  by (cases action) (simp_all add: DecodePacked_def pack_entry_action action_of_bits_def action_bits_def)

lemma pack_entry_nonzero: "0 < match_count \<Longrightarrow> match_count < 2 ^ 60 \<Longrightarrow> pack_entry match_count action \<noteq> 0"
  using pack_entry_count [of match_count action] by auto

section \<open>The invariant of the table\<close>

text \<open>
  Which entry each key denotes. The invariant: the free list and the entries in use
  partition the preallocated array, and no two keys share an entry.
\<close>

definition slot_of :: "'h FlowTable \<Rightarrow> FlowKey \<Rightarrow> nat option" where
  "slot_of t key = Option.bind (ft_hash t) (\<lambda>h. op_lookup_data (ft_ops t) h key)"

definition flow_ok :: "'h FlowTable \<Rightarrow> bool" where
  "flow_ok t \<longleftrightarrow> rte_hash_contract (ft_ops t) \<and>
     (ft_hash t \<noteq> None \<longrightarrow>
        length (ft_data t) = unat (max_concurrent_flows t) \<and>
        distinct (free_list t) \<and> inj_on (slot_of t) (dom (slot_of t)) \<and>
        set (free_list t) \<inter> ran (slot_of t) = {} \<and>
        set (free_list t) \<union> ran (slot_of t) = {..<unat (max_concurrent_flows t)})"

text \<open>The abstract cache: the action each key is mapped to.\<close>

definition entry_view :: "FlowData \<Rightarrow> Action option" where
  "entry_view d = (if action_and_count d = 0 then None else Some (DecodePacked (action_and_count d)))"

definition view :: "'h FlowTable \<Rightarrow> FlowKey \<Rightarrow> Action option" where
  "view t key = Option.bind (slot_of t key) (\<lambda>i. entry_view (ft_data t ! i))"

lemma update_data_simps [simp]:
  "ft_hash (update_data i f t) = ft_hash t"
  "ft_ops (update_data i f t) = ft_ops t"
  "free_list (update_data i f t) = free_list t"
  "max_concurrent_flows (update_data i f t) = max_concurrent_flows t"
  "slot_of (update_data i f t) = slot_of t"
  "length (ft_data (update_data i f t)) = length (ft_data t)"
  by (simp_all add: update_data_def slot_of_def fun_eq_iff)

lemma flow_ok_update_data [simp]: "flow_ok (update_data i f t) = flow_ok t"
  by (simp add: flow_ok_def)

lemma slot_of_overflow [simp]: "slot_of (t\<lparr>overflow_count := n\<rparr>) = slot_of t"
  by (simp add: slot_of_def fun_eq_iff)

lemma flow_ok_overflow [simp]: "flow_ok (t\<lparr>overflow_count := n\<rparr>) = flow_ok t"
  by (simp add: flow_ok_def)

lemma view_overflow [simp]: "view (t\<lparr>overflow_count := n\<rparr>) = view t"
  by (simp add: view_def fun_eq_iff)

lemma slot_bound: "flow_ok t \<Longrightarrow> slot_of t key = Some i \<Longrightarrow> i < length (ft_data t)"
  unfolding flow_ok_def by (cases "ft_hash t") (simp add: slot_of_def, auto dest: ranI)

lemma slot_unique: "flow_ok t \<Longrightarrow> slot_of t k = Some i \<Longrightarrow> slot_of t k' = Some i \<Longrightarrow> k' = k"
  unfolding flow_ok_def by (cases "ft_hash t") (auto simp: slot_of_def inj_on_def domIff)

text \<open>Rewriting the entry of one key changes the view of that key only.\<close>

lemma view_update_data:
  assumes "flow_ok t" and "slot_of t key = Some i"
  shows "view (update_data i f t) = (view t)(key := entry_view (f (ft_data t ! i)))"
proof
  fix k
  show "view (update_data i f t) k = ((view t)(key := entry_view (f (ft_data t ! i)))) k"
    using assms slot_bound [OF assms] slot_unique [OF assms, of k]
    by (cases "slot_of t k") (auto simp: view_def, auto simp: update_data_def nth_list_update)
qed

lemma view_update_free:
  assumes "i \<notin> ran (slot_of t)"
  shows "view (update_data i f t) = view t"
proof
  fix k
  have "slot_of t k \<noteq> Some i" using assms by (metis ranI)
  then show "view (update_data i f t) k = view t k"
    by (cases "slot_of t k") (simp_all add: view_def, simp add: update_data_def)
qed

section \<open>Lookup\<close>

lemma Flow_Lookup_view: "snd (Flow_Lookup key now_tsc t) = view t key"
  by (auto simp: Flow_Lookup_def view_def slot_of_def entry_view_def Let_def split: option.splits)

lemma Flow_Lookup_ok:
  assumes "flow_ok t"
  shows "flow_ok (fst (Flow_Lookup key now_tsc t))" and "view (fst (Flow_Lookup key now_tsc t)) = view t"
proof -
  show "flow_ok (fst (Flow_Lookup key now_tsc t))"
    using assms by (auto simp: Flow_Lookup_def Let_def split: option.splits)
  show "view (fst (Flow_Lookup key now_tsc t)) = view t"
  proof (cases "slot_of t key")
    case None
    then show ?thesis by (auto simp: Flow_Lookup_def slot_of_def split: option.splits)
  next
    case (Some i)
    have "entry_view (ft_data t ! i) = view t key" by (simp add: view_def Some)
    with view_update_data [OF assms Some, of "\<lambda>d. d\<lparr>last_seen := now_tsc\<rparr>"] Some show ?thesis
      by (auto simp: Flow_Lookup_def slot_of_def Let_def entry_view_def fun_eq_iff split: option.splits)
  qed
qed

text \<open>
  The bulk lookup is the single lookup applied to each key in turn, on fresh results.
\<close>

fun lookup_each :: "FlowKey list \<Rightarrow> u64 \<Rightarrow> 'h FlowTable \<Rightarrow> 'h FlowTable \<times> BulkResult list" where
  "lookup_each [] now_tsc t = (t, [])"
| "lookup_each (key # keys) now_tsc t =
     (let (t1, r) = Flow_Lookup key now_tsc t;
          (t2, rs) = lookup_each keys now_tsc t1
      in (t2, (case r of None \<Rightarrow> empty_BulkResult | Some a \<Rightarrow> \<lparr>br_view = a, br_valid = True\<rparr>) # rs))"

lemma bulk_fold_shift:
  "length done = n \<Longrightarrow>
   fold (bulk_snapshot now_tsc) (List.enumerate n (map (op_lookup_data (ft_ops t) h) keys))
     (t, done @ replicate (length keys) empty_BulkResult) =
   (case lookup_each keys now_tsc t of (t', rs) \<Rightarrow> (t', done @ rs))"
  if "ft_hash t = Some h"
  using that
proof (induction keys arbitrary: t n "done")
  case (Cons key keys)
  obtain t1 r where look: "Flow_Lookup key now_tsc t = (t1, r)" by fastforce
  define b where "b = (case r of None \<Rightarrow> empty_BulkResult | Some a \<Rightarrow> \<lparr>br_view = a, br_valid = True\<rparr>)"
  have t1: "ft_hash t1 = Some h" "ft_ops t1 = ft_ops t"
    using look Cons.prems by (auto simp: Flow_Lookup_def Let_def split: option.splits if_splits)
  have step: "bulk_snapshot now_tsc (n, op_lookup_data (ft_ops t) h key)
      (t, done @ empty_BulkResult # replicate (length keys) empty_BulkResult) =
      (t1, (done @ [b]) @ replicate (length keys) empty_BulkResult)"
    using look Cons.prems
    by (auto simp: bulk_snapshot_def Flow_Lookup_def b_def Let_def list_update_append
        split: option.splits if_splits)
  show ?case
    using Cons.IH [of "done @ [b]" "Suc n" t1] Cons.prems t1
    by (simp add: step look b_def split: prod.splits)
qed simp

section \<open>Insertion\<close>

lemma contract_add:
  assumes "rte_hash_contract ops" and "op_add_key_data ops h k d = Some h'"
  shows "op_lookup_data ops h' = (op_lookup_data ops h)(k \<mapsto> d)"
  using assms unfolding rte_hash_contract_def by blast

lemma store_entry_view:
  assumes "0 < match_count" and "match_count < 2 ^ 60"
  shows "entry_view (d\<lparr>last_seen := tsc, action_and_count := pack_entry match_count action\<rparr>) = Some action"
  using pack_entry_nonzero [OF assms, of action] by (simp add: entry_view_def DecodePacked_pack)

text \<open>Taking the last free entry for a new key keeps the partition and extends the view.\<close>

lemma add_entry:
  assumes ok: "flow_ok t" and h: "ft_hash t = Some h" and new: "slot_of t key = None"
    and free: "free_list t \<noteq> []" and add: "op_add_key_data (ft_ops t) h key (last (free_list t)) = Some h'"
    and t': "t' = (store_entry (last (free_list t)) match_count action tsc
                     (t\<lparr>free_list := butlast (free_list t)\<rparr>))\<lparr>ft_hash := Some h'\<rparr>"
    and mc: "0 < match_count" "match_count < 2 ^ 60"
  shows "flow_ok t' \<and> view t' = (view t)(key \<mapsto> action)"
proof -
  from free obtain fs d where fl: "free_list t = fs @ [d]" by (cases "free_list t" rule: rev_cases) auto
  have t': "t' = (store_entry d match_count action tsc (t\<lparr>free_list := fs\<rparr>))\<lparr>ft_hash := Some h'\<rparr>"
    by (simp add: t' fl)
  have slot': "slot_of t' = (slot_of t)(key \<mapsto> d)"
    using contract_add [OF _ add] ok h
    by (auto simp: flow_ok_def slot_of_def t' store_entry_def update_data_def fun_eq_iff fl)
  have facts: "distinct fs" "d \<notin> set fs" "d \<notin> ran (slot_of t)" "set fs \<inter> ran (slot_of t) = {}"
    "inj_on (slot_of t) (dom (slot_of t))"
    "insert d (set fs \<union> ran (slot_of t)) = {..<unat (max_concurrent_flows t)}"
    "length (ft_data t) = unat (max_concurrent_flows t)" "rte_hash_contract (ft_ops t)"
    using ok h unfolding flow_ok_def fl by auto
  have other: "slot_of t k \<noteq> Some d" for k using facts(3) by (metis ranI)
  have ran: "ran (slot_of t') = insert d (ran (slot_of t))"
    using new by (simp add: slot')
  have inj: "inj_on (slot_of t') (dom (slot_of t'))"
    using facts(5) other by (auto simp: slot' inj_on_def domIff)
  have "flow_ok t'"
    using facts inj ran h by (auto simp: flow_ok_def) (auto simp: t' store_entry_def)
  moreover have "view t' = (view t)(key \<mapsto> action)"
  proof
    fix k
    have "d < length (ft_data t)" using facts(6,7) by auto
    then have "ft_data t' ! d = (ft_data t ! d)\<lparr>last_seen := tsc, action_and_count := pack_entry match_count action\<rparr>"
      and "\<And>i. i \<noteq> d \<Longrightarrow> ft_data t' ! i = ft_data t ! i"
      by (simp_all add: t' store_entry_def update_data_def)
    then show "view t' k = ((view t)(key \<mapsto> action)) k"
      using store_entry_view [OF mc] other [of k]
      by (cases "slot_of t k") (auto simp: view_def slot')
  qed
  ultimately show ?thesis ..
qed

lemma Flow_Insert_step:
  assumes ok: "flow_ok t" and ins: "Flow_Insert key match_count action tsc t = (t', result)"
    and mc: "0 < match_count" "match_count < 2 ^ 60"
  shows "flow_ok t' \<and> view t' = (if result = kOk then (view t)(key \<mapsto> action) else view t)"
proof (cases "slot_of t key")
  case (Some i)
  then have "t' = store_entry i match_count action tsc t" "result = kOk"
    using ins by (auto simp: Flow_Insert_def slot_of_def split: option.splits bind_splits)
  with view_update_data [OF ok Some] store_entry_view [OF mc] ok show ?thesis
    by (simp add: store_entry_def)
next
  case None
  show ?thesis
  proof (cases "\<exists>h h'. ft_hash t = Some h \<and> free_list t \<noteq> [] \<and>
           op_add_key_data (ft_ops t) h key (last (free_list t)) = Some h'")
    case True
    then obtain h h' where h: "ft_hash t = Some h" "free_list t \<noteq> []"
      "op_add_key_data (ft_ops t) h key (last (free_list t)) = Some h'" by blast
    with ins None have "result = kOk"
      and t': "t' = (store_entry (last (free_list t)) match_count action tsc
                     (t\<lparr>free_list := butlast (free_list t)\<rparr>))\<lparr>ft_hash := Some h'\<rparr>"
      by (auto simp: Flow_Insert_def slot_of_def Let_def store_entry_def)
    with add_entry [OF ok h(1) None h(2,3) t' mc] show ?thesis by simp
  next
    case False
    have full: "last (free_list t) \<notin> ran (slot_of t)" if "free_list t \<noteq> []" "ft_hash t \<noteq> None"
      using ok that last_in_set [OF that(1)] unfolding flow_ok_def by blast
    from False ins None have "result = kFull" and
      "t' = t\<lparr>overflow_count := overflow_count t + 1\<rparr> \<or>
       (free_list t \<noteq> [] \<and> ft_hash t \<noteq> None \<and> t' = (store_entry (last (free_list t)) match_count action tsc t)
          \<lparr>overflow_count := overflow_count t + 1\<rparr>)"
      by (auto simp: Flow_Insert_def slot_of_def Let_def store_entry_def update_data_def
          split: option.splits if_splits)
    then show ?thesis
      using ok full view_update_free by (auto simp: store_entry_def)
  qed
qed

section \<open>The cache as the pipeline sees it\<close>

text \<open>
  The contract between the flow cache and its client: \<open>find\<close> is the abstract map, a lookup
  reads it and changes nothing, an insertion either extends it or is refused without effect.
  The client's lemma: a decision, once cached, is what every later packet of the flow
  gets, whatever happens to other flows in between.
\<close>

datatype ('k, 'v, 'n) cache_op = Look 'k 'n | Put 'k 'v 'n

locale flow_cache =
  fixes view_of :: "'t \<Rightarrow> 'k \<Rightarrow> 'v option"
    and lookup :: "'k \<Rightarrow> 'n \<Rightarrow> 't \<Rightarrow> 't \<times> 'v option"
    and insert :: "'k \<Rightarrow> 'v \<Rightarrow> 'n \<Rightarrow> 't \<Rightarrow> 't \<times> FlowInsertResult"
    and ok :: "'t \<Rightarrow> bool"
  assumes lookup_law: "ok t \<Longrightarrow> lookup k n t = (t', r) \<Longrightarrow> ok t' \<and> view_of t' = view_of t \<and> r = view_of t k"
    and insert_law: "ok t \<Longrightarrow> insert k v n t = (t', res) \<Longrightarrow>
          ok t' \<and> view_of t' = (if res = kOk then (view_of t)(k \<mapsto> v) else view_of t)"
begin

lemma lookup_step:
  assumes "ok t"
  shows "ok (fst (lookup k n t))" "view_of (fst (lookup k n t)) = view_of t" "snd (lookup k n t) = view_of t k"
  using lookup_law [OF assms surjective_pairing] by auto

lemma insert_step:
  assumes "ok t"
  shows "ok (fst (insert k v n t))" "k' \<noteq> k \<Longrightarrow> view_of (fst (insert k v n t)) k' = view_of t k'"
  using insert_law [OF assms surjective_pairing] by auto

lemma apply_op_law:
  assumes "ok t"
  shows "ok (case c of Look k n \<Rightarrow> fst (lookup k n t) | Put k v n \<Rightarrow> fst (insert k v n t))"
    and "(\<And>v n. c \<noteq> Put k v n) \<Longrightarrow>
      view_of (case c of Look k n \<Rightarrow> fst (lookup k n t) | Put k v n \<Rightarrow> fst (insert k v n t)) k = view_of t k"
  using lookup_step [OF assms] insert_step [OF assms] by (cases c; force)+

lemma apply_ops_ok:
  "ok t \<Longrightarrow> ok (fold (\<lambda>c t. case c of Look k n \<Rightarrow> fst (lookup k n t) | Put k v n \<Rightarrow> fst (insert k v n t)) cs t)"
  by (induction cs arbitrary: t) (auto simp: apply_op_law(1))

lemma sticky:
  assumes "ok t" and "insert k v n t = (t', kOk)"
    and "\<And>c v n. c \<in> set cs \<Longrightarrow> c \<noteq> Put k v n"
  shows "snd (lookup k m (fold (\<lambda>c t. case c of Look k n \<Rightarrow> fst (lookup k n t)
           | Put k v n \<Rightarrow> fst (insert k v n t)) cs t')) = Some v"
proof -
  let ?f = "\<lambda>c t. case c of Look k n \<Rightarrow> fst (lookup k n t) | Put k v n \<Rightarrow> fst (insert k v n t)"
  from insert_law [OF assms(1,2)] have "ok t'" "view_of t' k = Some v" by auto
  with assms(3) have "ok (fold ?f cs t') \<and> view_of (fold ?f cs t') k = Some v"
  proof (induction cs arbitrary: t')
    case (Cons c cs)
    then have "view_of (?f c t') k = Some v" using apply_op_law(2) [of t' c k] by auto
    with Cons show ?case by (simp add: apply_op_law(1))
  qed simp
  then show ?thesis by (simp add: lookup_step)
qed

end

interpretation flow_table: flow_cache view Flow_Lookup "\<lambda>key action. Flow_Insert key 1 action" flow_ok
proof (unfold_locales, goal_cases)
  case (1 t k n t' r)
  then show ?case using Flow_Lookup_ok [of t k n] Flow_Lookup_view [of k n t] by auto
next
  case (2 t k v n t' r)
  then show ?case using Flow_Insert_step [of t k 1 v n t' r] by simp
qed

lemma make_FlowTable_ok:
  assumes "rte_hash_contract ops"
  shows "flow_ok (make_FlowTable ops n)"
proof (cases "op_create ops n")
  case None
  with assms show ?thesis by (simp add: flow_ok_def make_FlowTable_def)
next
  case (Some h)
  with assms have "op_lookup_data ops h = Map.empty" by (auto simp: rte_hash_contract_def)
  then have "slot_of (make_FlowTable ops n) = Map.empty"
    by (simp add: slot_of_def make_FlowTable_def Some fun_eq_iff)
  with assms show ?thesis
    by (simp add: flow_ok_def Some) (auto simp: make_FlowTable_def Some)
qed

definition flow_step :: "(FlowKey, Action, u64) cache_op \<Rightarrow> 'h FlowTable \<Rightarrow> 'h FlowTable" where
  "flow_step c t = (case c of Look key tsc \<Rightarrow> fst (Flow_Lookup key tsc t)
     | Put key action tsc \<Rightarrow> fst (Flow_Insert key 1 action tsc t))"

lemma flow_steps_ok: "flow_ok t \<Longrightarrow> flow_ok (fold flow_step cs t)"
  unfolding flow_step_def by (rule flow_table.apply_ops_ok)

lemma flow_step_frame:
  "max_concurrent_flows (flow_step c t) = max_concurrent_flows t"
  "ft_hash (flow_step c t) = None \<longleftrightarrow> ft_hash t = None"
  by (auto simp: flow_step_def Flow_Lookup_def Flow_Insert_def store_entry_def update_data_def Let_def
      split: cache_op.splits option.splits)

lemma flow_steps_frame:
  "max_concurrent_flows (fold flow_step cs t) = max_concurrent_flows t"
  "ft_hash (fold flow_step cs t) = None \<longleftrightarrow> ft_hash t = None"
  by (induction cs arbitrary: t) (simp_all add: flow_step_frame)

section \<open>A concrete rte_hash\<close>

text \<open>
  An instance of the library that hands out positions in ascending order, as DPDK does, and
  keeps a deleted position reserved until it is freed: it shows that the contract can hold.
\<close>

datatype hash_slot = SlotFree | SlotUsed FlowKey nat | SlotDeleted

fun slot_lookup :: "hash_slot list \<Rightarrow> FlowKey \<Rightarrow> nat option" where
  "slot_lookup [] k = None"
| "slot_lookup (SlotUsed k' d # h) k = (if k = k' then Some d else slot_lookup h k)"
| "slot_lookup (s # h) k = slot_lookup h k"

fun slot_replace :: "hash_slot list \<Rightarrow> FlowKey \<Rightarrow> nat \<Rightarrow> hash_slot list" where
  "slot_replace [] k d = []"
| "slot_replace (SlotUsed k' d' # h) k d =
     (if k = k' then SlotUsed k d # h else SlotUsed k' d' # slot_replace h k d)"
| "slot_replace (s # h) k d = s # slot_replace h k d"

fun slot_put :: "hash_slot list \<Rightarrow> FlowKey \<Rightarrow> nat \<Rightarrow> hash_slot list option" where
  "slot_put [] k d = None"
| "slot_put (SlotFree # h) k d = Some (SlotUsed k d # h)"
| "slot_put (s # h) k d = map_option ((#) s) (slot_put h k d)"

fun slot_delete :: "hash_slot list \<Rightarrow> FlowKey \<Rightarrow> hash_slot list" where
  "slot_delete [] k = []"
| "slot_delete (SlotUsed k' d # h) k =
     (if k = k' then SlotDeleted # slot_delete h k else SlotUsed k' d # slot_delete h k)"
| "slot_delete (s # h) k = s # slot_delete h k"

definition slot_hash_ops :: "hash_slot list rte_hash_ops" where
  "slot_hash_ops = \<lparr>
     op_create = (\<lambda>n. Some (replicate (unat n) SlotFree)),
     op_lookup_data = slot_lookup,
     op_lookup_bulk_data = (\<lambda>h. map (slot_lookup h)),
     op_add_key_data = (\<lambda>h k d. if slot_lookup h k \<noteq> None then Some (slot_replace h k d) else slot_put h k d),
     op_get_key_with_position = (\<lambda>h pos. if pos < length h
        then (case h ! pos of SlotUsed k d \<Rightarrow> Some k | _ \<Rightarrow> None) else None),
     op_del_key = (\<lambda>h k. if slot_lookup h k = None then None else Some (slot_delete h k)),
     op_free_key_with_position = (\<lambda>h pos. if pos < length h \<and> h ! pos = SlotDeleted
        then h[pos := SlotFree] else h),
     op_count = (\<lambda>h. int (length (filter (\<lambda>s. case s of SlotUsed k d \<Rightarrow> True | _ \<Rightarrow> False) h)))\<rparr>"

lemma slot_lookup_replicate: "slot_lookup (replicate n SlotFree) k = None"
  by (induction n) simp_all

lemma slot_lookup_replace:
  "slot_lookup h k \<noteq> None \<Longrightarrow> slot_lookup (slot_replace h k d) = (slot_lookup h)(k \<mapsto> d)"
  by (induction h k d rule: slot_replace.induct) (auto simp: fun_eq_iff split: if_splits)

lemma slot_lookup_put:
  "slot_put h k d = Some h' \<Longrightarrow> slot_lookup h k = None \<Longrightarrow> slot_lookup h' = (slot_lookup h)(k \<mapsto> d)"
  by (induction h k d arbitrary: h' rule: slot_put.induct) (auto simp: fun_eq_iff split: if_splits)

lemma slot_lookup_delete: "slot_lookup (slot_delete h k) = (slot_lookup h)(k := None)"
  by (induction h k rule: slot_delete.induct) (auto simp: fun_eq_iff)

lemma slot_lookup_used: "SlotUsed k d \<in> set h \<Longrightarrow> slot_lookup h k \<noteq> None"
  by (induction h k rule: slot_lookup.induct) auto

lemma slot_lookup_position: "pos < length h \<Longrightarrow> h ! pos = SlotUsed k d \<Longrightarrow> slot_lookup h k \<noteq> None"
  using slot_lookup_used nth_mem by metis

lemma slot_lookup_free:
  "pos < length h \<Longrightarrow> h ! pos = SlotDeleted \<Longrightarrow> slot_lookup (h[pos := SlotFree]) k = slot_lookup h k"
proof (induction h arbitrary: pos)
  case (Cons s h)
  then show ?case by (cases pos; cases s) auto
qed simp

lemma slot_delete_nth:
  "length (slot_delete h k) = length h"
  "p < length h \<Longrightarrow> slot_delete h k ! p = SlotUsed k' d \<longleftrightarrow> h ! p = SlotUsed k' d \<and> k' \<noteq> k"
proof -
  have "slot_delete h k = map (\<lambda>s. case s of SlotUsed k' d \<Rightarrow> if k = k' then SlotDeleted else s | _ \<Rightarrow> s) h"
    by (induction h k rule: slot_delete.induct) auto
  then show "length (slot_delete h k) = length h"
    "p < length h \<Longrightarrow> slot_delete h k ! p = SlotUsed k' d \<longleftrightarrow> h ! p = SlotUsed k' d \<and> k' \<noteq> k"
    by (auto split: hash_slot.splits)
qed

lemma slot_hash_contract: "rte_hash_contract slot_hash_ops"
  unfolding rte_hash_contract_def
  by (auto simp: slot_hash_ops_def slot_lookup_replicate slot_lookup_replace slot_lookup_put
      slot_lookup_delete slot_lookup_free slot_delete_nth nth_list_update fun_eq_iff
      split: if_splits hash_slot.splits dest: slot_lookup_position)

section \<open>Expiry\<close>

text \<open>
  \<^verbatim>\<open>PurgeExpired\<close> assumes that the hash stores the key of entry \<open>idx\<close> at position
  \<open>idx\<close>. Under that assumption it removes expired flows only.
\<close>

definition aligned :: "'h FlowTable \<Rightarrow> bool" where
  "aligned t \<longleftrightarrow> (\<forall>h pos key. ft_hash t = Some h \<longrightarrow>
     op_get_key_with_position (ft_ops t) h pos = Some key \<longrightarrow> slot_of t key = Some pos)"

definition purge_inv :: "'h FlowTable \<Rightarrow> u64 \<Rightarrow> 'h FlowTable \<times> nat list \<Rightarrow> bool" where
  "purge_inv t0 threshold = (\<lambda>(t, expired).
     flow_ok (t\<lparr>free_list := free_list t @ expired\<rparr>) \<and> aligned t \<and>
     (\<forall>k i. slot_of t k = Some i \<longrightarrow> slot_of t0 k = Some i \<and> ft_data t ! i = ft_data t0 ! i) \<and>
     (\<forall>k i. slot_of t0 k = Some i \<longrightarrow> slot_of t k = None \<longrightarrow> last_seen (ft_data t0 ! i) < threshold))"

lemma slot_of_free_list [simp]: "slot_of (t\<lparr>free_list := fs\<rparr>) = slot_of t"
  by (simp add: slot_of_def fun_eq_iff)

lemma contract_positions:
  assumes "rte_hash_contract ops" and "op_del_key ops h k = Some h'"
    and "op_get_key_with_position ops (op_free_key_with_position ops h' pos) p = Some k'"
  shows "op_get_key_with_position ops h p = Some k' \<and> k' \<noteq> k"
  using assms unfolding rte_hash_contract_def by blast

lemma purge_slot_inv:
  assumes inv: "purge_inv t0 threshold (t, expired)"
  shows "purge_inv t0 threshold (purge_slot threshold idx (t, expired))"
proof (cases "action_and_count (ft_data t ! idx) \<noteq> 0 \<and> last_seen (ft_data t ! idx) < threshold \<and>
    (\<exists>h k h'. ft_hash t = Some h \<and> op_get_key_with_position (ft_ops t) h idx = Some k \<and>
            op_del_key (ft_ops t) h k = Some h')")
  case False
  then have "purge_slot threshold idx (t, expired) = (t, expired)"
    by (auto simp: purge_slot_def Let_def split: option.splits bind_splits)
  with inv show ?thesis by simp
next
  case True
  then obtain h k h' where h: "ft_hash t = Some h" "op_get_key_with_position (ft_ops t) h idx = Some k"
    "op_del_key (ft_ops t) h k = Some h'" and old: "last_seen (ft_data t ! idx) < threshold" by blast
  define t' where "t' = (update_data idx (\<lambda>_. empty_FlowData) t)
     \<lparr>ft_hash := Some (op_free_key_with_position (ft_ops t) h' idx)\<rparr>"
  have purge: "purge_slot threshold idx (t, expired) = (t', expired @ [idx])"
    using True h by (simp add: purge_slot_def t'_def Let_def)
  from inv have ok: "flow_ok (t\<lparr>free_list := free_list t @ expired\<rparr>)" and al: "aligned t"
    and same: "\<And>k i. slot_of t k = Some i \<Longrightarrow> slot_of t0 k = Some i \<and> ft_data t ! i = ft_data t0 ! i"
    and gone: "\<And>k i. slot_of t0 k = Some i \<Longrightarrow> slot_of t k = None \<Longrightarrow> last_seen (ft_data t0 ! i) < threshold"
    by (auto simp: purge_inv_def)
  have contract: "rte_hash_contract (ft_ops t)" using ok by (simp add: flow_ok_def)
  have k: "slot_of t k = Some idx" using al h by (auto simp: aligned_def)
  have slot': "slot_of t' = (slot_of t)(k := None)"
    using contract h unfolding rte_hash_contract_def
    by (auto simp: slot_of_def t'_def fun_eq_iff update_data_def)
  have uniq: "k' = k" if "slot_of t k' = Some idx" for k'
    using slot_unique [OF ok, of k idx k'] k that by simp
  have data: "ft_data t' ! i = ft_data t ! i" if "i \<noteq> idx" for i
    using that by (simp add: t'_def update_data_def)
  have ran': "ran (slot_of t') = ran (slot_of t) - {idx}"
    unfolding slot' by (rule ran_remove [where m = "slot_of t", OF k]) (rule uniq)
  have idx: "idx \<in> ran (slot_of t)" using k by (rule ranI)
  have facts: "length (ft_data t) = unat (max_concurrent_flows t)" "distinct (free_list t @ expired)"
    "inj_on (slot_of t) (dom (slot_of t))" "set (free_list t @ expired) \<inter> ran (slot_of t) = {}"
    "set (free_list t @ expired) \<union> ran (slot_of t) = {..<unat (max_concurrent_flows t)}"
    using ok h(1) unfolding flow_ok_def by auto
  have frame: "free_list t' = free_list t" "ft_ops t' = ft_ops t" "length (ft_data t') = length (ft_data t)"
    "max_concurrent_flows t' = max_concurrent_flows t"
    by (simp_all add: t'_def)
  have "inj_on (slot_of t') (dom (slot_of t'))"
    using facts(3) by (auto simp: slot' inj_on_def)
  moreover have "set (free_list t @ expired @ [idx]) \<inter> ran (slot_of t') = {}"
    "set (free_list t @ expired @ [idx]) \<union> ran (slot_of t') = {..<unat (max_concurrent_flows t)}"
    "distinct (free_list t @ expired @ [idx])"
    using facts(2,4,5) idx ran' by auto
  ultimately have "flow_ok (t'\<lparr>free_list := free_list t' @ expired @ [idx]\<rparr>)"
    unfolding flow_ok_def using contract facts(1) frame by simp
  moreover have "aligned t'"
    unfolding aligned_def
  proof (intro allI impI)
    fix g pos key
    assume "ft_hash t' = Some g" and "op_get_key_with_position (ft_ops t') g pos = Some key"
    with contract_positions [OF contract h(3), of idx pos key]
    have "op_get_key_with_position (ft_ops t) h pos = Some key \<and> key \<noteq> k"
      by (auto simp: t'_def)
    with al h(1) show "slot_of t' key = Some pos" by (simp add: aligned_def slot')
  qed
  moreover have "\<And>k' i. slot_of t' k' = Some i \<Longrightarrow> slot_of t0 k' = Some i \<and> ft_data t' ! i = ft_data t0 ! i"
    using same uniq data by (metis fun_upd_apply option.distinct(1) slot')
  moreover have "\<And>k' i. slot_of t0 k' = Some i \<Longrightarrow> slot_of t' k' = None \<Longrightarrow> last_seen (ft_data t0 ! i) < threshold"
    using gone same [OF k] old by (auto simp: slot' split: if_splits)
  ultimately show ?thesis by (simp add: purge purge_inv_def)
qed

lemma purge_scan_inv:
  "purge_inv t0 threshold acc \<Longrightarrow> purge_inv t0 threshold (purge_scan force_quit threshold idxs until acc)"
proof (induction idxs arbitrary: until acc)
  case (Cons idx idxs)
  then show ?case
    using purge_slot_inv [of t0 threshold "fst acc" "snd acc" idx] by (simp add: Let_def)
qed simp

lemma Flow_PurgeExpired_inv:
  assumes "flow_ok t" and "aligned t" and "ft_hash t \<noteq> None" and "ttl_cycles < now_tsc"
  shows "\<exists>t1 expired. purge_inv t (now_tsc - ttl_cycles) (t1, expired) \<and>
           Flow_PurgeExpired now_tsc ttl_cycles force_quit t = t1\<lparr>free_list := free_list t1 @ expired\<rparr>"
proof -
  have "purge_inv t (now_tsc - ttl_cycles) (t, [])" using assms by (simp add: purge_inv_def)
  from purge_scan_inv [OF this] assms(3,4) show ?thesis
    by (auto simp: Flow_PurgeExpired_def not_le split: prod.splits) (metis surjective_pairing)
qed

section \<open>Properties\<close>

text \<open>The same packet seen in the other direction.\<close>

definition reverse_metadata :: "PacketMetadata \<Rightarrow> PacketMetadata" where
  "reverse_metadata m = m\<lparr>
     source_ip6_address := destination_ip6_address m, destination_ip6_address := source_ip6_address m,
     source_ip_be := destination_ip_be m, destination_ip_be := source_ip_be m,
     source_port_be := destination_port_be m, destination_port_be := source_port_be m\<rparr>"

lemma MakeCanonical_swap: "MakeCanonical dip sip dp sp proto = MakeCanonical sip dip sp dp proto"
  by (auto simp: MakeCanonical_def)

text \<open>
  C18. Both directions of a connection, IPv4 or IPv6, have the same flow key, and for IPv4 the
  key loses nothing else: two packets have the same key exactly if they have the same five-tuple
  or each other's reverse.
\<close>

theorem flow_key_identifies_connection:
  "MakeCanonicalFromMetadata (reverse_metadata m) = MakeCanonicalFromMetadata m \<and>
   (MakeCanonical sip dip sp dp proto = MakeCanonical sip' dip' sp' dp' proto' \<longleftrightarrow>
      proto = proto' \<and> ((sip, dip, sp, dp) = (sip', dip', sp', dp') \<or>
                        (sip, dip, sp, dp) = (dip', sip', dp', sp')))"
proof
  show "MakeCanonicalFromMetadata (reverse_metadata m) = MakeCanonicalFromMetadata m"
    by (simp add: MakeCanonicalFromMetadata_def reverse_metadata_def MakeCanonical_swap)
  show "MakeCanonical sip dip sp dp proto = MakeCanonical sip' dip' sp' dp' proto' \<longleftrightarrow>
      proto = proto' \<and> ((sip, dip, sp, dp) = (sip', dip', sp', dp') \<or>
                        (sip, dip, sp, dp) = (dip', sip', dp', sp'))"
    by (auto simp: MakeCanonical_def split: if_splits)
qed

text \<open>
  The packed entry word keeps the action in its low four bits and a match count of up to
  sixty bits above them: both are read back unchanged, and a positive count keeps the word
  different from zero, the mark of an empty entry.
\<close>

theorem pack_entry_roundtrip:
  assumes "match_count < 2 ^ 60"
  shows "DecodePacked (pack_entry match_count action) = action \<and>
         drop_bit kFlowMatchCountShift (pack_entry match_count action) = match_count \<and>
         (pack_entry match_count action = 0 \<longleftrightarrow> match_count = 0 \<and> action = kForward)"
proof -
  have "pack_entry 0 kForward = 0" "pack_entry 0 kDrop \<noteq> 0"
    by (simp_all add: pack_entry_def action_bits_def kFlowActionMask_def)
  then have "pack_entry match_count action = 0 \<longleftrightarrow> match_count = 0 \<and> action = kForward"
    using pack_entry_nonzero [OF _ assms, of action]
    by (cases action; cases "match_count = 0") (auto simp: word_gt_0)
  with pack_entry_count [OF assms] DecodePacked_pack show ?thesis by blast
qed

theorem pack_entry_roundtrip_witness:
  "DecodePacked (pack_entry 1 kDrop) = kDrop \<and>
   drop_bit kFlowMatchCountShift (pack_entry 1 kDrop) = 1 \<and>
   (pack_entry 1 kDrop = 0 \<longleftrightarrow> (1 :: u64) = 0 \<and> kDrop = kForward)"
  by (rule pack_entry_roundtrip) simp

text \<open>
  A decision is sticky. Once a flow has been inserted with an action, every later
  lookup of that flow returns the action, whatever lookups and insertions of other flows
  (including refused ones) happen in between.
\<close>

theorem flow_decision_sticky:
  assumes "flow_ok t" and "Flow_Insert key 1 action tsc t = (t', kOk)"
    and "\<forall>c \<in> set cs. \<forall>a n. c \<noteq> Put key a n"
  shows "snd (Flow_Lookup key now (fold flow_step cs t')) = Some action"
  unfolding flow_step_def [abs_def]
  by (rule flow_table.sticky [OF assms(1,2)]) (use assms(3) in blast)

definition example_key :: "u16 \<Rightarrow> FlowKey" where
  "example_key port = MakeCanonical 1 2 port 443 kTcp"

definition example_table :: "hash_slot list FlowTable" where
  "example_table = make_FlowTable slot_hash_ops 2"

lemma example_table_ok: "flow_ok example_table"
  unfolding example_table_def by (rule make_FlowTable_ok [OF slot_hash_contract])

theorem flow_decision_sticky_witness:
  "snd (Flow_Lookup (example_key 10) 9 (fold flow_step
     [Put (example_key 11) kForward 5, Look (example_key 10) 6, Put (example_key 12) kForward 7]
     (fst (Flow_Insert (example_key 10) 1 kDrop 3 example_table)))) = Some kDrop"
proof (rule flow_decision_sticky [OF example_table_ok])
  show "Flow_Insert (example_key 10) 1 kDrop 3 example_table =
      (fst (Flow_Insert (example_key 10) 1 kDrop 3 example_table), kOk)"
  proof -
    have "snd (Flow_Insert (example_key 10) 1 kDrop 3 example_table) = kOk" by code_simp
    then show ?thesis by (metis prod.collapse)
  qed
qed (simp add: example_key_def MakeCanonical_def)



text \<open>
  C19. The bulk lookup of up to 64 keys returns, key by key, exactly what single lookups
  made one after the other would return, and leaves the table in the same state.
\<close>

theorem lookup_bulk_is_lookup_each:
  assumes "rte_hash_contract (ft_ops t)" and "length keys \<le> 64" and "Flow_IsValid t"
  shows "Flow_LookupBulk keys now_tsc (replicate (length keys) empty_BulkResult) t =
         lookup_each keys now_tsc t"
proof -
  from assms(3) obtain h where h: "ft_hash t = Some h" by (auto simp: Flow_IsValid_def)
  have bulk: "op_lookup_bulk_data (ft_ops t) h keys = map (op_lookup_data (ft_ops t) h) keys"
    using assms(1) by (simp add: rte_hash_contract_def)
  show ?thesis
    using bulk_fold_shift [OF h, of "[]" 0 now_tsc keys] assms(2)
    by (cases "keys = []") (simp_all add: Flow_LookupBulk_def h bulk kMaxBulkKeys_def split: prod.splits)
qed

theorem lookup_bulk_is_lookup_each_witness:
  "Flow_LookupBulk [example_key 10, example_key 11] 7 (replicate 2 empty_BulkResult) example_table =
   lookup_each [example_key 10, example_key 11] 7 example_table"
proof -
  have "ft_ops example_table = slot_hash_ops" "Flow_IsValid example_table"
    by (simp_all add: example_table_def make_FlowTable_def Flow_IsValid_def slot_hash_ops_def)
  with lookup_bulk_is_lookup_each [of example_table "[example_key 10, example_key 11]" 7] slot_hash_contract
  show ?thesis by (simp add: numeral_2_eq_2)
qed


definition one_flow_table :: "hash_slot list FlowTable" where
  "one_flow_table = fold flow_step [Put (example_key 10) kDrop 500] (make_FlowTable slot_hash_ops 1)"



end
