(* ===== verification/Dpi_Engine.thy ===== *)
theory Dpi_Engine
  imports Config Table_Managers "HOL-Library.List_Lexorder"
begin

text \<open>
  The DPI rule table (\<^verbatim>\<open>dpi/dpi_rule_engine.hpp\<close>, \<^verbatim>\<open>dpi/dpi_rule_engine.cpp\<close>):
  compilation of hostname patterns to regular expressions, matching through Hyperscan,
  and the matcher used without it. Hyperscan is code outside the repository: \<open>hs_ops\<close> holds the two
  calls that decide results, \<open>hs_contract\<close> what they promise for the three shapes of regular
  expression the code generates. \<^verbatim>\<open>std::ranges::sort\<close> by priority is the stable
  \<^term>\<open>sort_key\<close>; the order it leaves among equal priorities is not specified by the
  standard and no theorem depends on it.
\<close>

section \<open>Data\<close>

record CompiledDpiFilter =
  cdf_hostname_pattern :: bytes
  cdf_is_suffix_match :: bool
  cdf_is_catch_all :: bool
  cdf_filter_group :: string
  cdf_priority :: u32
  cdf_label :: string

record DpiResult =
  dr_filter_group :: string
  dr_label :: string
  dr_priority :: u32
  dr_matched :: bool

definition no_dpi_result :: DpiResult where
  "no_dpi_result = \<lparr>dr_filter_group = [], dr_label = [], dr_priority = 0, dr_matched = False\<rparr>"

definition result_of_filter :: "CompiledDpiFilter \<Rightarrow> DpiResult" where
  "result_of_filter f = \<lparr>dr_filter_group = cdf_filter_group f, dr_label = cdf_label f,
     dr_priority = cdf_priority f, dr_matched = True\<rparr>"

text \<open>
  The table extends the header with the generation. The unordered maps are association
  lists with distinct keys.
\<close>

record 'd DpiRuleTable = DpiTableHeader +
  dt_filters :: "CompiledDpiFilter list"
  dt_exact_map :: "(bytes \<times> u16) list"
  dt_suffix_map :: "(bytes \<times> u16) list"
  dt_exact_list :: "(bytes \<times> u16) list"
  dt_suffix_list :: "(bytes \<times> u16) list"
  dt_catch_all_idx :: u16
  dt_hs_db :: "'d option"

record 'd hs_ops =
  hs_compile_multi :: "bytes list \<Rightarrow> 'd option"
  hs_scan :: "'d \<Rightarrow> bytes \<Rightarrow> nat list option"

datatype DpiError = PatternTooLong nat | HyperscanCompilationFailed

section \<open>Patterns and keys\<close>

definition dot :: byte where "dot = 46"
definition backslash :: byte where "backslash = 92"

definition regex_metacharacters :: bytes where
  "regex_metacharacters = ascii ''.'' @ [backslash] @ ascii ''+*?[^]$(){}=!<>|:''"

fun EscapeRegex :: "bytes \<Rightarrow> bytes" where
  "EscapeRegex [] = []"
| "EscapeRegex (c # cs) =
     (if c \<in> set regex_metacharacters then backslash # c # EscapeRegex cs else c # EscapeRegex cs)"

text \<open>The inner loop of \<^verbatim>\<open>ExtractDomainKey\<close>: from index \<open>i\<close> down, stop after a dot.\<close>

fun domain_start :: "bytes \<Rightarrow> nat \<Rightarrow> nat" where
  "domain_start h 0 = 0"
| "domain_start h (Suc i) = (if h ! i = dot then Suc i else domain_start h i)"

definition rfind_dot :: "bytes \<Rightarrow> nat option" where
  "rfind_dot h = (let n = length (takeWhile (\<lambda>c. c \<noteq> dot) (rev h))
                  in if n < length h then Some (length h - 1 - n) else None)"

definition ExtractDomainKey :: "bytes \<Rightarrow> bytes" where
  "ExtractDomainKey h =
     (if h = [] then []
      else case rfind_dot h of
        None \<Rightarrow> []
      | Some last_dot \<Rightarrow> if last_dot = 0 then [] else drop (domain_start h last_dot) h)"

definition SuffixKeyOf :: "bytes \<Rightarrow> bytes" where
  "SuffixKeyOf pattern =
     (if 2 \<le> length pattern \<and> pattern ! 0 = of_char CHR ''*'' \<and> pattern ! 1 = dot then drop 2 pattern else [])"

section \<open>Construction\<close>

definition kNoFilter16 :: u16 where "kNoFilter16 = 0xFFFF"

definition try_emplace :: "'k \<Rightarrow> 'v \<Rightarrow> ('k \<times> 'v) list \<Rightarrow> ('k \<times> 'v) list" where
  "try_emplace k v m = (if map_of m k = None then m @ [(k, v)] else m)"

definition index_filter :: "nat \<times> CompiledDpiFilter \<Rightarrow> 'd DpiRuleTable \<Rightarrow> 'd DpiRuleTable" where
  "index_filter = (\<lambda>(i, f) t.
     let pattern = cdf_hostname_pattern f; idx = of_nat i in
     if cdf_is_catch_all f then t\<lparr>dt_catch_all_idx := idx\<rparr>
     else if cdf_is_suffix_match f then
       (let key = SuffixKeyOf pattern in
        if key = [] then t
        else t\<lparr>dt_suffix_list := dt_suffix_list t @ [(key, idx)],
              dt_suffix_map := try_emplace key idx (dt_suffix_map t)\<rparr>)
     else t\<lparr>dt_exact_list := dt_exact_list t @ [(pattern, idx)],
            dt_exact_map := try_emplace pattern idx (dt_exact_map t)\<rparr>)"

definition make_DpiRuleTable :: "CompiledDpiFilter list \<Rightarrow> 'd option \<Rightarrow> 'd DpiRuleTable" where
  "make_DpiRuleTable filters hs_db =
     (let sorted_filters = sort_key cdf_priority filters;
          t = fold index_filter (List.enumerate 0 sorted_filters)
                \<lparr>dt_generation = 0, dt_filters = sorted_filters, dt_exact_map = [], dt_suffix_map = [],
                 dt_exact_list = [], dt_suffix_list = [], dt_catch_all_idx = kNoFilter16,
                 dt_hs_db = hs_db\<rparr>
      in t\<lparr>dt_suffix_list := sort_key fst (dt_suffix_list t)\<rparr>)"

definition Dpi_IsEnabled :: "'d DpiRuleTable \<Rightarrow> bool" where
  "Dpi_IsEnabled t \<longleftrightarrow> dt_filters t \<noteq> []"

definition Dpi_ResultAt :: "'d DpiRuleTable \<Rightarrow> u16 \<Rightarrow> DpiResult" where
  "Dpi_ResultAt t index = result_of_filter (dt_filters t ! unat index)"

definition Dpi_FindByFilterGroup :: "'d DpiRuleTable \<Rightarrow> string \<Rightarrow> u32 option" where
  "Dpi_FindByFilterGroup t name =
     (if name = [] then None
      else map_option of_nat (find (\<lambda>i. cdf_filter_group (dt_filters t ! i) = name)
             [0..<length (dt_filters t)]))"

section \<open>Matching\<close>

record HsMatchContext =
  matched_filter_idx :: u32
  best_priority :: u32

definition initial_context :: HsMatchContext where
  "initial_context = \<lparr>matched_filter_idx = - 1, best_priority = - 1\<rparr>"

definition OnHyperscanMatch :: "CompiledDpiFilter list \<Rightarrow> nat \<Rightarrow> HsMatchContext \<Rightarrow> HsMatchContext" where
  "OnHyperscanMatch filters filter_idx context =
     (if filter_idx < length filters
      then let prio = cdf_priority (filters ! filter_idx) in
           if prio < best_priority context
           then \<lparr>matched_filter_idx = of_nat filter_idx, best_priority = prio\<rparr> else context
      else context)"

definition fallback_exact :: "'d DpiRuleTable \<Rightarrow> bytes \<Rightarrow> u16 option" where
  "fallback_exact t h = (if 16 < length (dt_exact_map t) then map_of (dt_exact_map t) h
     else map_option snd (find (\<lambda>(pattern, idx). h = pattern) (dt_exact_list t)))"

text \<open>The linear scan of the suffix list, which stops at the first larger domain.\<close>

fun scan_suffixes :: "(bytes \<times> u16) list \<Rightarrow> bytes \<Rightarrow> u16 option" where
  "scan_suffixes [] key = None"
| "scan_suffixes ((entry, idx) # rest) key =
     (if key < entry then None else if entry = key then Some idx else scan_suffixes rest key)"

definition fallback_suffix :: "'d DpiRuleTable \<Rightarrow> bytes \<Rightarrow> u16 option" where
  "fallback_suffix t h =
     (let key = ExtractDomainKey h in
      if key = [] then None
      else if 16 < length (dt_suffix_map t) then map_of (dt_suffix_map t) key
      else scan_suffixes (dt_suffix_list t) key)"

definition MatchFallback :: "'d DpiRuleTable \<Rightarrow> bytes \<Rightarrow> DpiResult" where
  "MatchFallback t h =
     (if h = [] then no_dpi_result
      else case fallback_exact t h of
        Some idx \<Rightarrow> Dpi_ResultAt t idx
      | None \<Rightarrow> (case fallback_suffix t h of
          Some idx \<Rightarrow> Dpi_ResultAt t idx
        | None \<Rightarrow> if dt_catch_all_idx t \<noteq> kNoFilter16 then Dpi_ResultAt t (dt_catch_all_idx t)
                  else no_dpi_result))"

text \<open>\<^verbatim>\<open>Match(hostname, scratch)\<close>; \<open>scratch\<close> says whether the pointer is not null.\<close>

definition Dpi_Match :: "'d hs_ops \<Rightarrow> 'd DpiRuleTable \<Rightarrow> bool \<Rightarrow> bytes \<Rightarrow> DpiResult" where
  "Dpi_Match hs t scratch h =
     (if h = [] then no_dpi_result
      else case dt_hs_db t of
        None \<Rightarrow> MatchFallback t h
      | Some db \<Rightarrow>
          if \<not> scratch then MatchFallback t h
          else case hs_scan hs db h of
            None \<Rightarrow> no_dpi_result
          | Some ids \<Rightarrow>
              let context = fold (OnHyperscanMatch (dt_filters t)) ids initial_context in
              if unat (matched_filter_idx context) < length (dt_filters t)
              then result_of_filter (dt_filters t ! unat (matched_filter_idx context))
              else no_dpi_result)"

section \<open>Compilation\<close>

text \<open>
  The contents of \<^verbatim>\<open>hostname_pattern\<close> seen through its length: \<^verbatim>\<open>strncpy\<close> stops at a
  NUL and the array is zero.
\<close>

definition stored_pattern :: "bytes \<Rightarrow> bytes" where
  "stored_pattern pattern = (let copied = takeWhile (\<lambda>c. c \<noteq> 0) pattern
     in copied @ replicate (length pattern - length copied) 0)"

definition CompileDpiFilter :: "DpiFilterConfig \<Rightarrow> CompiledDpiFilter" where
  "CompileDpiFilter filter_config =
     (let pattern = dfc_hostname_pattern filter_config in
      \<lparr>cdf_hostname_pattern = stored_pattern (ascii pattern),
       cdf_is_suffix_match = prefix ''*.'' pattern,
       cdf_is_catch_all = (pattern = ''*''),
       cdf_filter_group = dfc_filter_group filter_config,
       cdf_priority = dfc_priority filter_config,
       cdf_label = dfc_label filter_config\<rparr>)"

text \<open>The three shapes of regular expression, and their text.\<close>

datatype dpi_regex = ReAny | ReSuffix bytes | ReExact bytes

definition regex_of_filter :: "CompiledDpiFilter \<Rightarrow> dpi_regex" where
  "regex_of_filter f =
     (if cdf_is_catch_all f then ReAny
      else if cdf_is_suffix_match f
      then ReSuffix (if 2 \<le> length (cdf_hostname_pattern f) then drop 2 (cdf_hostname_pattern f)
                     else cdf_hostname_pattern f)
      else ReExact (cdf_hostname_pattern f))"

fun regex_text :: "dpi_regex \<Rightarrow> bytes" where
  "regex_text ReAny = ascii ''.*''"
| "regex_text (ReSuffix domain) = ascii ''(^|'' @ [backslash] @ ascii ''.)('' @ EscapeRegex domain @ ascii '')$''"
| "regex_text (ReExact pattern) = ascii ''^('' @ EscapeRegex pattern @ ascii '')$''"

definition CompileDpiRuleTable :: "'d hs_ops \<Rightarrow> DpiConfig \<Rightarrow> DpiError + 'd DpiRuleTable" where
  "CompileDpiRuleTable hs config =
     (case find (\<lambda>(i, f). 64 \<le> length (dfc_hostname_pattern f)) (List.enumerate 0 (dpi_filters config)) of
        Some (i, f) \<Rightarrow> Inl (PatternTooLong i)
      | None \<Rightarrow>
          let filters = sort_key cdf_priority (map CompileDpiFilter (dpi_filters config)) in
          if filters = [] then Inr (make_DpiRuleTable filters None)
          else case hs_compile_multi hs (map (regex_text \<circ> regex_of_filter) filters) of
                 None \<Rightarrow> Inl HyperscanCompilationFailed
               | Some db \<Rightarrow> Inr (make_DpiRuleTable filters (Some db)))"

section \<open>What Hyperscan promises\<close>

definition to_lower :: "byte \<Rightarrow> byte" where
  "to_lower c = (if 65 \<le> c \<and> c \<le> 90 then c + 32 else c)"

definition caseless_eq :: "bytes \<Rightarrow> bytes \<Rightarrow> bool" where
  "caseless_eq a b \<longleftrightarrow> map to_lower a = map to_lower b"

definition ends_with_label :: "bytes \<Rightarrow> bytes \<Rightarrow> bool" where
  "ends_with_label h domain \<longleftrightarrow>
     (let n = length h - length domain in
      length domain \<le> length h \<and> caseless_eq (drop n h) domain \<and> (n = 0 \<or> h ! (n - 1) = dot))"

text \<open>A \<^verbatim>\<open>$\<close> also matches before a final line feed.\<close>

definition chomp :: "bytes \<Rightarrow> bytes" where
  "chomp h = (if h \<noteq> [] \<and> last h = 10 then butlast h else h)"

fun regex_matches :: "dpi_regex \<Rightarrow> bytes \<Rightarrow> bool" where
  "regex_matches ReAny h = True"
| "regex_matches (ReSuffix domain) h = (ends_with_label h domain \<or> ends_with_label (chomp h) domain)"
| "regex_matches (ReExact pattern) h = (caseless_eq h pattern \<or> caseless_eq (chomp h) pattern)"

definition hs_contract :: "'d hs_ops \<Rightarrow> bool" where
  "hs_contract hs \<longleftrightarrow> (\<forall>rs db h. hs_compile_multi hs (map regex_text rs) = Some db \<longrightarrow>
     (\<exists>ids. hs_scan hs db h = Some ids \<and> set ids = {i. i < length rs \<and> regex_matches (rs ! i) h}))"

section \<open>The least priority wins\<close>

lemma OnHyperscanMatch_fold:
  fixes fs ids c
  defines "r \<equiv> fold (OnHyperscanMatch fs) ids c"
  shows "(r = c \<and> (\<forall>i \<in> set ids. i < length fs \<longrightarrow> best_priority c \<le> cdf_priority (fs ! i))) \<or>
    (\<exists>i \<in> set ids. i < length fs \<and> r = \<lparr>matched_filter_idx = of_nat i, best_priority = cdf_priority (fs ! i)\<rparr> \<and>
       cdf_priority (fs ! i) < best_priority c \<and>
       (\<forall>j \<in> set ids. j < length fs \<longrightarrow> cdf_priority (fs ! i) \<le> cdf_priority (fs ! j)))"
  unfolding r_def
proof (induction ids arbitrary: c)
  case (Cons i ids)
  show ?case
  proof (cases "i < length fs \<and> cdf_priority (fs ! i) < best_priority c")
    case True
    with Cons [of "\<lparr>matched_filter_idx = of_nat i, best_priority = cdf_priority (fs ! i)\<rparr>"]
    show ?thesis by (auto simp: OnHyperscanMatch_def Let_def)
  next
    case False
    then have "OnHyperscanMatch fs i c = c" by (auto simp: OnHyperscanMatch_def Let_def)
    with Cons [of c] False show ?thesis by (auto simp: not_less)
  qed
qed simp

text \<open>
  The tables that compilation yields, with the hypotheses under which the table answers every
  query: Hyperscan keeps its promise, indices fit 32 bits, and no filter has the priority
  \<open>2 ^ 32 - 1\<close>, which the callback never selects.
\<close>

definition dpi_table_ok :: "'d hs_ops \<times> 'd DpiRuleTable \<Rightarrow> bytes \<Rightarrow> bool" where
  "dpi_table_ok = (\<lambda>(hs, t) h. hs_contract hs \<and> length (dt_filters t) < 2 ^ 32 \<and>
     (\<forall>f \<in> set (dt_filters t). cdf_priority f \<noteq> - 1) \<and>
     (\<exists>config g. CompileDpiRuleTable hs config = Inr (t\<lparr>dt_generation := g\<rparr>)))"

definition dpi_hits :: "CompiledDpiFilter \<Rightarrow> bytes \<Rightarrow> bool" where
  "dpi_hits f h \<longleftrightarrow> h \<noteq> [] \<and> regex_matches (regex_of_filter f) h"

definition dpi_select :: "'d hs_ops \<times> 'd DpiRuleTable \<Rightarrow> bytes \<Rightarrow> DpiResult option" where
  "dpi_select = (\<lambda>(hs, t) h. let r = Dpi_Match hs t True h in if dr_matched r then Some r else None)"

lemma index_filter_frame:
  "dt_filters (fold index_filter ifs t) = dt_filters t"
  "dt_hs_db (fold index_filter ifs t) = dt_hs_db t"
  by (induction ifs arbitrary: t) (auto simp: index_filter_def Let_def split: prod.splits)

lemma make_DpiRuleTable_simps [simp]:
  "dt_filters (make_DpiRuleTable fs db) = sort_key cdf_priority fs"
  "dt_hs_db (make_DpiRuleTable fs db) = db"
  by (simp_all add: make_DpiRuleTable_def Let_def index_filter_frame)

lemma compiled_cases:
  assumes "CompileDpiRuleTable hs config = Inr t"
  defines "fs \<equiv> sort_key cdf_priority (map CompileDpiFilter (dpi_filters config))"
  shows "dt_filters t = fs" and "t = make_DpiRuleTable fs (dt_hs_db t)"
    and "dt_hs_db t = (if fs = [] then None else hs_compile_multi hs (map (regex_text \<circ> regex_of_filter) fs))"
    and "fs \<noteq> [] \<Longrightarrow> dt_hs_db t \<noteq> None"
proof -
  have idem: "sort_key cdf_priority fs = fs"
    by (simp add: fs_def sort_key_id_if_sorted)
  show "dt_filters t = fs" "t = make_DpiRuleTable fs (dt_hs_db t)"
    "dt_hs_db t = (if fs = [] then None else hs_compile_multi hs (map (regex_text \<circ> regex_of_filter) fs))"
    "fs \<noteq> [] \<Longrightarrow> dt_hs_db t \<noteq> None"
    using assms(1) idem
    by (auto simp: CompileDpiRuleTable_def Let_def fs_def [symmetric] split: option.splits if_splits)
qed

lemma result_of_filter_matched [simp]: "dr_matched (result_of_filter f)"
  by (simp add: result_of_filter_def)

lemma no_dpi_result_matched [simp]: "\<not> dr_matched no_dpi_result"
  by (simp add: no_dpi_result_def)

lemma MatchFallback_empty: "MatchFallback (make_DpiRuleTable [] None) h = no_dpi_result"
  by (simp add: MatchFallback_def fallback_exact_def fallback_suffix_def make_DpiRuleTable_def Let_def)

lemma Dpi_Match_generation: "Dpi_Match hs (t\<lparr>dt_generation := g\<rparr>) scratch h = Dpi_Match hs t scratch h"
  by (simp add: Dpi_Match_def MatchFallback_def fallback_exact_def fallback_suffix_def Dpi_ResultAt_def
      Let_def cong: option.case_cong if_cong)

text \<open>The scan of a compiled table reports the filters that match and the fold takes the least.\<close>

lemma Dpi_Match_least:
  assumes comp: "CompileDpiRuleTable hs config = Inr t" and hs: "hs_contract hs"
    and fits: "length (dt_filters t) < 2 ^ 32" "\<forall>f \<in> set (dt_filters t). cdf_priority f \<noteq> - 1"
    and h: "h \<noteq> []" "dt_filters t \<noteq> []"
  shows "(Dpi_Match hs t True h = no_dpi_result \<and> (\<forall>f \<in> set (dt_filters t). \<not> dpi_hits f h)) \<or>
    (\<exists>f \<in> set (dt_filters t). Dpi_Match hs t True h = result_of_filter f \<and> dpi_hits f h \<and>
       (\<forall>f' \<in> set (dt_filters t). dpi_hits f' h \<longrightarrow> cdf_priority f \<le> cdf_priority f'))"
proof -
  let ?fs = "dt_filters t"
  note c = compiled_cases [OF comp]
  from c(1,3,4) h(2) obtain db where db: "dt_hs_db t = Some db"
    "hs_compile_multi hs (map regex_text (map regex_of_filter ?fs)) = Some db" by auto
  with hs obtain ids where ids: "hs_scan hs db h = Some ids"
    "set ids = {i. i < length ?fs \<and> dpi_hits (?fs ! i) h}"
    unfolding hs_contract_def dpi_hits_def using h(1) by fastforce
  define ctx where "ctx = fold (OnHyperscanMatch ?fs) ids initial_context"
  have match: "Dpi_Match hs t True h =
      (if unat (matched_filter_idx ctx) < length ?fs then result_of_filter (?fs ! unat (matched_filter_idx ctx))
       else no_dpi_result)"
    using h(1) db(1) ids(1) by (simp add: Dpi_Match_def ctx_def Let_def)
  from OnHyperscanMatch_fold [of ?fs ids initial_context, folded ctx_def] show ?thesis
  proof (elim disjE conjE bexE)
    assume none: "ctx = initial_context"
      "\<forall>i \<in> set ids. i < length ?fs \<longrightarrow> best_priority initial_context \<le> cdf_priority (?fs ! i)"
    have "cdf_priority (?fs ! i) = - 1" if "i \<in> set ids" for i
      using none(2) that ids(2) by (auto simp: initial_context_def word_order.extremum_unique)
    then have "set ids = {}"
      using fits(2) ids(2) nth_mem by (intro equals0I) blast
    with ids(2) have "\<forall>f \<in> set ?fs. \<not> dpi_hits f h" by (auto simp: in_set_conv_nth)
    moreover have "unat (- 1 :: u32) = 2 ^ 32 - 1" by (simp add: unsigned_minus_1_eq_mask mask_eq_exp_minus_1)
    then have "Dpi_Match hs t True h = no_dpi_result"
      using fits(1) by (simp add: match none(1) initial_context_def)
    ultimately show ?thesis by blast
  next
    fix i
    assume i: "i \<in> set ids" "i < length ?fs"
      "ctx = \<lparr>matched_filter_idx = of_nat i, best_priority = cdf_priority (?fs ! i)\<rparr>"
      "\<forall>j \<in> set ids. j < length ?fs \<longrightarrow> cdf_priority (?fs ! i) \<le> cdf_priority (?fs ! j)"
    have "unat (of_nat i :: u32) = i" using i(2) fits(1) by (simp add: unat_of_nat take_bit_nat_eq_self)
    then have "Dpi_Match hs t True h = result_of_filter (?fs ! i)" using i(2,3) by (simp add: match)
    moreover have "\<forall>f' \<in> set ?fs. dpi_hits f' h \<longrightarrow> cdf_priority (?fs ! i) \<le> cdf_priority f'"
      using i(4) ids(2) by (auto simp: in_set_conv_nth)
    ultimately show ?thesis using i(1,2) ids(2) by (intro disjI2 bexI [of _ "?fs ! i"]) auto
  qed
qed

lemma dpi_select_cases:
  assumes "dpi_table_ok (hs, t) h"
  shows "(dpi_select (hs, t) h = None \<and> (\<forall>f \<in> set (dt_filters t). \<not> dpi_hits f h)) \<or>
    (\<exists>f \<in> set (dt_filters t). dpi_select (hs, t) h = Some (result_of_filter f) \<and> dpi_hits f h \<and>
       (\<forall>f' \<in> set (dt_filters t). dpi_hits f' h \<longrightarrow> cdf_priority f \<le> cdf_priority f'))"
proof -
  from assms obtain config g where comp: "CompileDpiRuleTable hs config = Inr (t\<lparr>dt_generation := g\<rparr>)"
    by (auto simp: dpi_table_ok_def)
  show ?thesis
  proof (cases "h = [] \<or> dt_filters t = []")
    case True
    have "Dpi_Match hs (make_DpiRuleTable [] None) True h = no_dpi_result"
      by (simp add: Dpi_Match_def MatchFallback_empty)
    moreover have "t\<lparr>dt_generation := g\<rparr> = make_DpiRuleTable [] None" if "dt_filters t = []"
      using compiled_cases [OF comp] that by simp
    ultimately have "Dpi_Match hs t True h = no_dpi_result"
      using True Dpi_Match_generation [of hs g t True h] by (cases "h = []") (simp add: Dpi_Match_def, simp)
    with True show ?thesis by (auto simp: dpi_select_def Let_def dpi_hits_def)
  next
    case False
    with assms have "(Dpi_Match hs t True h = no_dpi_result \<and> (\<forall>f \<in> set (dt_filters t). \<not> dpi_hits f h)) \<or>
      (\<exists>f \<in> set (dt_filters t). Dpi_Match hs t True h = result_of_filter f \<and> dpi_hits f h \<and>
         (\<forall>f' \<in> set (dt_filters t). dpi_hits f' h \<longrightarrow> cdf_priority f \<le> cdf_priority f'))"
      using Dpi_Match_least [OF comp, of h] unfolding dpi_table_ok_def Dpi_Match_generation by simp
    then show ?thesis by (auto simp: dpi_select_def Let_def)
  qed
qed

interpretation dpi_table: ranked_choice "\<lambda>(hs, t). dt_filters t" "\<lambda>f. unat (cdf_priority f)" dpi_hits
  result_of_filter dpi_select dpi_table_ok
proof (unfold_locales, goal_cases)
  case (1 t p r)
  then show ?case using dpi_select_cases [of "fst t" "snd t" p] by (cases t) (auto simp: word_le_nat_alt)
next
  case (2 t p)
  then show ?case using dpi_select_cases [of "fst t" "snd t" p] by (cases t) auto
qed

section \<open>The matcher without Hyperscan\<close>

lemma map_of_try_emplace: "map_of (try_emplace k v m) = map_of (m @ [(k, v)])"
  by (auto simp: try_emplace_def fun_eq_iff map_add_def split: option.splits)

definition indexes_agree :: "'d DpiRuleTable \<Rightarrow> bool" where
  "indexes_agree t \<longleftrightarrow> map_of (dt_exact_map t) = map_of (dt_exact_list t) \<and>
     map_of (dt_suffix_map t) = map_of (dt_suffix_list t)"

lemma index_filter_agree: "indexes_agree t \<Longrightarrow> indexes_agree (index_filter x t)"
  by (cases x) (auto simp: index_filter_def Let_def indexes_agree_def map_of_try_emplace)

lemma fold_index_agree: "indexes_agree t \<Longrightarrow> indexes_agree (fold index_filter xs t)"
  by (induction xs arbitrary: t) (simp_all add: index_filter_agree)

lemma map_of_sort_key:
  assumes "distinct (map fst xs)"
  shows "map_of (sort_key f xs) = map_of xs"
  by (rule map_of_eqI)
    (use assms in \<open>auto simp: distinct_map map_of_eq_None_iff intro!: map_of_is_SomeI\<close>)

lemma scan_suffixes_map_of: "sorted (map fst xs) \<Longrightarrow> scan_suffixes xs key = map_of xs key"
proof (induction xs key rule: scan_suffixes.induct)
  case (2 entry idx rest key)
  have "map_of rest key = None" if "key < entry"
    using 2(2) that by (force simp: map_of_eq_None_iff)
  with 2 show ?case by (auto simp: not_less)
qed simp

lemma find_map_of: "map_option snd (find (\<lambda>(k', v). k = k') xs) = map_of xs k"
  by (induction xs) auto

lemma make_DpiRuleTable_indexes:
  fixes fs :: "CompiledDpiFilter list" and db :: "'d option"
  defines "t \<equiv> make_DpiRuleTable fs db"
  assumes "distinct (map fst (dt_suffix_list t))"
  shows "map_of (dt_exact_map t) = map_of (dt_exact_list t)"
    and "map_of (dt_suffix_map t) = map_of (dt_suffix_list t)"
    and "sorted (map fst (dt_suffix_list t))"
proof -
  define t0 :: "'d DpiRuleTable" where "t0 = fold index_filter (List.enumerate 0 (sort_key cdf_priority fs))
     \<lparr>dt_generation = 0, dt_filters = sort_key cdf_priority fs, dt_exact_map = [], dt_suffix_map = [],
      dt_exact_list = [], dt_suffix_list = [], dt_catch_all_idx = kNoFilter16, dt_hs_db = db\<rparr>"
  have agree: "indexes_agree t0" unfolding t0_def by (rule fold_index_agree) (simp add: indexes_agree_def)
  have t: "t = t0\<lparr>dt_suffix_list := sort_key fst (dt_suffix_list t0)\<rparr>"
    by (simp add: t_def make_DpiRuleTable_def t0_def Let_def)
  have "distinct (map fst (dt_suffix_list t0))"
    using assms(2) by (simp add: t distinct_map)
  with agree show "map_of (dt_exact_map t) = map_of (dt_exact_list t)"
    "map_of (dt_suffix_map t) = map_of (dt_suffix_list t)" "sorted (map fst (dt_suffix_list t))"
    by (simp_all add: indexes_agree_def t map_of_sort_key)
qed

section \<open>Domain keys\<close>

lemma rfind_dot_Some:
  assumes "rfind_dot h = Some n"
  shows "n < length h \<and> h ! n = dot \<and> dot \<notin> set (drop (Suc n) h)"
proof -
  let ?k = "length (takeWhile (\<lambda>c. c \<noteq> dot) (rev h))"
  have k: "?k < length h" "n = length h - 1 - ?k"
    using assms by (auto simp: rfind_dot_def Let_def split: if_splits)
  then have "rev h ! ?k = dot" using nth_length_takeWhile [of "\<lambda>c. c \<noteq> dot" "rev h"] by simp
  with k have "h ! n = dot" by (simp add: rev_nth)
  moreover have "drop (Suc n) h = rev (takeWhile (\<lambda>c. c \<noteq> dot) (rev h))"
  proof -
    have "rev (takeWhile (\<lambda>c. c \<noteq> dot) (rev h)) = rev (take ?k (rev h))"
      by (rule arg_cong [OF takeWhile_eq_take])
    also have "\<dots> = drop (length h - ?k) h" by (simp add: rev_take)
    also have "length h - ?k = Suc n" using k by simp
    finally show ?thesis by simp
  qed
  ultimately show ?thesis using k(1,2) by (auto dest: set_takeWhileD)
qed

lemma domain_start_spec:
  "domain_start h i \<le> i \<and> (domain_start h i = 0 \<or> h ! (domain_start h i - 1) = dot) \<and>
   (\<forall>k. domain_start h i \<le> k \<and> k < i \<longrightarrow> h ! k \<noteq> dot)"
  by (induction h i rule: domain_start.induct) (auto simp: less_Suc_eq)

section \<open>Properties\<close>


text \<open>
  A Hyperscan that keeps its promise: the database is the list of expressions read back from
  their text.
\<close>

fun unescape :: "bytes \<Rightarrow> bytes" where
  "unescape [] = []"
| "unescape [c] = (if c = backslash then [] else [c])"
| "unescape (c # d # cs) = (if c = backslash then d # unescape cs else c # unescape (d # cs))"

fun plain :: "bytes \<Rightarrow> bool" where
  "plain [] = True"
| "plain [c] = (c \<notin> set regex_metacharacters)"
| "plain (c # d # cs) = (if c = backslash then plain cs else c \<notin> set regex_metacharacters \<and> plain (d # cs))"

lemma metacharacters:
  "set regex_metacharacters = set [46, 92, 43, 42, 63, 91, 94, 93, 36, 40, 41, 123, 125, 61, 33, 60, 62, 124, 58]"
  by (simp add: regex_metacharacters_def ascii_def backslash_def)

lemma backslash_meta: "backslash \<in> set regex_metacharacters"
  by (simp add: regex_metacharacters_def)

lemma unescape_Cons: "c \<noteq> backslash \<Longrightarrow> unescape (c # cs) = c # unescape cs"
  by (cases cs) auto

lemma plain_Cons: "c \<noteq> backslash \<Longrightarrow> plain (c # cs) = (c \<notin> set regex_metacharacters \<and> plain cs)"
  by (cases cs) auto

lemma unescape_EscapeRegex: "unescape (EscapeRegex s) = s"
proof (induction s)
  case (Cons c s)
  then show ?case using backslash_meta unescape_Cons [of c] by (cases "c = backslash") auto
qed simp

text \<open>
  Escaping is faithful. The escaped form of a pattern contains no regular expression
  metacharacter that is not preceded by a backslash of its own, and reading it as a literal
  gives the pattern back: no hostname pattern can change the meaning of the expression it is
  embedded in.
\<close>

theorem EscapeRegex_literal:
  "plain (EscapeRegex s) \<and> unescape (EscapeRegex s) = s"
proof -
  have "plain (EscapeRegex s)"
  proof (induction s)
    case (Cons c s)
    then show ?case using backslash_meta plain_Cons [of c] by (cases "c = backslash") auto
  qed simp
  with unescape_EscapeRegex show ?thesis by blast
qed

text \<open>
  The domain key used for suffix rules is the last two labels of the hostname: a
  nonempty key is a suffix of the hostname that starts at a label boundary and contains exactly
  one dot.
\<close>

theorem ExtractDomainKey_two_labels:
  assumes "ExtractDomainKey h \<noteq> []"
  shows "\<exists>pre a b. h = pre @ ExtractDomainKey h \<and> ExtractDomainKey h = a @ dot # b \<and>
           dot \<notin> set a \<and> dot \<notin> set b \<and> (pre = [] \<or> last pre = dot)"
proof -
  from assms obtain n where n: "rfind_dot h = Some n" and key: "ExtractDomainKey h = drop (domain_start h n) h"
    by (auto simp: ExtractDomainKey_def split: if_splits option.splits)
  let ?j = "domain_start h n"
  note last = rfind_dot_Some [OF n] and start = domain_start_spec [of h n]
  let ?pre = "take ?j h" and ?a = "take (n - ?j) (drop ?j h)" and ?b = "drop (Suc n) h"
  have "drop ?j h = ?a @ drop (n - ?j) (drop ?j h)" by (metis append_take_drop_id)
  also have "drop (n - ?j) (drop ?j h) = dot # ?b"
    using last start Cons_nth_drop_Suc [of n h] by simp
  finally have split: "drop ?j h = ?a @ dot # ?b" .
  have a: "dot \<notin> set ?a"
  proof
    assume "dot \<in> set ?a"
    then obtain k where "k < n - ?j" "k < length h - ?j" "h ! (?j + k) = dot"
      by (auto simp: in_set_conv_nth)
    with start show False by (metis le_add1 less_diff_conv add.commute)
  qed
  have "?pre = [] \<or> last ?pre = dot"
  proof (cases "?j = 0")
    case False
    with last start have "?j \<le> length h" "0 < ?j" by auto
    then have "last ?pre = h ! (?j - 1)" by (subst last_conv_nth) auto
    with False start show ?thesis by simp
  qed simp
  with a last split key show ?thesis by (metis append_take_drop_id)
qed

theorem ExtractDomainKey_two_labels_witness:
  "\<exists>pre a b. ascii ''a.b.vn'' = pre @ ExtractDomainKey (ascii ''a.b.vn'') \<and>
     ExtractDomainKey (ascii ''a.b.vn'') = a @ dot # b \<and> dot \<notin> set a \<and> dot \<notin> set b \<and>
     (pre = [] \<or> last pre = dot)"
  by (rule ExtractDomainKey_two_labels) code_simp

text \<open>
  Without Hyperscan, the linear scans used for small tables and the hash lookups used for
  more than sixteen rules give the same answer, namely the first rule in priority order with the
  exact hostname, respectively with the domain key (suffix domains being distinct).
\<close>

theorem fallback_scan_equals_hash:
  assumes "distinct (map fst (dt_suffix_list (make_DpiRuleTable fs db)))"
  shows "fallback_exact (make_DpiRuleTable fs db) h = map_of (dt_exact_list (make_DpiRuleTable fs db)) h \<and>
         fallback_suffix (make_DpiRuleTable fs db) h =
           (if ExtractDomainKey h = [] then None
            else map_of (dt_suffix_list (make_DpiRuleTable fs db)) (ExtractDomainKey h))"
  using make_DpiRuleTable_indexes [OF assms]
  by (simp add: fallback_exact_def fallback_suffix_def Let_def find_map_of scan_suffixes_map_of)

definition example_dpi_config :: DpiConfig where
  "example_dpi_config = \<lparr>dpi_enabled = True, dpi_filters = [
     \<lparr>dfc_hostname_pattern = ''www.fb.com'', dfc_uri_pattern = None, dfc_filter_group = ''exact'',
      dfc_priority = 50, dfc_label = ''e''\<rparr>,
     \<lparr>dfc_hostname_pattern = ''*.fb.com'', dfc_uri_pattern = None, dfc_filter_group = ''suffix'',
      dfc_priority = 10, dfc_label = ''s''\<rparr>]\<rparr>"

definition example_dpi_filters :: "CompiledDpiFilter list" where
  "example_dpi_filters = map CompileDpiFilter (dpi_filters example_dpi_config)"

theorem fallback_scan_equals_hash_witness:
  "fallback_exact (make_DpiRuleTable example_dpi_filters (None :: unit option)) (ascii ''www.fb.com'') =
     map_of (dt_exact_list (make_DpiRuleTable example_dpi_filters (None :: unit option))) (ascii ''www.fb.com'') \<and>
   fallback_suffix (make_DpiRuleTable example_dpi_filters (None :: unit option)) (ascii ''www.fb.com'') =
     (if ExtractDomainKey (ascii ''www.fb.com'') = [] then None
      else map_of (dt_suffix_list (make_DpiRuleTable example_dpi_filters (None :: unit option)))
             (ExtractDomainKey (ascii ''www.fb.com'')))"
  by (rule fallback_scan_equals_hash) code_simp

definition parse_regex :: "bytes \<Rightarrow> dpi_regex" where
  "parse_regex re =
     (if re = ascii ''.*'' then ReAny
      else if hd re = of_char CHR ''^'' then ReExact (unescape (take (length re - 4) (drop 2 re)))
      else ReSuffix (unescape (take (length re - 9) (drop 7 re))))"

definition text_hs :: "dpi_regex list hs_ops" where
  "text_hs = \<lparr>hs_compile_multi = (\<lambda>texts. Some (map parse_regex texts)),
     hs_scan = (\<lambda>db h. Some (filter (\<lambda>i. regex_matches (db ! i) h) [0..<length db]))\<rparr>"

lemma parse_regex_text: "parse_regex (regex_text r) = r"
  by (cases r) (simp_all add: parse_regex_def ascii_def backslash_def unescape_EscapeRegex)

lemma text_hs_contract: "hs_contract text_hs"
  by (auto simp: hs_contract_def text_hs_def parse_regex_text comp_def)

definition example_dpi_table :: "dpi_regex list DpiRuleTable" where
  "example_dpi_table = (case CompileDpiRuleTable text_hs example_dpi_config of Inr t \<Rightarrow> t)"

lemma example_dpi_table_ok: "dpi_table_ok (text_hs, example_dpi_table) h"
proof -
  have "CompileDpiRuleTable text_hs example_dpi_config = Inr (example_dpi_table\<lparr>dt_generation := 0\<rparr>)"
    by code_simp
  moreover have "map cdf_priority (dt_filters example_dpi_table) = [10, 50]" by code_simp
  then have "length (dt_filters example_dpi_table) = 2"
    "\<forall>f \<in> set (dt_filters example_dpi_table). cdf_priority f \<in> {10, 50}"
    by (metis length_map length_Cons list.size(3) numeral_2_eq_2)
      (metis (no_types, lifting) \<open>map cdf_priority (dt_filters example_dpi_table) = [10, 50]\<close> imageI list.set(1,2) set_map)
  ultimately show ?thesis
    using text_hs_contract by (fastforce simp: dpi_table_ok_def)
qed


text \<open>
  The two matchers do not agree: on the same table, with an exact rule of priority 50 and
  a suffix rule of priority 10 that both match, matching through Hyperscan answers with the
  suffix rule, as the priorities demand, and matching without it with the exact rule; and a hostname in
  capitals matches only through Hyperscan.
\<close>

theorem fallback_disagrees_with_hyperscan:
  "dr_filter_group (Dpi_Match text_hs example_dpi_table True (ascii ''www.fb.com'')) = ''suffix'' \<and>
   dr_filter_group (Dpi_Match text_hs example_dpi_table False (ascii ''www.fb.com'')) = ''exact'' \<and>
   dr_matched (Dpi_Match text_hs example_dpi_table True (ascii ''WWW.FB.COM'')) \<and>
   \<not> dr_matched (Dpi_Match text_hs example_dpi_table False (ascii ''WWW.FB.COM''))"
  by code_simp

lemma Dpi_FindByFilterGroup_Some:
  assumes "Dpi_FindByFilterGroup t name = Some i" and "length (dt_filters t) < 2 ^ 32"
  shows "unat i < length (dt_filters t) \<and> cdf_filter_group (dt_filters t ! unat i) = name \<and>
         (\<forall>j < unat i. cdf_filter_group (dt_filters t ! j) \<noteq> name)"
proof -
  from assms obtain n where n: "find (\<lambda>i. cdf_filter_group (dt_filters t ! i) = name)
      [0..<length (dt_filters t)] = Some n" "i = of_nat n"
    by (auto simp: Dpi_FindByFilterGroup_def split: if_splits)
  then have "n < length (dt_filters t)" "cdf_filter_group (dt_filters t ! n) = name"
    "\<forall>j < n. cdf_filter_group (dt_filters t ! j) \<noteq> name"
    by (auto simp: find_Some_iff)
  moreover from this assms(2) have "unat i = n" by (simp add: n(2) unat_of_nat take_bit_nat_eq_self)
  ultimately show ?thesis by simp
qed

lemma Dpi_FindByFilterGroup_None:
  "Dpi_FindByFilterGroup t name = None \<longleftrightarrow> name = [] \<or> name \<notin> cdf_filter_group ` set (dt_filters t)"
  by (auto simp: Dpi_FindByFilterGroup_def find_None_iff in_set_conv_nth image_iff Bex_def)

end
