(* ===== verification/Rule_Engine.thy ===== *)
theory Rule_Engine
  imports Flow_Table Dpi_Engine
begin

text \<open>
  The SPI rule engine (\<^verbatim>\<open>spi/spi_rule_engine.hpp\<close>, \<^verbatim>\<open>spi/spi_rule_engine.cpp\<close>):
  compilation of filter groups into ACL rules, chunked classification, the membership
  pre-filter, the tuple-space pre-check and the resolution of DPI links. DPDK's ACL and
  membership libraries are parameters (\<open>acl_ops\<close>, \<open>member_ops\<close>) with contracts. The FIB is
  built by the code but never consulted (\<^verbatim>\<open>FibLookupBulk\<close> does nothing) and is left out.
  The worker threads of the compiler write disjoint ranges and their results are collected in
  order, so they run one after the other here.
\<close>

section \<open>Data\<close>

record AclInputData =
  ai_src_ip_be :: u32
  ai_dst_ip_be :: u32
  ai_src_port_be :: u16
  ai_dst_port_be :: u16
  ai_protocol :: byte

record CompiledFilter =
  cf_protocol :: Protocol
  source_ip_address :: u32
  destination_ip_address :: u32
  destination_network :: u32
  destination_prefix_mask :: u32
  destination_prefix_length :: u32
  cf_source_port :: u16
  cf_destination_port :: u16
  match_source_ip :: bool
  match_destination_ip :: bool
  match_destination_cidr :: bool
  match_source_port :: bool
  match_destination_port :: bool
  cf_label :: string

record CompiledFilterGroup =
  g_name :: string
  g_precedence :: u32
  g_action :: Action
  g_filters :: "CompiledFilter list"
  g_category_index :: u32
  g_l7_required :: bool
  g_bound_dpi_filter_index :: u32
  g_bound_dpi_name :: string

text \<open>One \<^verbatim>\<open>rte_acl_rule\<close>: its data and the value and mask or range of each field.\<close>

record AclRule =
  ar_userdata :: u32
  ar_priority :: int
  ar_category_mask :: u32
  ar_protocol :: byte
  ar_protocol_mask :: byte
  ar_src_ip :: u32
  ar_src_length :: u32
  ar_dst_ip :: u32
  ar_dst_length :: u32
  ar_src_port_low :: u16
  ar_src_port_high :: u16
  ar_dst_port_low :: u16
  ar_dst_port_high :: u16

datatype AclAlgorithm =
  ClassifyDefault | ClassifyScalar | ClassifySse | ClassifyAvx2 | ClassifyNeon
| ClassifyAltivec | ClassifyAvx512x16 | ClassifyAvx512x32

record 'c AclChunk =
  ac_ctx :: "'c option"
  ac_start_group_index :: nat
  ac_group_count :: nat

record MemberKey =
  mk_dst_ip_be :: u32
  mk_dst_port_be :: u16
  mk_protocol :: byte

record TssEntry =
  te_key :: FlowKey
  te_group_idx :: u32

datatype RuleError =
  FilterProtocolError nat nat | FilterSourceIpError nat nat ip_error
| FilterDestinationIpError nat nat ip_error | AffinityError | UnsupportedAlgorithm string
| BuildMaxSizeTooLarge | NoSpiRules | AclCreateFailed nat | AclAddRulesFailed nat
| AclBuildFailed nat | AclClassifierFailed nat | RebuildWithoutContext | RebuildWithoutRules
| RebuildAddFailed | RebuildBuildFailed | RebuildClassifierFailed | DpiGroupNotFound string string

section \<open>Libraries\<close>

text \<open>
  A context holds rules (\<open>acl_rules\<close>); adding, building and selecting the classification
  routine may fail; classifying yields for each input the user data of the best matching
  rule, zero if there is none (\<open>acl_best\<close>). The first two components describe the state of
  a context; the code does not call them.
\<close>

record 'c acl_ops =
  acl_rules :: "'c \<Rightarrow> AclRule list"
  acl_best :: "'c \<Rightarrow> AclInputData \<Rightarrow> u32"
  acl_create :: "nat \<Rightarrow> nat \<Rightarrow> 'c option"
  acl_add_rules :: "'c \<Rightarrow> AclRule list \<Rightarrow> 'c option"
  acl_build :: "'c \<Rightarrow> nat \<Rightarrow> 'c option"
  acl_set_ctx_classify :: "'c \<Rightarrow> AclAlgorithm \<Rightarrow> 'c option"
  acl_reset_rules :: "'c \<Rightarrow> 'c"
  acl_classify :: "'c \<Rightarrow> AclInputData list \<Rightarrow> u32 list option"

record 'm member_ops =
  member_create :: "nat \<Rightarrow> 'm option"
  member_add :: "'m \<Rightarrow> MemberKey \<Rightarrow> u16 \<Rightarrow> 'm option"
  member_lookup_bulk :: "'m \<Rightarrow> MemberKey list \<Rightarrow> u16 list"

definition RTE_MEMBER_NO_MATCH :: u16 where "RTE_MEMBER_NO_MATCH = 0"
definition RTE_ACL_MAX_PRIORITY :: u32 where "RTE_ACL_MAX_PRIORITY = 0x1FFFFFFF"

section \<open>Filters and rules\<close>

definition ParseProtocol :: "string \<Rightarrow> Protocol option" where
  "ParseProtocol p = (if p = ''tcp'' then Some kTcp else if p = ''udp'' then Some kUdp else None)"

definition ParseAction :: "string \<Rightarrow> Action" where
  "ParseAction action = (if action = ''drop'' then kDrop else kForward)"

definition ParseAclClassifyAlgorithm :: "string \<Rightarrow> RuleError + AclAlgorithm" where
  "ParseAclClassifyAlgorithm a =
     (if a = ''default'' then Inr ClassifyDefault
      else if a = ''scalar'' then Inr ClassifyScalar
      else if a = ''sse'' then Inr ClassifySse
      else if a = ''avx2'' then Inr ClassifyAvx2
      else if a = ''neon'' then Inr ClassifyNeon
      else if a = ''altivec'' then Inr ClassifyAltivec
      else if a = ''avx512x16'' then Inr ClassifyAvx512x16
      else if a = ''avx512x32'' then Inr ClassifyAvx512x32
      else Inl (UnsupportedAlgorithm a))"

definition ApplyAclClassifyAlgorithm :: "'c acl_ops \<Rightarrow> 'c \<Rightarrow> AclAlgorithm \<Rightarrow> 'c option" where
  "ApplyAclClassifyAlgorithm acl ctx algorithm =
     (if algorithm = ClassifyDefault then Some ctx else acl_set_ctx_classify acl ctx algorithm)"

definition kIpProtoTcp :: byte where "kIpProtoTcp = 6"
definition kIpProtoUdp :: byte where "kIpProtoUdp = 17"

definition ProtocolToIpProto :: "Protocol \<Rightarrow> byte" where
  "ProtocolToIpProto p = (if p = kTcp then kIpProtoTcp else kIpProtoUdp)"

definition BuildAclRule :: "CompiledFilter \<Rightarrow> u32 \<Rightarrow> u32 \<Rightarrow> u32 \<Rightarrow> AclRule" where
  "BuildAclRule f group_index filter_index precedence = \<lparr>
     ar_userdata = push_bit 16 (group_index + 1) OR ((filter_index + 1) AND 0xFFFF),
     ar_priority = sint (RTE_ACL_MAX_PRIORITY - precedence),
     ar_category_mask = 1,
     ar_protocol = ProtocolToIpProto (cf_protocol f), ar_protocol_mask = 0xFF,
     ar_src_ip = source_ip_address f, ar_src_length = (if match_source_ip f then 32 else 0),
     ar_dst_ip = (if match_destination_cidr f then destination_network f
                  else if match_destination_ip f then destination_ip_address f else 0),
     ar_dst_length = (if match_destination_cidr f then destination_prefix_length f
                      else if match_destination_ip f then 32 else 0),
     ar_src_port_low = (if match_source_port f then cf_source_port f else 0),
     ar_src_port_high = (if match_source_port f then cf_source_port f else 65535),
     ar_dst_port_low = (if match_destination_port f then cf_destination_port f else 0),
     ar_dst_port_high = (if match_destination_port f then cf_destination_port f else 65535)\<rparr>"

definition CompileFilter :: "inet_ops \<Rightarrow> SpiFilterConfig \<Rightarrow> nat \<Rightarrow> nat \<Rightarrow> RuleError + CompiledFilter" where
  "CompileFilter inet filter_config group_index filter_index =
     (case ParseProtocol (sfc_protocol filter_config) of
        None \<Rightarrow> Inl (FilterProtocolError group_index filter_index)
      | Some proto \<Rightarrow>
     (case (case sfc_source_ip_address filter_config of None \<Rightarrow> Inr 0
            | Some a \<Rightarrow> ParseIpv4Address inet a) of
        Inl e \<Rightarrow> Inl (FilterSourceIpError group_index filter_index e)
      | Inr source_ip \<Rightarrow>
     (case (case sfc_destination_ip_address filter_config of
              None \<Rightarrow> Inr (0, 0, 0, 0, False)
            | Some a \<Rightarrow>
                if IsCidr a
                then (case ParseCidr inet a of Inl e \<Rightarrow> Inl e
                      | Inr (network, msk) \<Rightarrow>
                          Inr (0, network, msk,
                               ucast (strtoul10 (drop (the (find_char (CHR ''/'') a) + 1) a)), True))
                else (case ParseIpv4Address inet a of Inl e \<Rightarrow> Inl e
                      | Inr ip \<Rightarrow> Inr (ip, 0, 0, 0, False))) of
        Inl e \<Rightarrow> Inl (FilterDestinationIpError group_index filter_index e)
      | Inr (dest_ip, dest_network, dest_mask, dest_prefix_len, is_cidr) \<Rightarrow>
          Inr \<lparr>cf_protocol = proto, source_ip_address = source_ip, destination_ip_address = dest_ip,
               destination_network = dest_network, destination_prefix_mask = dest_mask,
               destination_prefix_length = dest_prefix_len,
               cf_source_port = (case sfc_source_port filter_config of None \<Rightarrow> 0 | Some p \<Rightarrow> p),
               cf_destination_port = (case sfc_destination_port filter_config of None \<Rightarrow> 0 | Some p \<Rightarrow> p),
               match_source_ip = (sfc_source_ip_address filter_config \<noteq> None),
               match_destination_ip = (sfc_destination_ip_address filter_config \<noteq> None \<and> \<not> is_cidr),
               match_destination_cidr = is_cidr,
               match_source_port = (sfc_source_port filter_config \<noteq> None),
               match_destination_port = (sfc_destination_port filter_config \<noteq> None),
               cf_label = sfc_label filter_config\<rparr>)))"

definition FilterMatchesPortProtocol :: "CompiledFilter \<Rightarrow> PacketMetadata \<Rightarrow> bool" where
  "FilterMatchesPortProtocol f packet =
     (if cf_protocol f \<noteq> protocol packet then False
      else if match_destination_port f \<and> cf_destination_port f \<noteq> rte_be_to_cpu_16 (destination_port_be packet)
      then False
      else if match_source_port f \<and> cf_source_port f \<noteq> rte_be_to_cpu_16 (source_port_be packet)
      then False else True)"

section \<open>The table\<close>

record ('c, 'm) RuleTable =
  rt_groups :: "CompiledFilterGroup list"
  rt_acl_chunks :: "'c AclChunk list"
  rt_acl_ctx :: "nat option"
  rt_precedence_order :: "u32 list"
  rt_acl_build_max_size :: nat
  rt_acl_classify_algorithm :: AclAlgorithm
  rt_tss :: "TssEntry list"
  rt_tss_size :: nat
  rt_member_ctx :: "'m option"
  rt_has_wildcard_ip_rules :: bool

text \<open>
  \<^verbatim>\<open>acl_ctx_\<close> is always an alias of the context of one chunk: the model keeps the index of
  that chunk.
\<close>

definition kTssCapacity :: nat where "kTssCapacity = 128"
definition kNoTssHit :: u32 where "kNoTssHit = - 1"

definition empty_FlowKey :: FlowKey where
  "empty_FlowKey = \<lparr>src_ip = 0, dst_ip = 0, src_port = 0, dst_port = 0, fk_protocol = kTcp\<rparr>"

definition empty_TssEntry :: TssEntry where
  "empty_TssEntry = \<lparr>te_key = empty_FlowKey, te_group_idx = kNoTssHit\<rparr>"

definition IsTssEligible :: "CompiledFilter \<Rightarrow> bool" where
  "IsTssEligible f \<longleftrightarrow> match_source_ip f \<and> match_destination_ip f \<and> \<not> match_destination_cidr f \<and>
     match_source_port f \<and> match_destination_port f"

definition filter_key :: "CompiledFilter \<Rightarrow> FlowKey" where
  "filter_key f = \<lparr>src_ip = source_ip_address f, dst_ip = destination_ip_address f,
     src_port = cf_source_port f, dst_port = cf_destination_port f, fk_protocol = cf_protocol f\<rparr>"

definition tss_slot :: "u32 \<Rightarrow> nat \<Rightarrow> nat" where
  "tss_slot hash probe = (unat hash + probe) mod kTssCapacity"

definition tss_insert :: "(FlowKey \<Rightarrow> u32) \<Rightarrow> FlowKey \<Rightarrow> u32 \<Rightarrow> TssEntry list \<times> nat \<Rightarrow> TssEntry list \<times> nat" where
  "tss_insert crc key group_idx = (\<lambda>(tss, size).
     case find (\<lambda>probe. te_group_idx (tss ! tss_slot (crc key) probe) = kNoTssHit) [0..<kTssCapacity] of
       None \<Rightarrow> (tss, size)
     | Some probe \<Rightarrow> (tss[tss_slot (crc key) probe := \<lparr>te_key = key, te_group_idx = group_idx\<rparr>], size + 1))"

definition needs_acl :: "CompiledFilter \<Rightarrow> bool" where
  "needs_acl f \<longleftrightarrow> \<not> match_destination_ip f \<and>
     (\<not> match_destination_cidr f \<or> destination_prefix_length f < 20)"

definition BuildTssFromGroups :: "(FlowKey \<Rightarrow> u32) \<Rightarrow> ('c, 'm) RuleTable \<Rightarrow> ('c, 'm) RuleTable" where
  "BuildTssFromGroups crc t =
     (let filters = concat (map (\<lambda>g. map (\<lambda>f. (g, f)) (g_filters g)) (rt_groups t));
          (tss, size) = fold (\<lambda>(g, f) acc.
              if IsTssEligible f then tss_insert crc (filter_key f) (g_category_index g) acc else acc)
            filters (rt_tss t, 0)
      in t\<lparr>rt_tss := tss, rt_tss_size := size,
           rt_has_wildcard_ip_rules := list_ex (\<lambda>(g, f). needs_acl f) filters\<rparr>)"

definition ProbeTss :: "(FlowKey \<Rightarrow> u32) \<Rightarrow> ('c, 'm) RuleTable \<Rightarrow> FlowKey \<Rightarrow> u32" where
  "ProbeTss crc t key =
     (if rt_tss_size t = 0 then kNoTssHit
      else case find (\<lambda>probe. let entry = rt_tss t ! tss_slot (crc key) probe
                             in te_group_idx entry = kNoTssHit \<or> te_key entry = key) [0..<kTssCapacity] of
             None \<Rightarrow> kNoTssHit
           | Some probe \<Rightarrow> te_group_idx (rt_tss t ! tss_slot (crc key) probe))"

definition make_RuleTable ::
    "(FlowKey \<Rightarrow> u32) \<Rightarrow> CompiledFilterGroup list \<Rightarrow> 'c AclChunk list \<Rightarrow> u32 list \<Rightarrow> 'm option \<Rightarrow>
       nat \<Rightarrow> AclAlgorithm \<Rightarrow> ('c, 'm) RuleTable" where
  "make_RuleTable crc groups acl_chunks precedence_order member_ctx max_size algorithm =
     BuildTssFromGroups crc \<lparr>rt_groups = groups, rt_acl_chunks = acl_chunks,
       rt_acl_ctx = (if acl_chunks = [] then None else map_option (\<lambda>_. 0) (ac_ctx (acl_chunks ! 0))),
       rt_precedence_order = precedence_order, rt_acl_build_max_size = max_size,
       rt_acl_classify_algorithm = algorithm, rt_tss = replicate kTssCapacity empty_TssEntry,
       rt_tss_size = 0, rt_member_ctx = member_ctx, rt_has_wildcard_ip_rules = False\<rparr>"

text \<open>
  The move constructor. The members it does not name are default-initialised: the
  tuple-space table, its size and the wildcard flag are not carried over.
\<close>

definition RuleTable_move :: "('c, 'm) RuleTable \<Rightarrow> ('c, 'm) RuleTable" where
  "RuleTable_move other = other\<lparr>rt_tss := replicate kTssCapacity empty_TssEntry, rt_tss_size := 0,
     rt_has_wildcard_ip_rules := False\<rparr>"

definition result_of_match :: "CompiledFilterGroup \<Rightarrow> string \<Rightarrow> ClassificationResult" where
  "result_of_match g label = \<lparr>cr_group_name = g_name g, cr_label = label,
     cr_group_precedence = g_precedence g, cr_bound_dpi_filter_index = g_bound_dpi_filter_index g,
     cr_action = g_action g, cr_matched = True, cr_l7_required = g_l7_required g\<rparr>"

definition ResultForCategory :: "('c, 'm) RuleTable \<Rightarrow> u32 \<Rightarrow> ClassificationResult" where
  "ResultForCategory t cat_index =
     (if length (rt_groups t) \<le> unat cat_index then no_classification
      else result_of_match (rt_groups t ! unat cat_index) [])"

definition RuleTable_FilterCount :: "('c, 'm) RuleTable \<Rightarrow> nat" where
  "RuleTable_FilterCount t = sum_list (map (\<lambda>g. length (g_filters g)) (rt_groups t))"

section \<open>Matching\<close>

definition acl_input_of :: "PacketMetadata \<Rightarrow> AclInputData" where
  "acl_input_of packet = \<lparr>
     ai_src_ip_be = (if ip_version packet = kIpv4 then source_ip_be packet
                     else le_load (take 4 (source_ip6_address packet))),
     ai_dst_ip_be = (if ip_version packet = kIpv4 then destination_ip_be packet
                     else le_load (take 4 (destination_ip6_address packet))),
     ai_src_port_be = source_port_be packet, ai_dst_port_be = destination_port_be packet,
     ai_protocol = ProtocolToIpProto (protocol packet)\<rparr>"

text \<open>Decoding the user data of one classification against the groups.\<close>

definition decode_userdata ::
    "CompiledFilterGroup list \<Rightarrow> PacketMetadata \<Rightarrow> u32 \<Rightarrow> ClassificationResult option" where
  "decode_userdata groups packet userdata =
     (if userdata = 0 then None
      else let group_idx = drop_bit 16 userdata - 1; filter_idx = (userdata AND 0xFFFF) - 1 in
        if unat group_idx < length groups then
          let g = groups ! unat group_idx in
          if unat filter_idx < length (g_filters g) \<and>
             FilterMatchesPortProtocol (g_filters g ! unat filter_idx) packet
          then Some (result_of_match g (cf_label (g_filters g ! unat filter_idx)))
          else None
        else None)"

fun match_chunks ::
    "'c acl_ops \<Rightarrow> CompiledFilterGroup list \<Rightarrow> PacketMetadata \<Rightarrow> 'c AclChunk list \<Rightarrow> ClassificationResult" where
  "match_chunks acl groups packet [] = no_classification"
| "match_chunks acl groups packet (chunk # chunks) =
     (case Option.bind (ac_ctx chunk) (\<lambda>ctx. acl_classify acl ctx [acl_input_of packet]) of
        None \<Rightarrow> match_chunks acl groups packet chunks
      | Some results \<Rightarrow>
          (case decode_userdata groups packet (results ! 0) of
             Some r \<Rightarrow> r
           | None \<Rightarrow> match_chunks acl groups packet chunks))"

definition RuleTable_Match :: "'c acl_ops \<Rightarrow> ('c, 'm) RuleTable \<Rightarrow> PacketMetadata \<Rightarrow> ClassificationResult" where
  "RuleTable_Match acl t packet =
     (if rt_acl_chunks t = [] \<and> rt_acl_ctx t = None then no_classification
      else match_chunks acl (rt_groups t) packet (rt_acl_chunks t))"

text \<open>The bulk variant: each chunk is classified for the whole burst, filling unmatched results.\<close>

definition bulk_step ::
    "CompiledFilterGroup list \<Rightarrow> PacketMetadata list \<Rightarrow> u32 list \<Rightarrow> ClassificationResult list \<Rightarrow>
       ClassificationResult list" where
  "bulk_step groups packets userdata results =
     map (\<lambda>(packet, ud, r). if cr_matched r then r
            else case decode_userdata groups packet ud of Some r' \<Rightarrow> r' | None \<Rightarrow> r)
       (zip packets (zip userdata results))"

fun match_bulk_chunks ::
    "'c acl_ops \<Rightarrow> CompiledFilterGroup list \<Rightarrow> PacketMetadata list \<Rightarrow> 'c AclChunk list \<Rightarrow>
       ClassificationResult list \<Rightarrow> ClassificationResult list" where
  "match_bulk_chunks acl groups packets [] results = results"
| "match_bulk_chunks acl groups packets (chunk # chunks) results =
     (case Option.bind (ac_ctx chunk) (\<lambda>ctx. acl_classify acl ctx (map acl_input_of packets)) of
        None \<Rightarrow> match_bulk_chunks acl groups packets chunks results
      | Some userdata \<Rightarrow>
          let results = bulk_step groups packets userdata results in
          if list_all cr_matched results then results
          else match_bulk_chunks acl groups packets chunks results)"

definition RuleTable_MatchBulk ::
    "'c acl_ops \<Rightarrow> ('c, 'm) RuleTable \<Rightarrow> PacketMetadata list \<Rightarrow> ClassificationResult list \<Rightarrow>
       ClassificationResult list" where
  "RuleTable_MatchBulk acl t packets results =
     (if packets = [] then results
      else if rt_acl_chunks t = [] \<and> rt_acl_ctx t = None
      then replicate (length packets) no_classification @ drop (length packets) results
      else let burst_size = min (length packets) 64; burst = take burst_size packets
           in match_bulk_chunks acl (rt_groups t) burst (rt_acl_chunks t)
                (replicate burst_size no_classification) @ drop burst_size results)"

text \<open>A destination-only lookup cannot stand in for the ACL: the code does nothing here.\<close>

definition FibLookupBulk :: "('c, 'm) RuleTable \<Rightarrow> PacketMetadata list \<Rightarrow> ClassificationResult list \<Rightarrow> ClassificationResult list" where
  "FibLookupBulk t packets results = results"

definition packet_member_key :: "PacketMetadata \<Rightarrow> u16 \<Rightarrow> MemberKey" where
  "packet_member_key packet port = \<lparr>mk_dst_ip_be = destination_ip_be packet, mk_dst_port_be = port,
     mk_protocol = ProtocolToIpProto (protocol packet)\<rparr>"

text \<open>
  \<^verbatim>\<open>MemberFilterBulk\<close>: pass 1 looks up every exact key, pass 2 the key without port for those
  that missed; whoever misses both is marked to skip the ACL.
\<close>

definition MemberFilterBulk ::
    "'m member_ops \<Rightarrow> ('c, 'm) RuleTable \<Rightarrow> PacketMetadata list \<Rightarrow> bool list \<Rightarrow> bool list" where
  "MemberFilterBulk member t packets skip_acl =
     (case rt_member_ctx t of None \<Rightarrow> skip_acl
      | Some ctx \<Rightarrow>
          if rt_has_wildcard_ip_rules t then skip_acl
          else let n = min (length packets) 64; burst = take n packets;
                   set_ids = member_lookup_bulk member ctx
                     (map (\<lambda>p. packet_member_key p (destination_port_be p)) burst);
                   wild_indices = filter (\<lambda>i. set_ids ! i = RTE_MEMBER_NO_MATCH) [0..<n];
                   wild_set_ids = member_lookup_bulk member ctx
                     (map (\<lambda>i. packet_member_key (burst ! i) 0) wild_indices);
                   set_ids = fold (\<lambda>(i, id) ids. if id \<noteq> RTE_MEMBER_NO_MATCH then ids[i := id] else ids)
                     (zip wild_indices wild_set_ids) set_ids
               in map (\<lambda>i. if i < n \<and> set_ids ! i = RTE_MEMBER_NO_MATCH then True else skip_acl ! i)
                    [0..<length skip_acl])"

section \<open>Compilation\<close>

subsection \<open>Splitting the groups between parser threads\<close>

text \<open>The inner loop: take groups until the target number of rules is reached.\<close>

function take_groups :: "nat list \<Rightarrow> nat \<Rightarrow> nat \<Rightarrow> nat \<Rightarrow> nat \<Rightarrow> nat \<times> nat" where
  "take_groups counts max_end target next_group assigned =
     (if next_group < max_end \<and> (assigned = 0 \<or> assigned + counts ! next_group \<le> target)
      then take_groups counts max_end target (next_group + 1) (assigned + counts ! next_group)
      else (next_group, assigned))"
  by pat_completeness auto

termination
  by (relation "measure (\<lambda>(counts, max_end, target, next_group, assigned). max_end - next_group)") auto

declare take_groups.simps [simp del]

text \<open>The loop over the workers still to be served, with the rules still to be assigned.\<close>

fun parse_ranges_from :: "nat list \<Rightarrow> nat \<Rightarrow> nat \<Rightarrow> nat \<Rightarrow> (nat \<times> nat) list" where
  "parse_ranges_from counts 0 start_group remaining_rules = []"
| "parse_ranges_from counts (Suc w) start_group remaining_rules =
     (let remaining_workers = Suc w;
          max_end = length counts - (remaining_workers - 1);
          target_rules = (remaining_rules + remaining_workers - 1) div remaining_workers;
          (next_group, assigned) = take_groups counts max_end target_rules start_group 0;
          (next_group, assigned) = (if next_group = start_group
             then (next_group + 1, assigned + counts ! next_group) else (next_group, assigned))
      in (start_group, next_group) #
         parse_ranges_from counts w next_group (remaining_rules - assigned))"

definition parse_ranges :: "nat list \<Rightarrow> nat \<Rightarrow> (nat \<times> nat) list" where
  "parse_ranges counts parse_threads =
     parse_ranges_from counts (min parse_threads (length counts)) 0 (sum_list counts)"

subsection \<open>Parsing\<close>

definition default_group :: CompiledFilterGroup where
  "default_group = \<lparr>g_name = [], g_precedence = 100, g_action = kForward, g_filters = [],
     g_category_index = 0, g_l7_required = False, g_bound_dpi_filter_index = kNoDpiLink,
     g_bound_dpi_name = []\<rparr>"

fun compile_filters :: "inet_ops \<Rightarrow> nat \<Rightarrow> nat \<Rightarrow> SpiFilterConfig list \<Rightarrow> RuleError + CompiledFilter list" where
  "compile_filters inet gi fi [] = Inr []"
| "compile_filters inet gi fi (c # cs) =
     (case CompileFilter inet c gi fi of Inl e \<Rightarrow> Inl e
      | Inr f \<Rightarrow> (case compile_filters inet gi (Suc fi) cs of Inl e \<Rightarrow> Inl e | Inr fs \<Rightarrow> Inr (f # fs)))"

definition compile_group :: "inet_ops \<Rightarrow> nat \<Rightarrow> SpiFilterGroupConfig \<Rightarrow> RuleError + CompiledFilterGroup" where
  "compile_group inet gi c =
     (case compile_filters inet gi 0 (sgc_filters c) of Inl e \<Rightarrow> Inl e
      | Inr fs \<Rightarrow> Inr \<lparr>g_name = sgc_name c, g_precedence = sgc_precedence c,
          g_action = ParseAction (sgc_action c), g_filters = fs, g_category_index = of_nat gi,
          g_l7_required = sgc_l7_required c, g_bound_dpi_filter_index = kNoDpiLink,
          g_bound_dpi_name = sgc_dpi_filter_group c\<rparr>)"

fun parse_indices ::
    "inet_ops \<Rightarrow> SpiFilterGroupConfig list \<Rightarrow> nat list \<Rightarrow> CompiledFilterGroup list \<Rightarrow>
       RuleError + CompiledFilterGroup list" where
  "parse_indices inet configs [] groups = Inr groups"
| "parse_indices inet configs (i # is) groups =
     (case compile_group inet i (configs ! i) of Inl e \<Rightarrow> Inl e
      | Inr g \<Rightarrow> parse_indices inet configs is (groups[i := g]))"

text \<open>\<open>affinity\<close> says whether setting the thread affinity succeeds.\<close>

fun parse_all ::
    "inet_ops \<Rightarrow> bool \<Rightarrow> SpiFilterGroupConfig list \<Rightarrow> (nat \<times> nat) list \<Rightarrow> CompiledFilterGroup list \<Rightarrow>
       RuleError + CompiledFilterGroup list" where
  "parse_all inet affinity configs [] groups = Inr groups"
| "parse_all inet affinity configs ((start, stop) # ranges) groups =
     (if \<not> affinity then Inl AffinityError
      else case parse_indices inet configs [start..<stop] groups of Inl e \<Rightarrow> Inl e
           | Inr groups \<Rightarrow> parse_all inet affinity configs ranges groups)"

definition sort_groups :: "CompiledFilterGroup list \<Rightarrow> CompiledFilterGroup list" where
  "sort_groups groups = map (\<lambda>(i, g). g\<lparr>g_category_index := of_nat i\<rparr>)
     (List.enumerate 0 (sort_key g_precedence groups))"

subsection \<open>Chunks\<close>

definition kAclMaxCategoriesChunk :: nat where "kAclMaxCategoriesChunk = 256"

definition chunk_rule_count :: "CompiledFilterGroup list \<Rightarrow> nat \<Rightarrow> nat \<Rightarrow> nat" where
  "chunk_rule_count groups start n = sum_list (map (\<lambda>i. length (g_filters (groups ! (start + i)))) [0..<n])"

text \<open>The tasks: start and size of each chunk that has rules, numbered in order.\<close>

definition task_specs :: "CompiledFilterGroup list \<Rightarrow> (nat \<times> nat \<times> nat) list" where
  "task_specs groups =
     List.enumerate 0 (filter (\<lambda>(start, n). 0 < chunk_rule_count groups start n)
       (map (\<lambda>k. (k * kAclMaxCategoriesChunk,
                   min kAclMaxCategoriesChunk (length groups - k * kAclMaxCategoriesChunk)))
         [0..<(length groups + kAclMaxCategoriesChunk - 1) div kAclMaxCategoriesChunk]))"

definition group_rules :: "nat \<Rightarrow> CompiledFilterGroup \<Rightarrow> AclRule list" where
  "group_rules gi g = map (\<lambda>(fi, f). BuildAclRule f (of_nat gi) (of_nat fi) (g_precedence g))
     (List.enumerate 0 (g_filters g))"

definition chunk_rules :: "CompiledFilterGroup list \<Rightarrow> nat \<Rightarrow> nat \<Rightarrow> AclRule list" where
  "chunk_rules groups start n = concat (map (\<lambda>i. group_rules (start + i) (groups ! (start + i))) [0..<n])"

definition compile_chunk ::
    "'c acl_ops \<Rightarrow> bool \<Rightarrow> AclAlgorithm \<Rightarrow> nat \<Rightarrow> CompiledFilterGroup list \<Rightarrow> nat \<times> nat \<times> nat \<Rightarrow>
       RuleError + 'c AclChunk" where
  "compile_chunk acl affinity algorithm max_size groups = (\<lambda>(chunk_id, start, n).
     if \<not> affinity then Inl AffinityError
     else case acl_create acl chunk_id (chunk_rule_count groups start n) of
            None \<Rightarrow> Inl (AclCreateFailed chunk_id)
          | Some ctx \<Rightarrow>
     (case acl_add_rules acl ctx (chunk_rules groups start n) of
            None \<Rightarrow> Inl (AclAddRulesFailed chunk_id)
          | Some ctx \<Rightarrow>
     (case acl_build acl ctx max_size of
            None \<Rightarrow> Inl (AclBuildFailed chunk_id)
          | Some ctx \<Rightarrow>
     (case ApplyAclClassifyAlgorithm acl ctx algorithm of
            None \<Rightarrow> Inl (AclClassifierFailed chunk_id)
          | Some ctx \<Rightarrow> Inr \<lparr>ac_ctx = Some ctx, ac_start_group_index = start, ac_group_count = n\<rparr>))))"

fun compile_chunks ::
    "(nat \<times> nat \<times> nat \<Rightarrow> RuleError + 'c AclChunk) \<Rightarrow> (nat \<times> nat \<times> nat) list \<Rightarrow> RuleError + 'c AclChunk list" where
  "compile_chunks f [] = Inr []"
| "compile_chunks f (spec # specs) =
     (case f spec of Inl e \<Rightarrow> Inl e
      | Inr c \<Rightarrow> (case compile_chunks f specs of Inl e \<Rightarrow> Inl e | Inr cs \<Rightarrow> Inr (c # cs)))"

subsection \<open>Membership\<close>

definition member_key_for :: "CompiledFilter \<Rightarrow> u32 \<Rightarrow> MemberKey" where
  "member_key_for f ip = \<lparr>mk_dst_ip_be = rte_be_to_cpu_32 ip,
     mk_dst_port_be = (if match_destination_port f then rte_be_to_cpu_16 (cf_destination_port f) else 0),
     mk_protocol = ProtocolToIpProto (cf_protocol f)\<rparr>"

definition filter_member_keys :: "CompiledFilter \<Rightarrow> MemberKey list" where
  "filter_member_keys f =
     (if match_destination_ip f then [member_key_for f (destination_ip_address f)]
      else if match_destination_cidr f \<and> 20 \<le> destination_prefix_length f
      then map (\<lambda>host. member_key_for f (destination_network f + of_nat host))
             [0..<2 ^ (32 - unat (destination_prefix_length f))]
      else [])"

definition all_member_keys :: "CompiledFilterGroup list \<Rightarrow> (MemberKey \<times> u16) list" where
  "all_member_keys groups = concat (map (\<lambda>(gi, g).
     map (\<lambda>k. (k, of_nat (gi + 1))) (concat (map filter_member_keys (g_filters g))))
     (List.enumerate 0 groups))"

definition build_member :: "'m member_ops \<Rightarrow> CompiledFilterGroup list \<Rightarrow> 'm option" where
  "build_member member groups =
     (let keys = all_member_keys groups in
      if keys = [] then None
      else map_option (\<lambda>ctx. fold (\<lambda>(k, id) ctx. case member_add member ctx k id of
                                       Some ctx' \<Rightarrow> ctx' | None \<Rightarrow> ctx) keys ctx)
             (member_create member (length keys)))"

subsection \<open>The whole table\<close>

definition CompileRuleTable ::
    "inet_ops \<Rightarrow> 'c acl_ops \<Rightarrow> 'm member_ops \<Rightarrow> (FlowKey \<Rightarrow> u32) \<Rightarrow> nat \<Rightarrow> bool \<Rightarrow> SpiConfig \<Rightarrow>
       RuleError + ('c, 'm) RuleTable" where
  "CompileRuleTable inet acl member crc cpu_count affinity config =
     (let total_groups = length (filter_groups config);
          available_cpus = max 1 cpu_count;
          parse_threads = min (max (max_compilation_threads config) 1) available_cpus
      in case ParseAclClassifyAlgorithm (acl_classify_algorithm config) of Inl e \<Rightarrow> Inl e
         | Inr algorithm \<Rightarrow>
           if (2 ^ 64 - 1) div kBytesPerMiB < acl_build_max_size_mb config then Inl BuildMaxSizeTooLarge
           else let max_size = acl_build_max_size_mb config * kBytesPerMiB;
                    ranges = parse_ranges (map (\<lambda>g. length (sgc_filters g)) (filter_groups config)) parse_threads
           in case parse_all inet affinity (filter_groups config) ranges
                     (replicate total_groups default_group) of Inl e \<Rightarrow> Inl e
              | Inr parsed \<Rightarrow>
                let groups = sort_groups parsed in
                if sum_list (map (\<lambda>g. length (g_filters g)) groups) = 0 then Inl NoSpiRules
                else case compile_chunks (compile_chunk acl affinity algorithm max_size groups)
                            (task_specs groups) of Inl e \<Rightarrow> Inl e
                     | Inr chunks \<Rightarrow>
                         Inr (RuleTable_move (make_RuleTable crc groups chunks
                           (map of_nat [0..<length groups]) (build_member member groups) max_size algorithm)))"

definition RebuildInPlace ::
    "'c acl_ops \<Rightarrow> (FlowKey \<Rightarrow> u32) \<Rightarrow> CompiledFilterGroup list \<Rightarrow> u32 list \<Rightarrow> ('c, 'm) RuleTable \<Rightarrow>
       ('c, 'm) RuleTable \<times> (RuleError + unit)" where
  "RebuildInPlace acl crc new_groups new_order t =
     (case Option.bind (rt_acl_ctx t) (\<lambda>i. map_option (\<lambda>ctx. (i, ctx)) (ac_ctx (rt_acl_chunks t ! i))) of
        None \<Rightarrow> (t, Inl RebuildWithoutContext)
      | Some (i, ctx) \<Rightarrow>
          let put = (\<lambda>ctx. t\<lparr>rt_acl_chunks := (rt_acl_chunks t)[i := (rt_acl_chunks t ! i)\<lparr>ac_ctx := Some ctx\<rparr>]\<rparr>);
              ctx = acl_reset_rules acl ctx;
              rules = concat (map (\<lambda>(gi, g). group_rules gi g) (List.enumerate 0 new_groups))
          in if rules = [] then (put ctx, Inl RebuildWithoutRules)
             else case acl_add_rules acl ctx rules of None \<Rightarrow> (put ctx, Inl RebuildAddFailed)
             | Some ctx \<Rightarrow> (case acl_build acl ctx (rt_acl_build_max_size t) of
                 None \<Rightarrow> (put ctx, Inl RebuildBuildFailed)
               | Some ctx \<Rightarrow> (case ApplyAclClassifyAlgorithm acl ctx (rt_acl_classify_algorithm t) of
                   None \<Rightarrow> (put ctx, Inl RebuildClassifierFailed)
                 | Some ctx \<Rightarrow> (BuildTssFromGroups crc ((put ctx)\<lparr>rt_groups := new_groups,
                                  rt_precedence_order := new_order\<rparr>), Inr ()))))"

text \<open>Resolving the DPI links, group by group; an unresolved name stops the pass.\<close>

fun resolve_groups ::
    "'d DpiRuleTable \<Rightarrow> CompiledFilterGroup list \<Rightarrow> CompiledFilterGroup list \<times> (RuleError + unit)" where
  "resolve_groups dpi [] = ([], Inr ())"
| "resolve_groups dpi (g # gs) =
     (if g_bound_dpi_name g = [] then (let (gs', r) = resolve_groups dpi gs in (g # gs', r))
      else case Dpi_FindByFilterGroup dpi (g_bound_dpi_name g) of
             None \<Rightarrow> (g # gs, Inl (DpiGroupNotFound (g_name g) (g_bound_dpi_name g)))
           | Some idx \<Rightarrow>
               let (gs', r) = resolve_groups dpi gs
               in (g\<lparr>g_bound_dpi_filter_index := idx, g_bound_dpi_name := []\<rparr> # gs', r))"

definition ResolveDpiLinks ::
    "'d DpiRuleTable \<Rightarrow> ('c, 'm) RuleTable \<Rightarrow> ('c, 'm) RuleTable \<times> (RuleError + unit)" where
  "ResolveDpiLinks dpi t =
     (let (gs, r) = resolve_groups dpi (rt_groups t) in (t\<lparr>rt_groups := gs\<rparr>, r))"

end
