(* ===== verification/Pipeline.thy ===== *)
theory Pipeline
  imports Pipeline_Counters L3_Forward Environment Rule_Engine Hostname_Cache
begin

text \<open>
  The packet path of the pipeline (\<^verbatim>\<open>spi/spi_pipeline.hpp\<close>, \<^verbatim>\<open>spi/spi_pipeline.cpp\<close>):
  classification of one packet on the flow-hash path, of a burst on the queue path, DPI, forwarding
  and transmission. What a worker reaches through pointers (tables, reassembler, cache, rings)
  is part of its record, so one record holds all that a burst may change; \<open>Burst\<close> adds what
  is local to a burst: its counters and the transmit buffers. Everything of DPDK and Hyperscan
  is the parameter \<open>dpdk_ops\<close>. Every reading of the time stamp counter may give any value.
  A write behind the end of a transmit buffer and a read outside a packet do not stop the model;
  they are recorded in \<open>b_faults\<close>. \<open>b_held\<close> and \<open>b_redispatched\<close> count the packets that were left
  with the fragment table and handed to another worker.
\<close>

section \<open>Data\<close>

definition kMaxBurstCapacity :: nat where "kMaxBurstCapacity = 256"
definition kTlsPort :: u16 where "kTlsPort = 443"
definition kHttpPort :: u16 where "kHttpPort = 80"
definition kPacketWaitingForFragments :: u16 where "kPacketWaitingForFragments = 65534"
definition kPacketUnmapped :: u16 where "kPacketUnmapped = 65535"

datatype PacketDistribution = kQueuePerWorker | kFlowHash

record PacketClassification =
  pc_metadata :: PacketMetadata
  pc_action :: Action
  pc_parsed :: bool
  pc_matched :: bool
  pc_redispatch :: bool

datatype Fault = TransmitBufferOverrun | PacketReadOutOfRange

record ('c, 'm, 'd, 'f, 'r) dpdk_ops =
  dpdk_pkt :: "'f pkt_ops"
  dpdk_cksum :: cksum_ops
  dpdk_acl :: "'c acl_ops"
  dpdk_member :: "'m member_ops"
  dpdk_crc :: "FlowKey \<Rightarrow> u32"
  dpdk_hs :: "'d hs_ops"
  dpdk_hs_scratch :: bool
  dpdk_rdtsc :: "nat \<Rightarrow> u64"
  dpdk_ring_enqueue :: "'r \<Rightarrow> Mbuf \<Rightarrow> 'r option"
  dpdk_tx_burst :: "nat \<Rightarrow> u16 \<Rightarrow> u16 \<Rightarrow> Mbuf list \<Rightarrow> nat"
  dpdk_frag_del_expired :: "'f \<Rightarrow> u64 \<Rightarrow> 'f"

text \<open>The driver never sends more packets than it is given.\<close>

definition tx_contract :: "('c, 'm, 'd, 'f, 'r) dpdk_ops \<Rightarrow> bool" where
  "tx_contract ops \<longleftrightarrow> (\<forall>t port queue packets. dpdk_tx_burst ops t port queue packets \<le> length packets)"

record ('c, 'm, 'd, 'h, 'f, 'r) WorkerContext =
  wc_environment :: Environment
  wc_rules :: "('c, 'm) RuleTable"
  wc_dpi_rules :: "'d DpiRuleTable option"
  wc_flow_table :: "'h FlowTable"
  wc_ip_frag_tbl :: "'f option"
  wc_tcp_reassembler :: "TcpStreamReassembler option"
  wc_l3_routes :: "L3RouteEntry list option"
  wc_ethernet_destinations :: "EthernetDestinationEntry list option"
  wc_stats :: PipelineStats
  wc_pending_burst :: BurstCounters
  wc_bursts_since_flush :: u32
  wc_rule_match_counts :: "u64 list"
  wc_flow_hash_rings :: "'r list"
  wc_burst_size :: u16
  wc_worker_id :: u16
  wc_mac_updating :: bool
  wc_l3_forwarding :: bool
  wc_drop_unmatched :: bool
  wc_flow_overflow_drop :: bool
  wc_dpi_hostname_cache :: HostnameCache
  wc_current_burst_tsc :: u64
  wc_fragment_timeout_cycles :: u64
  wc_fragment_cleanup_interval_cycles :: u64
  wc_last_fragment_cleanup_tsc :: u64
  wc_clock :: nat

record ('c, 'm, 'd, 'h, 'f, 'r) Burst = "('c, 'm, 'd, 'h, 'f, 'r) WorkerContext" +
  b_counters :: BurstCounters
  b_transmit :: "Mbuf list list"
  b_faults :: "Fault list"
  b_held :: nat
  b_redispatched :: nat

text \<open>\<^verbatim>\<open>++counters.x\<close>, a reading of the clock, and a fault.\<close>

definition bump :: "((u64 \<Rightarrow> u64) \<Rightarrow> BurstCounters \<Rightarrow> BurstCounters) \<Rightarrow>
    ('c, 'm, 'd, 'h, 'f, 'r) Burst \<Rightarrow> ('c, 'm, 'd, 'h, 'f, 'r) Burst" where
  "bump counter b = b\<lparr>b_counters := counter (\<lambda>n. n + 1) (b_counters b)\<rparr>"

definition rte_rdtsc :: "('c, 'm, 'd, 'f, 'r) dpdk_ops \<Rightarrow> ('c, 'm, 'd, 'h, 'f, 'r) Burst \<Rightarrow>
    u64 \<times> ('c, 'm, 'd, 'h, 'f, 'r) Burst" where
  "rte_rdtsc ops b = (dpdk_rdtsc ops (wc_clock b), b\<lparr>wc_clock := wc_clock b + 1\<rparr>)"

definition fault :: "Fault \<Rightarrow> ('c, 'm, 'd, 'h, 'f, 'r) Burst \<Rightarrow> ('c, 'm, 'd, 'h, 'f, 'r) Burst" where
  "fault f b = b\<lparr>b_faults := b_faults b @ [f]\<rparr>"

section \<open>Distribution\<close>

definition MixHash :: "u32 \<Rightarrow> u32 \<Rightarrow> u32" where
  "MixHash hash v = fold (\<lambda>shift h. (h XOR ucast (ucast (drop_bit shift v) :: byte)) * 16777619) [0, 8, 16, 24] hash"

definition hash_ports :: "u32 \<Rightarrow> bytes \<Rightarrow> nat \<Rightarrow> u32" where
  "hash_ports hash frame l4_offset =
     MixHash (MixHash hash (ucast (rte_be_to_cpu_16 (le_load (subspan l4_offset 2 frame)))))
       (ucast (rte_be_to_cpu_16 (le_load (subspan (l4_offset + 2) 2 frame))))"

definition HashPacketFlow :: "'f pkt_ops \<Rightarrow> Mbuf \<Rightarrow> u16 \<Rightarrow> u32" where
  "HashPacketFlow ops packet receive_port =
     (let hash = MixHash 2166136261 (ucast receive_port); frame = mtod packet in
      if data_len packet < ether_hdr_size then hash
      else let ether_type = rte_be_to_cpu_16 (ether_type_of frame); hash = MixHash hash (ucast ether_type) in
        if ether_type = RTE_ETHER_TYPE_IPV6 then
          if data_len packet < ether_hdr_size + ipv6_hdr_size then hash
          else let ipv6_hdr = ipv6_hdr_of (subspan ether_hdr_size ipv6_hdr_size frame);
                   hash = MixHash hash (ucast (i6_proto ipv6_hdr));
                   hash = fold (\<lambda>b h. MixHash h (ucast b)) (i6_src_addr ipv6_hdr) hash;
                   hash = fold (\<lambda>b h. MixHash h (ucast b)) (i6_dst_addr ipv6_hdr) hash;
                   fragment_offset = ether_hdr_size + ipv6_hdr_size
               in if i6_proto ipv6_hdr = IPPROTO_FRAGMENT \<and> fragment_offset + ipv6_fragment_ext_size \<le> data_len packet
                  then MixHash hash (rte_be_to_cpu_32 (le_load (subspan (fragment_offset + 4) 4 frame)))
                  else hash
        else if ether_type \<noteq> RTE_ETHER_TYPE_IPV4 \<or> data_len packet < ether_hdr_size + ipv4_hdr_size then hash
        else let ipv4_hdr = ipv4_hdr_of (subspan ether_hdr_size ipv4_hdr_size frame);
                 ipv4_header_len = hdr_len_of ops ipv4_hdr
             in if unat ipv4_header_len < ipv4_hdr_size then hash
                else let hash = MixHash hash (rte_be_to_cpu_32 (ih_src_addr ipv4_hdr));
                         hash = MixHash hash (rte_be_to_cpu_32 (ih_dst_addr ipv4_hdr));
                         hash = MixHash hash (ucast (ih_next_proto_id ipv4_hdr))
                     in if pkt_is_fragmented ops ipv4_hdr
                        then MixHash hash (ucast (rte_be_to_cpu_16 (le_load (subspan (ether_hdr_size + 4) 2 frame))))
                        else let l4_offset = ether_hdr_size + unat ipv4_header_len in
                          if data_len packet < l4_offset + udp_hdr_size then hash
                          else if ih_next_proto_id ipv4_hdr = IPPROTO_TCP
                          then if data_len packet < l4_offset + tcp_hdr_size then hash else hash_ports hash frame l4_offset
                          else if ih_next_proto_id ipv4_hdr = IPPROTO_UDP then hash_ports hash frame l4_offset
                          else hash)"

definition ResolvePacketDistribution :: "Environment \<Rightarrow> string \<Rightarrow> nat \<Rightarrow> PacketDistribution" where
  "ResolvePacketDistribution environment configured_mode workers =
     (if configured_mode = ''queue'' then kQueuePerWorker
      else if configured_mode = ''flow_hash'' then kFlowHash
      else if workers \<le> 1 then kQueuePerWorker
      else if \<not> ActivePortsSupportRss environment then kFlowHash
      else if HasPcapPort environment then kQueuePerWorker
      else if HasSoftwareBackedPort environment then kFlowHash
      else if unat (GetReceiveQueueCount environment) < workers then kFlowHash
      else kQueuePerWorker)"

definition GetWorkerLcores :: "u32 list \<Rightarrow> nat \<Rightarrow> u32 list" where
  "GetWorkerLcores available workers = take workers available"

section \<open>Classification\<close>

definition insert_flow ::
    "('c, 'm, 'd, 'f, 'r) dpdk_ops \<Rightarrow> FlowKey \<Rightarrow> Action \<Rightarrow> ('c, 'm, 'd, 'h, 'f, 'r) Burst \<Rightarrow>
       ('c, 'm, 'd, 'h, 'f, 'r) Burst \<times> FlowInsertResult" where
  "insert_flow ops key action b =
     (let (tsc, b) = rte_rdtsc ops b; (t, r) = Flow_Insert key 1 action tsc (wc_flow_table b)
      in (b\<lparr>wc_flow_table := t\<rparr>, r))"

definition classification :: "PacketMetadata \<Rightarrow> Action \<Rightarrow> bool \<Rightarrow> PacketClassification" where
  "classification metadata action is_match = \<lparr>pc_metadata = metadata, pc_action = action, pc_parsed = True,
     pc_matched = is_match, pc_redispatch = False\<rparr>"

definition MakeMatched ::
    "('c, 'm, 'd, 'f, 'r) dpdk_ops \<Rightarrow> PacketMetadata \<Rightarrow> Action \<Rightarrow> FlowKey \<Rightarrow> ('c, 'm, 'd, 'h, 'f, 'r) Burst \<Rightarrow>
       ('c, 'm, 'd, 'h, 'f, 'r) Burst \<times> PacketClassification" where
  "MakeMatched ops metadata action key b =
     (case insert_flow ops key action b of
        (b, kOk) \<Rightarrow> (bump c_matched_update b, classification metadata action True)
      | (b, kFull) \<Rightarrow>
          let b = bump c_flow_table_full_update b in
          if wc_flow_overflow_drop b then (bump c_matched_update b, classification metadata kDrop True)
          else (bump c_unknown_update b, classification metadata kForward False))"

text \<open>
  \<^verbatim>\<open>ExtractHostname\<close> reads the IPv4 header length at its place in the first segment, without
  checking the version.
\<close>

definition ExtractHostname :: "'f pkt_ops \<Rightarrow> Mbuf \<Rightarrow> PacketMetadata \<Rightarrow> AccessError + PacketMetadata" where
  "ExtractHostname ops packet metadata =
     and_then (span_at (mtod packet) ether_hdr_size) (\<lambda>_.
       let ip_hdr = ipv4_hdr_of (take ipv4_hdr_size (drop ether_hdr_size (mtod packet) @ replicate ipv4_hdr_size 0));
           l4_off = ether_hdr_size + unat (hdr_len_of ops ip_hdr);
           payload_off = (if protocol metadata \<noteq> kTcp then Some l4_off
             else case pktmbuf_read ops packet l4_off tcp_hdr_size of None \<Rightarrow> None
               | Some tcp_hdr \<Rightarrow>
                   let tcp_hdr_len = unat (drop_bit 4 (th_data_off (tcp_hdr_of tcp_hdr))) * 4
                   in if tcp_hdr_len < tcp_hdr_size then None else Some (l4_off + tcp_hdr_len));
           dst_port = rte_be_to_cpu_16 (destination_port_be metadata);
           found = (\<lambda>name. Inr (case name of None \<Rightarrow> metadata | Some _ \<Rightarrow> metadata\<lparr>hostname := name\<rparr>))
       in case payload_off of None \<Rightarrow> Inr metadata
          | Some off \<Rightarrow>
              if dst_port = kTlsPort then and_then (ExtractTlsSniPacket ops packet (of_nat off)) found
              else if dst_port = kHttpPort then and_then (ExtractHttpHostPacket ops packet (of_nat off)) found
              else Inr metadata)"

text \<open>The index of a result in the table, as the loop over the filters leaves it.\<close>

definition filter_index_of :: "'d DpiRuleTable \<Rightarrow> DpiResult \<Rightarrow> u16" where
  "filter_index_of dpi_rules result =
     (let filter_count = length (dt_filters dpi_rules);
          agrees = (\<lambda>i. let probe = Dpi_ResultAt dpi_rules (of_nat i)
             in dr_filter_group probe = dr_filter_group result \<and> dr_label probe = dr_label result \<and>
                dr_priority probe = dr_priority result)
      in case find agrees [0..<filter_count] of Some i \<Rightarrow> of_nat i | None \<Rightarrow> of_nat (filter_count - 1))"

definition MatchDpi ::
    "('c, 'm, 'd, 'f, 'r) dpdk_ops \<Rightarrow> PacketMetadata \<Rightarrow> ('c, 'm, 'd, 'h, 'f, 'r) Burst \<Rightarrow>
       ('c, 'm, 'd, 'h, 'f, 'r) Burst \<times> DpiResult option" where
  "MatchDpi ops metadata b =
     (case (hostname metadata, wc_dpi_rules b) of
        (Some host, Some dpi_rules) \<Rightarrow>
          let current_generation = dt_generation dpi_rules;
              cached_idx = Cache_Lookup (wc_dpi_hostname_cache b) host current_generation
          in if cached_idx \<noteq> kNoMatchIdx
             then let b = bump c_dpi_cache_hits_update b
                  in (b, if unat cached_idx < length (dt_filters dpi_rules) then Some (Dpi_ResultAt dpi_rules cached_idx) else None)
             else let b = bump c_dpi_cache_misses_update b;
                      result = Dpi_Match (dpdk_hs ops) dpi_rules (dpdk_hs_scratch ops) host;
                      remember = (\<lambda>idx. b\<lparr>wc_dpi_hostname_cache :=
                         Cache_Insert host idx current_generation (wc_dpi_hostname_cache b)\<rparr>)
                  in if dr_matched result then (remember (filter_index_of dpi_rules result), Some result)
                     else (remember kNoMatchIdx, None)
      | _ \<Rightarrow> (b, None))"

text \<open>
  The results of \<^verbatim>\<open>TryDpiClassify\<close>: the metadata with the hostname, the action, whether the
  packet is decided, and whether the caller must not cache a plain SPI match.
\<close>

record DpiDecision =
  dd_metadata :: PacketMetadata
  dd_action :: Action
  dd_matched :: bool
  dd_defer_spi_cache :: bool

definition undecided :: "PacketMetadata \<Rightarrow> bool \<Rightarrow> DpiDecision" where
  "undecided metadata defer = \<lparr>dd_metadata = metadata, dd_action = kForward, dd_matched = False, dd_defer_spi_cache = defer\<rparr>"

definition decided :: "PacketMetadata \<Rightarrow> Action \<Rightarrow> DpiDecision" where
  "decided metadata action = \<lparr>dd_metadata = metadata, dd_action = action, dd_matched = True, dd_defer_spi_cache = False\<rparr>"

text \<open>Caching a decision made by DPI or by a static link.\<close>

definition cache_decision ::
    "('c, 'm, 'd, 'f, 'r) dpdk_ops \<Rightarrow> ((u64 \<Rightarrow> u64) \<Rightarrow> BurstCounters \<Rightarrow> BurstCounters) \<Rightarrow> PacketMetadata \<Rightarrow> Action \<Rightarrow>
       FlowKey \<Rightarrow> ('c, 'm, 'd, 'h, 'f, 'r) Burst \<Rightarrow> ('c, 'm, 'd, 'h, 'f, 'r) Burst \<times> DpiDecision" where
  "cache_decision ops success_counter metadata action key b =
     (case insert_flow ops key action b of
        (b, kOk) \<Rightarrow> (bump c_matched_update (bump success_counter b), decided metadata action)
      | (b, kFull) \<Rightarrow>
          let b = bump c_flow_table_full_update b in
          if wc_flow_overflow_drop b then (bump c_matched_update b, decided metadata kDrop)
          else (b, undecided metadata False))"

definition no_counter :: "(u64 \<Rightarrow> u64) \<Rightarrow> BurstCounters \<Rightarrow> BurstCounters" where
  "no_counter f c = c"

definition dpi_decide ::
    "('c, 'm, 'd, 'f, 'r) dpdk_ops \<Rightarrow> PacketMetadata \<Rightarrow> ClassificationResult \<Rightarrow> FlowKey \<Rightarrow>
       ('c, 'm, 'd, 'h, 'f, 'r) Burst \<Rightarrow> ('c, 'm, 'd, 'h, 'f, 'r) Burst \<times> DpiDecision" where
  "dpi_decide ops metadata spi_match key b =
     (case MatchDpi ops metadata b of
        (b, None) \<Rightarrow> (b, undecided metadata False)
      | (b, Some _) \<Rightarrow>
          let final_action = (if cr_matched spi_match then cr_action spi_match else kForward)
          in cache_decision ops no_counter metadata final_action key b)"

definition kMaxTcpInspectionPayload :: nat where "kMaxTcpInspectionPayload = 65536"

text \<open>DPI on the reassembled stream.\<close>

definition dpi_stream ::
    "('c, 'm, 'd, 'f, 'r) dpdk_ops \<Rightarrow> TcpStreamReassembler \<Rightarrow> Mbuf \<Rightarrow> PacketMetadata \<Rightarrow> ClassificationResult \<Rightarrow> FlowKey \<Rightarrow>
       ('c, 'm, 'd, 'h, 'f, 'r) Burst \<Rightarrow> ('c, 'm, 'd, 'h, 'f, 'r) Burst \<times> DpiDecision" where
  "dpi_stream ops reassembler packet metadata spi_match key b =
     (case pktmbuf_read (dpdk_pkt ops) packet (unat (tcp_payload_offset metadata))
             (min (unat (tcp_payload_length metadata)) kMaxTcpInspectionPayload) of
        None \<Rightarrow> (b, undecided metadata True)
      | Some payload \<Rightarrow>
          let (reassembler, stream) = Reassembler_Insert metadata payload (wc_current_burst_tsc b) reassembler;
              b = b\<lparr>wc_tcp_reassembler := Some reassembler\<rparr>
          in if trr_status stream = kConflictingOverlap \<or> trr_status stream = kResourceLimit
             then (bump c_matched_update b, decided metadata kDrop)
             else if trr_status stream = kWaiting \<or> trr_status stream = kReady then
               (case (if rte_be_to_cpu_16 (destination_port_be metadata) = kTlsPort
                      then ExtractTlsSni (trr_contiguous_payload stream)
                      else ExtractHttpHost (trr_contiguous_payload stream)) of
                  Inl OutOfRange \<Rightarrow> (fault PacketReadOutOfRange b, undecided metadata True)
                | Inr None \<Rightarrow>
                    if hostname metadata = None then (b, undecided metadata True)
                    else dpi_decide ops metadata spi_match key b
                | Inr (Some name) \<Rightarrow> dpi_decide ops (metadata\<lparr>hostname := Some name\<rparr>) spi_match key b)
             else dpi_decide ops metadata spi_match key b)"

definition TryDpiClassify ::
    "('c, 'm, 'd, 'f, 'r) dpdk_ops \<Rightarrow> Mbuf \<Rightarrow> PacketMetadata \<Rightarrow> ClassificationResult \<Rightarrow> FlowKey \<Rightarrow>
       ('c, 'm, 'd, 'h, 'f, 'r) Burst \<Rightarrow> ('c, 'm, 'd, 'h, 'f, 'r) Burst \<times> DpiDecision" where
  "TryDpiClassify ops packet metadata spi_match key b =
     (let skip = (bump c_dpi_skipped_by_spi_update b, undecided metadata False);
          dst_port = rte_be_to_cpu_16 (destination_port_be metadata);
          src_port = rte_be_to_cpu_16 (source_port_be metadata)
      in case wc_dpi_rules b of None \<Rightarrow> (b, undecided metadata False)
         | Some dpi_rules \<Rightarrow>
             if \<not> Dpi_IsEnabled dpi_rules then (b, undecided metadata False)
             else if cr_matched spi_match \<and> cr_action spi_match = kDrop then skip
             else if cr_matched spi_match \<and> cr_action spi_match = kForward \<and> \<not> cr_l7_required spi_match then skip
             else if cr_matched spi_match \<and> cr_bound_dpi_filter_index spi_match \<noteq> kNoDpiLink
             then cache_decision ops c_dpi_skipped_by_link_update metadata (cr_action spi_match) key b
             else if protocol metadata \<noteq> kTcp then skip
             else if dst_port \<noteq> kTlsPort \<and> dst_port \<noteq> kHttpPort then skip
             else if (src_port = kHttpPort \<or> src_port = kTlsPort) \<and> 1024 \<le> dst_port then skip
             else case wc_tcp_reassembler b of
                    Some reassembler \<Rightarrow> dpi_stream ops reassembler packet metadata spi_match key b
                  | None \<Rightarrow>
                      (case ExtractHostname (dpdk_pkt ops) packet metadata of
                         Inl OutOfRange \<Rightarrow> dpi_decide ops metadata spi_match key (fault PacketReadOutOfRange b)
                       | Inr metadata \<Rightarrow> dpi_decide ops metadata spi_match key b))"

text \<open>The answer of the rules: the tuple space first, then the ACL.\<close>

definition spi_lookup ::
    "('c, 'm, 'd, 'f, 'r) dpdk_ops \<Rightarrow> ('c, 'm) RuleTable \<Rightarrow> FlowKey \<Rightarrow> PacketMetadata \<Rightarrow> ClassificationResult" where
  "spi_lookup ops rules key metadata =
     (let tss_hit = ProbeTss (dpdk_crc ops) rules key in
      if tss_hit \<noteq> kNoTssHit then ResultForCategory rules tss_hit
      else RuleTable_Match (dpdk_acl ops) rules metadata)"

text \<open>A packet whose flow is not cached.\<close>

definition classify_miss ::
    "('c, 'm, 'd, 'f, 'r) dpdk_ops \<Rightarrow> Mbuf \<Rightarrow> PacketMetadata \<Rightarrow> FlowKey \<Rightarrow> ('c, 'm, 'd, 'h, 'f, 'r) Burst \<Rightarrow>
       ('c, 'm, 'd, 'h, 'f, 'r) Burst \<times> PacketClassification" where
  "classify_miss ops packet metadata key b =
     (let spi_match = spi_lookup ops (wc_rules b) key metadata in
      if cr_matched spi_match \<and> cr_bound_dpi_filter_index spi_match \<noteq> kNoDpiLink
      then (case insert_flow ops key (cr_action spi_match) b of
              (b, kOk) \<Rightarrow> (bump c_matched_update (bump c_dpi_skipped_by_link_update b),
                           classification metadata (cr_action spi_match) True)
            | (b, kFull) \<Rightarrow>
                let b = bump c_matched_update (bump c_flow_table_full_update b)
                in (b, classification metadata (if wc_flow_overflow_drop b then kDrop else cr_action spi_match) True))
      else if (case wc_dpi_rules b of None \<Rightarrow> True | Some dpi_rules \<Rightarrow> \<not> Dpi_IsEnabled dpi_rules)
      then if cr_matched spi_match then MakeMatched ops metadata (cr_action spi_match) key b
           else (bump c_unknown_update b, classification metadata kForward False)
      else case TryDpiClassify ops packet metadata spi_match key b of (b, d) \<Rightarrow>
             if dd_matched d then (b, classification (dd_metadata d) (dd_action d) True)
             else if cr_matched spi_match
             then if dd_defer_spi_cache d
                  then (bump c_matched_update b, classification (dd_metadata d) (cr_action spi_match) True)
                  else MakeMatched ops (dd_metadata d) (cr_action spi_match) key b
             else (bump c_unknown_update b, classification (dd_metadata d) kForward False))"

definition classify_parsed ::
    "('c, 'm, 'd, 'f, 'r) dpdk_ops \<Rightarrow> Mbuf \<Rightarrow> PacketMetadata \<Rightarrow> ('c, 'm, 'd, 'h, 'f, 'r) Burst \<Rightarrow>
       ('c, 'm, 'd, 'h, 'f, 'r) Burst \<times> PacketClassification" where
  "classify_parsed ops packet metadata b =
     (let b = bump c_parsed_update b; key = MakeCanonicalFromMetadata metadata;
          (t, cached) = Flow_Lookup key (wc_current_burst_tsc b) (wc_flow_table b);
          b = b\<lparr>wc_flow_table := t\<rparr>
      in case cached of
           Some action \<Rightarrow> (bump c_flow_cache_hits_update b, classification metadata action True)
         | None \<Rightarrow> classify_miss ops packet metadata key b)"

definition target_worker :: "'f pkt_ops \<Rightarrow> Mbuf \<Rightarrow> u16 \<Rightarrow> nat \<Rightarrow> nat" where
  "target_worker ops packet receive_port rings = unat (HashPacketFlow ops packet receive_port) mod rings"

text \<open>The packet is the one the caller holds afterwards, if any.\<close>

definition ClassifyPacket ::
    "('c, 'm, 'd, 'f, 'r) dpdk_ops \<Rightarrow> Mbuf \<Rightarrow> u16 \<Rightarrow> ('c, 'm, 'd, 'h, 'f, 'r) Burst \<Rightarrow>
       ('c, 'm, 'd, 'h, 'f, 'r) Burst \<times> Mbuf option \<times> PacketClassification" where
  "ClassifyPacket ops packet receive_port b =
     (let r = ParsePacketOwned (dpdk_pkt ops) (wc_ip_frag_tbl b) (wc_current_burst_tsc b) (Some packet);
          b = b\<lparr>wc_ip_frag_tbl := po_frag_tbl r\<rparr>;
          nothing = \<lparr>pc_metadata = default_metadata, pc_action = kForward, pc_parsed = False, pc_matched = False,
                     pc_redispatch = False\<rparr>
      in case (po_metadata r, po_packet r) of
           (Some metadata, Some packet) \<Rightarrow>
             if po_was_reassembled r \<and> wc_flow_hash_rings b \<noteq> [] \<and>
                target_worker (dpdk_pkt ops) packet receive_port (length (wc_flow_hash_rings b)) \<noteq> unat (wc_worker_id b)
             then (b, Some packet, (classification metadata kForward False)\<lparr>pc_redispatch := True\<rparr>)
             else (case classify_parsed ops packet metadata b of (b, c) \<Rightarrow> (b, Some packet, c))
         | _ \<Rightarrow> if po_status r = kWaitingForFragments then (b, po_packet r, nothing\<lparr>pc_matched := True\<rparr>)
                else (bump c_malformed_update b, po_packet r, nothing))"

section \<open>Forwarding\<close>

definition DropPacket :: "('c, 'm, 'd, 'h, 'f, 'r) Burst \<Rightarrow> ('c, 'm, 'd, 'h, 'f, 'r) Burst" where
  "DropPacket b = bump c_dropped_update b"

definition ResolveTransmitPort ::
    "('c, 'm, 'd, 'h, 'f, 'r) Burst \<Rightarrow> PacketClassification \<Rightarrow> u16 list \<Rightarrow> u16 \<Rightarrow> u16 option" where
  "ResolveTransmitPort b c active_ports receive_port =
     (if \<not> wc_l3_forwarding b then Some (GetTransmitPort active_ports receive_port)
      else case (wc_l3_routes b, wc_ethernet_destinations b) of
        (Some routes, Some _) \<Rightarrow>
          if \<not> pc_parsed c then None
          else (case LookupL3TransmitPort routes (pc_metadata c) of None \<Rightarrow> None
                | Some port \<Rightarrow> if port = receive_port then None else Some port)
      | _ \<Rightarrow> None)"

definition PrepareAndRewriteHeaders ::
    "('c, 'm, 'd, 'f, 'r) dpdk_ops \<Rightarrow> u16 \<Rightarrow> Mbuf \<Rightarrow> ('c, 'm, 'd, 'h, 'f, 'r) Burst \<Rightarrow> AccessError + (bool \<times> Mbuf)" where
  "PrepareAndRewriteHeaders ops transmit_port packet b =
     (case GetPortMacAddress (wc_environment b) transmit_port of None \<Rightarrow> Inr (False, packet)
      | Some transmit_mac \<Rightarrow>
          if wc_l3_forwarding b then
            (case wc_ethernet_destinations b of None \<Rightarrow> Inl OutOfRange
             | Some destinations \<Rightarrow>
                 (case GetEthernetDestination destinations transmit_port of None \<Rightarrow> Inr (False, packet)
                  | Some next_hop_mac \<Rightarrow>
                      UpdateL3ForwardHeaders (dpdk_pkt ops) (dpdk_cksum ops) packet transmit_mac next_hop_mac))
          else if wc_mac_updating b then Inr (True, UpdateL2ForwardMacs packet transmit_mac transmit_port)
          else Inr (True, packet))"

text \<open>The staging buffer of a port has \<open>kMaxBurstCapacity\<close> places.\<close>

definition EnqueuePacket ::
    "Mbuf \<Rightarrow> u16 \<Rightarrow> ('c, 'm, 'd, 'h, 'f, 'r) Burst \<Rightarrow> ('c, 'm, 'd, 'h, 'f, 'r) Burst" where
  "EnqueuePacket packet transmit_port b =
     (let buffer = b_transmit b ! unat transmit_port;
          b = (if kMaxBurstCapacity \<le> length buffer then fault TransmitBufferOverrun b else b)
      in b\<lparr>b_transmit := (b_transmit b)[unat transmit_port := buffer @ [packet]]\<rparr>)"

text \<open>
  The decision both paths end with: \<^verbatim>\<open>ApplyForwardDecision\<close>, and the same statements
  at the end of \<^verbatim>\<open>ForwardPacket\<close>.
\<close>

definition ApplyForwardDecision ::
    "('c, 'm, 'd, 'f, 'r) dpdk_ops \<Rightarrow> u16 list \<Rightarrow> Mbuf \<Rightarrow> u16 \<Rightarrow> PacketClassification \<Rightarrow>
       ('c, 'm, 'd, 'h, 'f, 'r) Burst \<Rightarrow> ('c, 'm, 'd, 'h, 'f, 'r) Burst" where
  "ApplyForwardDecision ops active_ports packet port_id c b =
     (if pc_matched c \<and> pc_action c = kDrop then DropPacket (bump c_dropped_by_rule_update b)
      else if wc_drop_unmatched b \<and> \<not> pc_matched c then DropPacket b
      else case ResolveTransmitPort b c active_ports port_id of None \<Rightarrow> DropPacket b
        | Some transmit_port \<Rightarrow>
            if length (b_transmit b) \<le> unat transmit_port then DropPacket b
            else (case PrepareAndRewriteHeaders ops transmit_port packet b of
                    Inl OutOfRange \<Rightarrow> DropPacket (fault PacketReadOutOfRange b)
                  | Inr (False, packet) \<Rightarrow> DropPacket b
                  | Inr (True, packet) \<Rightarrow> EnqueuePacket packet transmit_port b))"

definition redispatch ::
    "('c, 'm, 'd, 'f, 'r) dpdk_ops \<Rightarrow> Mbuf \<Rightarrow> u16 \<Rightarrow> ('c, 'm, 'd, 'h, 'f, 'r) Burst \<Rightarrow> ('c, 'm, 'd, 'h, 'f, 'r) Burst" where
  "redispatch ops packet receive_port b =
     (let packet = packet\<lparr>mb_port := receive_port\<rparr>; rings = wc_flow_hash_rings b;
          w = target_worker (dpdk_pkt ops) packet receive_port (length rings)
      in case dpdk_ring_enqueue ops (rings ! w) packet of
           None \<Rightarrow> DropPacket b
         | Some ring \<Rightarrow> b\<lparr>wc_flow_hash_rings := rings[w := ring], b_redispatched := b_redispatched b + 1\<rparr>)"

definition ForwardPacket ::
    "('c, 'm, 'd, 'f, 'r) dpdk_ops \<Rightarrow> u16 list \<Rightarrow> Mbuf \<Rightarrow> u16 \<Rightarrow> ('c, 'm, 'd, 'h, 'f, 'r) Burst \<Rightarrow>
       ('c, 'm, 'd, 'h, 'f, 'r) Burst" where
  "ForwardPacket ops active_ports packet receive_port b =
     (case ClassifyPacket ops packet receive_port b of
        (b, None, c) \<Rightarrow> b\<lparr>b_held := b_held b + 1\<rparr>
      | (b, Some packet, c) \<Rightarrow>
          if pc_redispatch c then redispatch ops packet receive_port b
          else ApplyForwardDecision ops active_ports packet receive_port c b)"

definition flush_port ::
    "('c, 'm, 'd, 'f, 'r) dpdk_ops \<Rightarrow> u16 \<Rightarrow> ('c, 'm, 'd, 'h, 'f, 'r) Burst \<Rightarrow> ('c, 'm, 'd, 'h, 'f, 'r) Burst" where
  "flush_port ops port_id b =
     (let buffer = b_transmit b ! unat port_id; count = length buffer in
      if count = 0 then b
      else let sent = dpdk_tx_burst ops (wc_clock b) port_id (wc_worker_id b) buffer; c = b_counters b
           in b\<lparr>b_counters := c\<lparr>c_transmitted := c_transmitted c + of_nat sent,
                               c_dropped := c_dropped c + of_nat (count - sent)\<rparr>,
                b_transmit := (b_transmit b)[unat port_id := []], wc_clock := wc_clock b + 1\<rparr>)"

definition FlushTransmitBuffers ::
    "('c, 'm, 'd, 'f, 'r) dpdk_ops \<Rightarrow> ('c, 'm, 'd, 'h, 'f, 'r) Burst \<Rightarrow> ('c, 'm, 'd, 'h, 'f, 'r) Burst" where
  "FlushTransmitBuffers ops b = fold (flush_port ops) (env_active_ports (wc_environment b)) b"

section \<open>The queue path\<close>

text \<open>
  What parsing leaves for each packet received: the buffer in its place and the index of
  its metadata, or one of the two marks. A packet that fails to parse after it was
  reassembled leaves the old buffer in place.
\<close>

fun ParseReceivedPackets ::
    "'f pkt_ops \<Rightarrow> u64 \<Rightarrow> Mbuf list \<Rightarrow> nat \<Rightarrow> 'f option \<Rightarrow> BurstCounters \<Rightarrow>
       (Mbuf option \<times> u16) list \<times> PacketMetadata list \<times> 'f option \<times> BurstCounters" where
  "ParseReceivedPackets ops tsc [] n_parsed frag_tbl counters = ([], [], frag_tbl, counters)"
| "ParseReceivedPackets ops tsc (packet # packets) n_parsed frag_tbl counters =
     (let r = ParsePacketOwned ops frag_tbl tsc (Some packet) in
      case po_metadata r of
        Some metadata \<Rightarrow>
          (case ParseReceivedPackets ops tsc packets (n_parsed + 1) (po_frag_tbl r)
                  (counters\<lparr>c_parsed := c_parsed counters + 1\<rparr>) of
             (slots, mds, frag_tbl, counters) \<Rightarrow>
               ((po_packet r, of_nat n_parsed) # slots, metadata # mds, frag_tbl, counters))
      | None \<Rightarrow>
          if po_status r = kWaitingForFragments
          then (case ParseReceivedPackets ops tsc packets n_parsed (po_frag_tbl r) counters of
                  (slots, rest) \<Rightarrow> ((None, kPacketWaitingForFragments) # slots, rest))
          else (case ParseReceivedPackets ops tsc packets n_parsed (po_frag_tbl r)
                       (counters\<lparr>c_malformed := c_malformed counters + 1\<rparr>) of
                  (slots, rest) \<Rightarrow> ((Some packet, kPacketUnmapped) # slots, rest)))"

text \<open>Lookups in chunks of at most 64 keys.\<close>

function BulkFlowLookup :: "u64 \<Rightarrow> FlowKey list \<Rightarrow> 'h FlowTable \<Rightarrow> 'h FlowTable \<times> BulkResult list" where
  "BulkFlowLookup now_tsc keys t =
     (if keys = [] then (t, [])
      else let chunk = take 64 keys;
               (t, results) = Flow_LookupBulk chunk now_tsc (replicate (length chunk) empty_BulkResult) t;
               (t, rest) = BulkFlowLookup now_tsc (drop 64 keys) t
           in (t, results @ rest))"
  by pat_completeness auto

termination
  by (relation "measure (\<lambda>(tsc, keys, t). length keys)") auto

declare BulkFlowLookup.simps [simp del]

text \<open>
  Phases 1 to 2 of \<^verbatim>\<open>FinalizePackets\<close>: the rules for the packets that are not cached, through the
  tuple space, the (empty) FIB stage, the membership filter and the ACL.
\<close>

definition spi_phases ::
    "('c, 'm, 'd, 'f, 'r) dpdk_ops \<Rightarrow> ('c, 'm) RuleTable \<Rightarrow> PacketMetadata list \<Rightarrow> FlowKey list \<Rightarrow> BulkResult list \<Rightarrow>
       u16 list \<Rightarrow> ClassificationResult list" where
  "spi_phases ops rules metadata keys bulk_results packet_to_parsed =
     (let misses = filter (\<lambda>i. \<not> br_valid (bulk_results ! i))
            (map unat (filter (\<lambda>i. i \<noteq> kPacketUnmapped \<and> i \<noteq> kPacketWaitingForFragments) packet_to_parsed));
          tss = (\<lambda>i. ProbeTss (dpdk_crc ops) rules (keys ! i));
          spi_matches = fold (\<lambda>i ms. if tss i \<noteq> kNoTssHit then ms[i := ResultForCategory rules (tss i)] else ms) misses
            (replicate kMaxBurstCapacity no_classification);
          acl_misses = filter (\<lambda>i. tss i = kNoTssHit) misses;
          fib_results = FibLookupBulk rules (map (nth metadata) acl_misses) (replicate (length acl_misses) no_classification);
          spi_matches = fold (\<lambda>(i, r) ms. if cr_matched r then ms[i := r] else ms) (zip acl_misses fib_results) spi_matches;
          real_acl_misses = map fst (filter (\<lambda>(i, r). \<not> cr_matched r) (zip acl_misses fib_results));
          skip_acl = MemberFilterBulk (dpdk_member ops) rules (map (nth metadata) real_acl_misses)
            (replicate (length real_acl_misses) False);
          final_acl = map fst (filter (\<lambda>(i, skip). \<not> skip) (zip real_acl_misses skip_acl));
          acl_results = RuleTable_MatchBulk (dpdk_acl ops) rules (map (nth metadata) final_acl)
            (replicate (length final_acl) no_classification)
      in fold (\<lambda>(i, r) ms. ms[i := r]) (zip final_acl acl_results) spi_matches)"

text \<open>Phase 3 for a packet that is not cached.\<close>

definition finalize_miss ::
    "('c, 'm, 'd, 'f, 'r) dpdk_ops \<Rightarrow> Mbuf \<Rightarrow> PacketMetadata \<Rightarrow> FlowKey \<Rightarrow> ClassificationResult \<Rightarrow>
       ('c, 'm, 'd, 'h, 'f, 'r) Burst \<Rightarrow> ('c, 'm, 'd, 'h, 'f, 'r) Burst \<times> PacketClassification" where
  "finalize_miss ops packet metadata key spi_match b =
     (case TryDpiClassify ops packet metadata spi_match key b of (b, d) \<Rightarrow>
        let metadata = dd_metadata d in
        if dd_matched d then (b, classification metadata (dd_action d) True)
        else if cr_matched spi_match then
          if dd_defer_spi_cache d then (bump c_matched_update b, classification metadata (cr_action spi_match) True)
          else (case insert_flow ops key (cr_action spi_match) b of
                  (b, kOk) \<Rightarrow> (bump c_matched_update b, classification metadata (cr_action spi_match) True)
                | (b, kFull) \<Rightarrow>
                    let b = bump c_flow_table_full_update b in
                    if wc_flow_overflow_drop b then (bump c_matched_update b, classification metadata kDrop True)
                    else (bump c_unknown_update b, classification metadata kForward False))
        else (bump c_unknown_update b, classification metadata kForward False))"

definition finalize_packet ::
    "('c, 'm, 'd, 'f, 'r) dpdk_ops \<Rightarrow> u16 list \<Rightarrow> u16 \<Rightarrow> PacketMetadata list \<Rightarrow> FlowKey list \<Rightarrow> BulkResult list \<Rightarrow>
       ClassificationResult list \<Rightarrow> Mbuf option \<times> u16 \<Rightarrow> ('c, 'm, 'd, 'h, 'f, 'r) Burst \<Rightarrow> ('c, 'm, 'd, 'h, 'f, 'r) Burst" where
  "finalize_packet ops active_ports port_id metadata keys bulk_results spi_matches slot b =
     (case slot of
        (None, parsed_idx) \<Rightarrow> b\<lparr>b_held := b_held b + 1\<rparr>
      | (Some packet, parsed_idx) \<Rightarrow>
          if parsed_idx = kPacketUnmapped then DropPacket b
          else let i = unat parsed_idx; bulk_result = bulk_results ! i in
            if br_valid bulk_result
            then ApplyForwardDecision ops active_ports packet port_id
                   (classification (metadata ! i) (br_view bulk_result) True) (bump c_flow_cache_hits_update b)
            else (case finalize_miss ops packet (metadata ! i) (keys ! i) (spi_matches ! i) b of (b, c) \<Rightarrow>
                    ApplyForwardDecision ops active_ports packet port_id c b))"

definition FinalizePackets ::
    "('c, 'm, 'd, 'f, 'r) dpdk_ops \<Rightarrow> u16 list \<Rightarrow> u16 \<Rightarrow> (Mbuf option \<times> u16) list \<Rightarrow> PacketMetadata list \<Rightarrow> FlowKey list \<Rightarrow>
       BulkResult list \<Rightarrow> ('c, 'm, 'd, 'h, 'f, 'r) Burst \<Rightarrow> ('c, 'm, 'd, 'h, 'f, 'r) Burst" where
  "FinalizePackets ops active_ports port_id slots metadata keys bulk_results b =
     (let spi_matches = spi_phases ops (wc_rules b) metadata keys bulk_results (map snd slots)
      in fold (finalize_packet ops active_ports port_id metadata keys bulk_results spi_matches) slots b)"

text \<open>A burst from one port; the packets are what \<^verbatim>\<open>rte_eth_rx_burst\<close> delivered.\<close>

definition ProcessPortBurst ::
    "('c, 'm, 'd, 'f, 'r) dpdk_ops \<Rightarrow> u16 list \<Rightarrow> u16 \<Rightarrow> Mbuf list \<Rightarrow> ('c, 'm, 'd, 'h, 'f, 'r) Burst \<Rightarrow>
       ('c, 'm, 'd, 'h, 'f, 'r) Burst" where
  "ProcessPortBurst ops active_ports port_id packets b =
     (let (tsc, b) = rte_rdtsc ops b; c = b_counters b;
          b = b\<lparr>wc_current_burst_tsc := tsc, b_counters := c\<lparr>c_received := c_received c + of_nat (length packets)\<rparr>\<rparr>
      in if packets = [] then b
         else case ParseReceivedPackets (dpdk_pkt ops) tsc packets 0 (wc_ip_frag_tbl b) (b_counters b) of
                (slots, metadata, frag_tbl, counters) \<Rightarrow>
                  let b = b\<lparr>wc_ip_frag_tbl := frag_tbl, b_counters := counters\<rparr>;
                      keys = map MakeCanonicalFromMetadata metadata;
                      (t, bulk_results) = BulkFlowLookup tsc keys (wc_flow_table b)
                  in FinalizePackets ops active_ports port_id slots metadata keys bulk_results (b\<lparr>wc_flow_table := t\<rparr>))"

definition CleanupExpiredFragments ::
    "('c, 'm, 'd, 'f, 'r) dpdk_ops \<Rightarrow> ('c, 'm, 'd, 'h, 'f, 'r) Burst \<Rightarrow> ('c, 'm, 'd, 'h, 'f, 'r) Burst" where
  "CleanupExpiredFragments ops b =
     (let now = wc_current_burst_tsc b in
      case wc_ip_frag_tbl b of None \<Rightarrow> b
      | Some tbl \<Rightarrow>
          if now = 0 \<or> now - wc_last_fragment_cleanup_tsc b < wc_fragment_cleanup_interval_cycles b then b
          else b\<lparr>wc_ip_frag_tbl := Some (dpdk_frag_del_expired ops tbl now),
                 wc_tcp_reassembler := map_option (Reassembler_PurgeExpired now) (wc_tcp_reassembler b),
                 wc_last_fragment_cleanup_tsc := now\<rparr>)"

text \<open>
  The end of an iteration: the worker's own statistics, and every 256 iterations the shared
  counters (\<open>flush\<close> is \<^verbatim>\<open>FlushAtomicCounters\<close> or \<^verbatim>\<open>AddDispatchedWorkerCounters\<close>).
\<close>

definition account_burst ::
    "(AtomicCounters \<Rightarrow> BurstCounters \<Rightarrow> AtomicCounters) \<Rightarrow> BurstCounters \<Rightarrow>
       ('c, 'm, 'd, 'h, 'f, 'r, 'z) WorkerContext_scheme \<times> AtomicCounters \<Rightarrow>
       ('c, 'm, 'd, 'h, 'f, 'r, 'z) WorkerContext_scheme \<times> AtomicCounters" where
  "account_burst flush burst_counters = (\<lambda>(w, counters).
     let w = w\<lparr>wc_stats := AddBurstStats (wc_stats w) burst_counters,
               wc_pending_burst := AddBurstCounters (wc_pending_burst w) burst_counters,
               wc_bursts_since_flush := wc_bursts_since_flush w + 1\<rparr>
     in if kAtomicFlushBurstInterval \<le> wc_bursts_since_flush w
        then (w\<lparr>wc_pending_burst := no_counters, wc_bursts_since_flush := 0\<rparr>, flush counters (wc_pending_burst w))
        else (w, counters))"

definition start_burst :: "('c, 'm, 'd, 'h, 'f, 'r) WorkerContext \<Rightarrow> ('c, 'm, 'd, 'h, 'f, 'r) Burst" where
  "start_burst w = WorkerContext.extend w
     (Burst.fields no_counters (replicate (unat (env_port_count (wc_environment w))) []) [] 0 0)"

text \<open>One round over all ports; \<open>rx\<close> gives what each port delivers.\<close>

definition iterate_ports ::
    "('c, 'm, 'd, 'f, 'r) dpdk_ops \<Rightarrow> (u16 \<Rightarrow> Mbuf list) \<Rightarrow> ('c, 'm, 'd, 'h, 'f, 'r) Burst \<Rightarrow> ('c, 'm, 'd, 'h, 'f, 'r) Burst" where
  "iterate_ports ops rx b =
     (let active_ports = env_active_ports (wc_environment b);
          b = fold (\<lambda>port_id. ProcessPortBurst ops active_ports port_id (rx port_id)) active_ports b
      in FlushTransmitBuffers ops (CleanupExpiredFragments ops b))"

definition ProcessWorkerIteration ::
    "('c, 'm, 'd, 'f, 'r) dpdk_ops \<Rightarrow> (u16 \<Rightarrow> Mbuf list) \<Rightarrow> ('c, 'm, 'd, 'h, 'f, 'r) WorkerContext \<times> AtomicCounters \<Rightarrow>
       ('c, 'm, 'd, 'h, 'f, 'r) WorkerContext \<times> AtomicCounters" where
  "ProcessWorkerIteration ops rx = (\<lambda>(w, counters).
     let b = iterate_ports ops rx (start_burst w)
     in account_burst FlushAtomicCounters (b_counters b) (WorkerContext.truncate b, counters))"

section \<open>The flow-hash path\<close>

text \<open>One round over the packets taken from the worker's ring.\<close>

definition iterate_ring ::
    "('c, 'm, 'd, 'f, 'r) dpdk_ops \<Rightarrow> Mbuf list \<Rightarrow> ('c, 'm, 'd, 'h, 'f, 'r) Burst \<Rightarrow> ('c, 'm, 'd, 'h, 'f, 'r) Burst" where
  "iterate_ring ops packets b =
     (let (tsc, b) = rte_rdtsc ops b; c = b_counters b;
          b = b\<lparr>wc_current_burst_tsc := tsc, b_counters := c\<lparr>c_received := c_received c + of_nat (length packets)\<rparr>\<rparr>;
          b = fold (\<lambda>packet. ForwardPacket ops (env_active_ports (wc_environment b)) packet (mb_port packet)) packets b
      in FlushTransmitBuffers ops (CleanupExpiredFragments ops b))"

definition ProcessDispatchedWorkerIteration ::
    "('c, 'm, 'd, 'f, 'r) dpdk_ops \<Rightarrow> Mbuf list \<Rightarrow> ('c, 'm, 'd, 'h, 'f, 'r) WorkerContext \<times> AtomicCounters \<Rightarrow>
       ('c, 'm, 'd, 'h, 'f, 'r) WorkerContext \<times> AtomicCounters" where
  "ProcessDispatchedWorkerIteration ops packets = (\<lambda>(w, counters).
     let b = iterate_ring ops packets (start_burst w)
     in account_burst AddDispatchedWorkerCounters (b_counters b) (WorkerContext.truncate b, counters))"

text \<open>The dispatcher on the main core: its rings and its counters.\<close>

definition DispatchPacketToWorker ::
    "('c, 'm, 'd, 'f, 'r) dpdk_ops \<Rightarrow> u16 \<Rightarrow> Mbuf \<Rightarrow> 'r list \<times> BurstCounters \<Rightarrow> 'r list \<times> BurstCounters" where
  "DispatchPacketToWorker ops receive_port packet = (\<lambda>(rings, counters).
     let packet = packet\<lparr>mb_port := receive_port\<rparr>;
         w = target_worker (dpdk_pkt ops) packet receive_port (length rings)
     in case dpdk_ring_enqueue ops (rings ! w) packet of
          None \<Rightarrow> (rings, counters\<lparr>c_dropped := c_dropped counters + 1\<rparr>)
        | Some ring \<Rightarrow> (rings[w := ring], counters))"

definition DispatchPortQueueBurst ::
    "('c, 'm, 'd, 'f, 'r) dpdk_ops \<Rightarrow> u16 \<Rightarrow> Mbuf list \<Rightarrow> 'r list \<times> BurstCounters \<Rightarrow> 'r list \<times> BurstCounters" where
  "DispatchPortQueueBurst ops port_id packets = (\<lambda>(rings, counters).
     fold (DispatchPacketToWorker ops port_id) packets
       (rings, counters\<lparr>c_received := c_received counters + of_nat (length packets)\<rparr>))"

definition ProcessDispatchIteration ::
    "('c, 'm, 'd, 'f, 'r) dpdk_ops \<Rightarrow> Environment \<Rightarrow> (u16 \<Rightarrow> nat \<Rightarrow> Mbuf list) \<Rightarrow> 'r list \<Rightarrow> AtomicCounters \<Rightarrow> 'r list \<times> AtomicCounters" where
  "ProcessDispatchIteration ops environment rx rings counters =
     (case fold (\<lambda>(port_id, queue_id). DispatchPortQueueBurst ops port_id (rx port_id queue_id))
             (List.product (env_active_ports environment) [0..<unat (GetReceiveQueueCount environment)])
             (rings, no_counters) of
        (rings, burst_counters) \<Rightarrow> (rings, AddBurstCounters counters burst_counters))"

end
