(* ===== verification/Pipeline_Steps.thy ===== *)
theory Pipeline_Steps
  imports Pipeline
begin

text \<open>
  What classification does to a worker, proved once for every relation of interest. A relation
  \<open>R k\<close> between the states before and after, where \<open>k\<close> counts decisions, is a
  \<open>classification_steps\<close> if the elementary actions of classification obey it: counters that record
  a decision, counters that do not, tables, caches and faults. Then every operation up to
  \<open>classify_parsed\<close> and \<open>finalize_miss\<close> obeys it, with one decision for each packet.
\<close>

lemma bump_counters [simp]: "b_counters (bump f b) = f (\<lambda>n. n + 1) (b_counters b)"
  by (simp add: bump_def)

lemma bump_frame [simp]:
  "b_transmit (bump f b) = b_transmit b" "b_held (bump f b) = b_held b" "b_redispatched (bump f b) = b_redispatched b"
  "wc_environment (bump f b) = wc_environment b" "wc_l3_forwarding (bump f b) = wc_l3_forwarding b"
  "wc_l3_routes (bump f b) = wc_l3_routes b" "wc_flow_overflow_drop (bump f b) = wc_flow_overflow_drop b"
  "wc_flow_table (bump f b) = wc_flow_table b" "wc_dpi_rules (bump f b) = wc_dpi_rules b"
  "wc_tcp_reassembler (bump f b) = wc_tcp_reassembler b" "wc_rules (bump f b) = wc_rules b"
  "wc_current_burst_tsc (bump f b) = wc_current_burst_tsc b" "b_faults (bump f b) = b_faults b"
  by (simp_all add: bump_def)

text \<open>The counters that are bumped along the way without a decision.\<close>

definition side_counters :: "((u64 \<Rightarrow> u64) \<Rightarrow> BurstCounters \<Rightarrow> BurstCounters) list" where
  "side_counters = [c_flow_table_full_update, c_dpi_cache_hits_update, c_dpi_cache_misses_update,
     c_dpi_skipped_by_spi_update, c_dpi_skipped_by_link_update, no_counter]"

text \<open>\<open>finalize_miss\<close> writes \<open>MakeMatched\<close> out.\<close>

lemma finalize_miss_MakeMatched:
  "finalize_miss ops packet metadata key spi_match b =
     (case TryDpiClassify ops packet metadata spi_match key b of (b, d) \<Rightarrow>
        if dd_matched d then (b, classification (dd_metadata d) (dd_action d) True)
        else if cr_matched spi_match
        then if dd_defer_spi_cache d then (bump c_matched_update b, classification (dd_metadata d) (cr_action spi_match) True)
             else MakeMatched ops (dd_metadata d) (cr_action spi_match) key b
        else (bump c_unknown_update b, classification (dd_metadata d) kForward False))"
  unfolding finalize_miss_def MakeMatched_def Let_def by (auto split: prod.split FlowInsertResult.split)

locale classification_steps =
  fixes R :: "u64 \<Rightarrow> ('c, 'm, 'd, 'h, 'f, 'r) Burst \<Rightarrow> ('c, 'm, 'd, 'h, 'f, 'r) Burst \<Rightarrow> bool"
  assumes R_refl: "R 0 b b"
    and R_trans: "R j b b' \<Longrightarrow> R k b' b'' \<Longrightarrow> R (j + k) b b''"
    and R_decision: "R k b (bump c_matched_update b') \<longleftrightarrow> R (k - 1) b b'"
      "R k b (bump c_unknown_update b') \<longleftrightarrow> R (k - 1) b b'"
      "R k b (bump c_flow_cache_hits_update b') \<longleftrightarrow> R (k - 1) b b'"
    and R_side: "f \<in> set side_counters \<Longrightarrow> R k b (bump f b') \<longleftrightarrow> R k b b'"
    and R_fault: "R k b (fault PacketReadOutOfRange b') \<longleftrightarrow> R k b b'"
    and R_tables: "R k b (b'\<lparr>wc_flow_table := t\<rparr>) \<longleftrightarrow> R k b b'" "R k b (b'\<lparr>wc_clock := n\<rparr>) \<longleftrightarrow> R k b b'"
      "R k b (b'\<lparr>wc_tcp_reassembler := r\<rparr>) \<longleftrightarrow> R k b b'" "R k b (b'\<lparr>wc_dpi_hostname_cache := h\<rparr>) \<longleftrightarrow> R k b b'"
begin

lemma R_side_counters [simp]:
  "R k b (bump c_flow_table_full_update b') \<longleftrightarrow> R k b b'" "R k b (bump c_dpi_cache_hits_update b') \<longleftrightarrow> R k b b'"
  "R k b (bump c_dpi_cache_misses_update b') \<longleftrightarrow> R k b b'" "R k b (bump c_dpi_skipped_by_spi_update b') \<longleftrightarrow> R k b b'"
  "R k b (bump c_dpi_skipped_by_link_update b') \<longleftrightarrow> R k b b'" "R k b (bump no_counter b') \<longleftrightarrow> R k b b'"
  by (rule R_side, simp add: side_counters_def)+

lemmas R_simps [simp] = R_refl R_decision R_fault R_tables

lemma R_after: "R j b b' \<Longrightarrow> R k b' b'' \<Longrightarrow> l = j + k \<Longrightarrow> R l b b''"
  using R_trans by blast

lemma insert_flow_R: "insert_flow ops key action b = (b', r) \<Longrightarrow> R 0 b b'"
  by (auto simp: insert_flow_def rte_rdtsc_def split: prod.splits)

lemma MatchDpi_R: "MatchDpi ops metadata b = (b', r) \<Longrightarrow> R 0 b b'"
  by (auto simp: MatchDpi_def Let_def split: option.splits if_splits)

text \<open>DPI decides or does not.\<close>

definition D where
  "D d b b' \<longleftrightarrow> R (if dd_matched d then 1 else 0) b b'"

lemma D_simps [simp]:
  "D (undecided metadata defer) b b' = R 0 b b'" "D (decided metadata action) b b' = R 1 b b'"
  by (simp_all add: D_def undecided_def decided_def)

lemma D_after: "R 0 b b' \<Longrightarrow> D d b' b'' \<Longrightarrow> D d b b''"
  unfolding D_def by (erule R_after) auto

lemma cache_decision_R:
  assumes "cache_decision ops f metadata action key b = (b', d)" and "f \<in> set side_counters"
  shows "D d b b'"
proof -
  obtain b1 r where ins: "insert_flow ops key action b = (b1, r)" by fastforce
  from assms insert_flow_R [OF ins] show ?thesis
    by (cases r) (auto simp: cache_decision_def ins Let_def R_side split: if_splits)
qed

lemma dpi_decide_R:
  assumes "dpi_decide ops metadata spi_match key b = (b', d)"
  shows "D d b b'"
proof -
  obtain b1 r where dpi: "MatchDpi ops metadata b = (b1, r)" by fastforce
  from assms MatchDpi_R [OF dpi] show ?thesis
    by (cases r) (auto simp: dpi_decide_def dpi Let_def side_counters_def dest!: cache_decision_R elim: D_after)
qed

lemma dpi_decide_fault_R:
  assumes "dpi_decide ops metadata spi_match key (fault PacketReadOutOfRange b) = (b', d)"
  shows "D d b b'"
proof (rule D_after)
  show "R 0 b (fault PacketReadOutOfRange b)" by simp
  show "D d (fault PacketReadOutOfRange b) b'" using assms by (rule dpi_decide_R)
qed

lemma dpi_stream_R:
  assumes "dpi_stream ops r packet metadata spi_match key b = (b', d)"
  shows "D d b b'"
proof (cases "pktmbuf_read (dpdk_pkt ops) packet (unat (tcp_payload_offset metadata))
             (min (unat (tcp_payload_length metadata)) kMaxTcpInspectionPayload)")
  case None
  with assms show ?thesis by (auto simp: dpi_stream_def)
next
  case (Some payload)
  obtain r' stream where ins: "Reassembler_Insert metadata payload (wc_current_burst_tsc b) r = (r', stream)" by fastforce
  define b1 where "b1 = b\<lparr>wc_tcp_reassembler := Some r'\<rparr>"
  have e: "R 0 b b1" by (simp add: b1_def)
  have "D d b1 b'"
    using assms unfolding dpi_stream_def Some ins b1_def [symmetric] option.case prod.case Let_def
    by (auto dest: dpi_decide_R split: if_splits sum.splits option.splits AccessError.splits)
  with e show ?thesis by (rule D_after)
qed

lemma TryDpiClassify_R:
  assumes "TryDpiClassify ops packet metadata spi_match key b = (b', d)"
  shows "D d b b'"
  using assms unfolding TryDpiClassify_def Let_def
  by (auto dest: dpi_decide_R dpi_decide_fault_R dpi_stream_R cache_decision_R simp: side_counters_def
      split: option.split_asm if_split_asm sum.split_asm AccessError.split_asm)

lemma MakeMatched_R:
  assumes "MakeMatched ops metadata action key b = (b', c)"
  shows "R 1 b b'"
proof -
  obtain b1 r where ins: "insert_flow ops key action b = (b1, r)" by fastforce
  from assms insert_flow_R [OF ins] show ?thesis
    by (cases r) (auto simp: MakeMatched_def ins Let_def split: if_splits)
qed

lemma finalize_miss_R:
  assumes "finalize_miss ops packet metadata key spi_match b = (b', c)"
  shows "R 1 b b'"
proof -
  obtain b1 d where dpi: "TryDpiClassify ops packet metadata spi_match key b = (b1, d)" by fastforce
  from assms TryDpiClassify_R [OF dpi] show ?thesis
    by (auto simp: finalize_miss_MakeMatched dpi D_def split: if_splits dest!: MakeMatched_R elim: R_after)
qed

lemma classify_miss_R:
  assumes "classify_miss ops packet metadata key b = (b', c)"
  shows "R 1 b b'"
proof -
  define spi where "spi = spi_lookup ops (wc_rules b) key metadata"
  obtain b1 r where ins: "insert_flow ops key (cr_action spi) b = (b1, r)" by fastforce
  obtain b2 d where dpi: "TryDpiClassify ops packet metadata spi key b = (b2, d)" by fastforce
  from assms insert_flow_R [OF ins] TryDpiClassify_R [OF dpi] show ?thesis
    unfolding classify_miss_def Let_def spi_def [symmetric] ins dpi prod.case
    by (cases r) (auto simp: D_def split: if_split_asm dest!: MakeMatched_R elim: R_after)
qed

text \<open>After the packet was counted as parsed.\<close>

lemma classify_parsed_R:
  assumes "classify_parsed ops packet metadata b = (b', c)"
  shows "R 1 (bump c_parsed_update b) b'"
proof -
  define key where "key = MakeCanonicalFromMetadata metadata"
  obtain t cached where look: "Flow_Lookup key (wc_current_burst_tsc b) (wc_flow_table b) = (t, cached)" by fastforce
  let ?b1 = "bump c_parsed_update b" and ?b2 = "(bump c_parsed_update b)\<lparr>wc_flow_table := t\<rparr>"
  have e: "R 0 ?b1 ?b2" by simp
  show ?thesis
  proof (cases cached)
    case None
    with assms have "R 1 ?b2 b'"
      by (intro classify_miss_R [of ops packet metadata key _ _ c]) (simp add: classify_parsed_def Let_def look flip: key_def)
    with e show ?thesis by (rule R_after) simp
  qed (use assms in \<open>auto simp: classify_parsed_def Let_def look simp flip: key_def\<close>)
qed

end

end
