(* ===== verification/Rule_Engine_Correct.thy ===== *)
theory Rule_Engine_Correct
  imports Rule_Engine
begin

text \<open>
  Correctness of the SPI rule engine: the division of work between parser threads, the
  agreement of compiled ACL rules with the filters they come from, the choice of the least
  precedence, the equivalence of bulk and single matching, the membership pre-filter and
  the resolution of DPI links.
\<close>

section \<open>What the ACL library promises\<close>

definition prefix_agrees :: "u32 \<Rightarrow> u32 \<Rightarrow> u32 \<Rightarrow> bool" where
  "prefix_agrees len a b \<longleftrightarrow> a AND PrefixMask (ucast len) = b AND PrefixMask (ucast len)"

definition rule_matches :: "AclRule \<Rightarrow> AclInputData \<Rightarrow> bool" where
  "rule_matches r i \<longleftrightarrow>
     ai_protocol i AND ar_protocol_mask r = ar_protocol r AND ar_protocol_mask r \<and>
     prefix_agrees (ar_src_length r) (rte_be_to_cpu_32 (ai_src_ip_be i)) (ar_src_ip r) \<and>
     prefix_agrees (ar_dst_length r) (rte_be_to_cpu_32 (ai_dst_ip_be i)) (ar_dst_ip r) \<and>
     ar_src_port_low r \<le> rte_be_to_cpu_16 (ai_src_port_be i) \<and>
     rte_be_to_cpu_16 (ai_src_port_be i) \<le> ar_src_port_high r \<and>
     ar_dst_port_low r \<le> rte_be_to_cpu_16 (ai_dst_port_be i) \<and>
     rte_be_to_cpu_16 (ai_dst_port_be i) \<le> ar_dst_port_high r"

text \<open>
  Fresh contexts are empty, adding appends rules whose priorities are in range, building and
  choosing a routine keep the rules, and every input is answered by a matching rule of the
  highest priority.
\<close>

definition acl_contract :: "'c acl_ops \<Rightarrow> bool" where
  "acl_contract acl \<longleftrightarrow>
     (\<forall>id n c. acl_create acl id n = Some c \<longrightarrow> acl_rules acl c = []) \<and>
     (\<forall>c rs c'. acl_add_rules acl c rs = Some c' \<longrightarrow> acl_rules acl c' = acl_rules acl c @ rs \<and>
        (\<forall>r \<in> set rs. 0 \<le> ar_priority r \<and> ar_priority r \<le> uint RTE_ACL_MAX_PRIORITY)) \<and>
     (\<forall>c n c'. acl_build acl c n = Some c' \<longrightarrow> acl_rules acl c' = acl_rules acl c) \<and>
     (\<forall>c a c'. acl_set_ctx_classify acl c a = Some c' \<longrightarrow> acl_rules acl c' = acl_rules acl c) \<and>
     (\<forall>c. acl_rules acl (acl_reset_rules acl c) = []) \<and>
     (\<forall>c is. acl_classify acl c is = Some (map (acl_best acl c) is)) \<and>
     (\<forall>c i. (acl_best acl c i = 0 \<and> (\<forall>r \<in> set (acl_rules acl c). \<not> rule_matches r i)) \<or>
       (\<exists>r \<in> set (acl_rules acl c). acl_best acl c i = ar_userdata r \<and> rule_matches r i \<and>
          (\<forall>r' \<in> set (acl_rules acl c). rule_matches r' i \<longrightarrow> ar_priority r' \<le> ar_priority r)))"

section \<open>Splitting the work\<close>

lemma sum_list_drop_nth:
  fixes xs :: "nat list"
  shows "i < length xs \<Longrightarrow> sum_list (drop i xs) = xs ! i + sum_list (drop (Suc i) xs)"
  by (simp add: Cons_nth_drop_Suc [symmetric])

lemma take_groups_spec:
  assumes "next_group \<le> max_end" and "max_end \<le> length counts"
    and "take_groups counts max_end target next_group assigned = (e, a)"
  shows "next_group \<le> e \<and> e \<le> max_end \<and>
         a + sum_list (drop e counts) = assigned + sum_list (drop next_group counts) \<and>
         (assigned = 0 \<and> next_group < max_end \<longrightarrow> next_group < e) \<and>
         (max_end = length counts \<and> assigned + sum_list (drop next_group counts) \<le> target \<longrightarrow> e = max_end)"
  using assms
proof (induction counts max_end target next_group assigned rule: take_groups.induct)
  case (1 counts max_end target next_group assigned)
  show ?case
  proof (cases "next_group < max_end \<and> (assigned = 0 \<or> assigned + counts ! next_group \<le> target)")
    case True
    with 1(4) have "take_groups counts max_end target (next_group + 1) (assigned + counts ! next_group) = (e, a)"
      by (subst (asm) take_groups.simps) simp
    from 1(1) [OF True _ 1(3) this] True 1(3) sum_list_drop_nth [of next_group counts]
    show ?thesis by auto
  next
    case False
    with 1(4) have "e = next_group" "a = assigned"
      by (subst (asm) take_groups.simps, simp)+
    with False 1(2,3) sum_list_drop_nth [of next_group counts] show ?thesis
      by (cases "next_group < length counts") auto
  qed
qed

lemma parse_ranges_from_partition:
  assumes "w \<le> length counts - start" and "start \<le> length counts" and "w = 0 \<longrightarrow> start = length counts"
    and "remaining = sum_list (drop start counts)"
  shows "concat (map (\<lambda>(a, b). [a..<b]) (parse_ranges_from counts w start remaining)) = [start..<length counts] \<and>
         list_all (\<lambda>(a, b). a < b) (parse_ranges_from counts w start remaining) \<and>
         length (parse_ranges_from counts w start remaining) = w"
  using assms
proof (induction counts w start remaining rule: parse_ranges_from.induct)
  case (2 counts w start remaining)
  let ?max_end = "length counts - w" and ?target = "(remaining + w) div Suc w"
  obtain e a where take: "take_groups counts ?max_end ?target start 0 = (e, a)" by fastforce
  have lt: "start < ?max_end" using 2(2,3) by simp
  from take_groups_spec [OF _ _ take] lt
  have e: "start < e" "e \<le> ?max_end" "a + sum_list (drop e counts) = remaining"
    "w = 0 \<Longrightarrow> e = length counts"
    using 2(5) by auto
  have "parse_ranges_from counts (Suc w) start remaining =
      (start, e) # parse_ranges_from counts w e (remaining - a)"
    using take e(1) by simp
  moreover have "w \<le> length counts - e" "e \<le> length counts" "w = 0 \<longrightarrow> e = length counts"
    "remaining - a = sum_list (drop e counts)"
    using e lt by auto
  from 2(1) [of "Suc w" ?max_end ?target "(e, a)" e a "(e, a)" e a] this take e(1)
  have "concat (map (\<lambda>(a, b). [a..<b]) (parse_ranges_from counts w e (remaining - a))) = [e..<length counts] \<and>
         list_all (\<lambda>(a, b). a < b) (parse_ranges_from counts w e (remaining - a)) \<and>
         length (parse_ranges_from counts w e (remaining - a)) = w"
    by auto
  moreover have "[start..<length counts] = [start..<e] @ [e..<length counts]"
    using e lt upt_add_eq_append [of start e "length counts - e"] by simp
  ultimately show ?case using e(1) by simp
qed simp

lemma parse_ranges_split:
  assumes "0 < threads"
  shows "concat (map (\<lambda>(a, b). [a..<b]) (parse_ranges counts threads)) = [0..<length counts] \<and>
         list_all (\<lambda>(a, b). a < b) (parse_ranges counts threads) \<and>
         length (parse_ranges counts threads) = min threads (length counts)"
  unfolding parse_ranges_def
  using assms by (intro parse_ranges_from_partition) (auto simp: min_def split: if_splits)

text \<open>
  The groups are divided between the parser threads without gap or overlap: in order, the
  ranges are contiguous, not empty, together exactly all groups, and there are as many as
  threads were asked for (but no more than there are groups).
\<close>

theorem parse_ranges_partition:
  assumes "0 < threads"
  shows "concat (map (\<lambda>(a, b). [a..<b]) (parse_ranges counts threads)) = [0..<length counts] \<and>
         list_all (\<lambda>(a, b). a < b) (parse_ranges counts threads) \<and>
         length (parse_ranges counts threads) = min threads (length counts)"
  using assms by (rule parse_ranges_split)

theorem parse_ranges_partition_witness:
  "concat (map (\<lambda>(a, b). [a..<b]) (parse_ranges [5, 0, 1, 9] 3)) = [0..<length [5, 0, 1, 9 :: nat]] \<and>
   list_all (\<lambda>(a, b). a < b) (parse_ranges [5, 0, 1, 9] 3) \<and>
   length (parse_ranges [5, 0, 1, 9] 3) = min 3 (length [5, 0, 1, 9 :: nat])"
  by (rule parse_ranges_partition) simp

section \<open>Parsing\<close>

lemma parse_all_indices:
  "parse_all inet True configs ranges groups =
     parse_indices inet configs (concat (map (\<lambda>(a, b). [a..<b]) ranges)) groups"
proof (induction ranges arbitrary: groups)
  case (Cons range ranges)
  have split: "parse_indices inet configs (xs @ ys) groups =
      (case parse_indices inet configs xs groups of Inl e \<Rightarrow> Inl e
       | Inr groups \<Rightarrow> parse_indices inet configs ys groups)" for xs ys groups
    by (induction xs arbitrary: groups) (auto split: sum.splits)
  with Cons show ?case by (cases range) (auto split: sum.splits)
qed simp

lemma parse_indices_groups:
  assumes "parse_indices inet configs is groups = Inr groups'" and "distinct is"
    and "set is \<subseteq> {..<length groups}"
  shows "length groups' = length groups \<and>
         (\<forall>i \<in> set is. compile_group inet i (configs ! i) = Inr (groups' ! i)) \<and>
         (\<forall>i. i \<notin> set is \<longrightarrow> groups' ! i = groups ! i)"
  using assms
proof (induction "is" arbitrary: groups)
  case (Cons i "is")
  then obtain g where g: "compile_group inet i (configs ! i) = Inr g"
    "parse_indices inet configs is (groups[i := g]) = Inr groups'"
    by (auto split: sum.splits)
  from Cons(1) [OF g(2)] Cons(3,4) g(1) show ?case by (auto simp: nth_list_update)
qed simp

lemma parse_all_groups:
  assumes "parse_all inet True configs (parse_ranges (map f configs) threads)
             (replicate (length configs) default_group) = Inr groups" and "0 < threads"
  shows "length groups = length configs \<and>
         (\<forall>i < length configs. compile_group inet i (configs ! i) = Inr (groups ! i))"
  using assms parse_ranges_split [of threads "map f configs"]
  by (auto simp: parse_all_indices dest!: parse_indices_groups)

lemma compile_filters_set:
  assumes "compile_filters inet gi fi cs = Inr fs" and "f \<in> set fs"
  shows "\<exists>c \<in> set cs. \<exists>i. CompileFilter inet c gi i = Inr f"
  using assms
proof (induction inet gi fi cs arbitrary: fs rule: compile_filters.induct)
  case (2 inet gi fi c cs)
  from 2(2) obtain f0 fs0 where f0: "CompileFilter inet c gi fi = Inr f0"
    "compile_filters inet gi (Suc fi) cs = Inr fs0" "fs = f0 # fs0"
    by (auto split: sum.splits)
  show ?case
  proof (cases "f = f0")
    case True
    with f0(1) show ?thesis by auto
  next
    case False
    with 2(3) f0(3) have "f \<in> set fs0" by simp
    from 2(1) [OF f0(1,2) this] show ?thesis by auto
  qed
qed simp

section \<open>Filters and rules\<close>

text \<open>What a filter means, and what compilation guarantees of its fields.\<close>

definition filter_matches :: "CompiledFilter \<Rightarrow> PacketMetadata \<Rightarrow> bool" where
  "filter_matches f p \<longleftrightarrow>
     (let src = rte_be_to_cpu_32 (ai_src_ip_be (acl_input_of p));
          dst = rte_be_to_cpu_32 (ai_dst_ip_be (acl_input_of p))
      in FilterMatchesPortProtocol f p \<and>
         (match_source_ip f \<longrightarrow> src = source_ip_address f) \<and>
         (match_destination_ip f \<longrightarrow> dst = destination_ip_address f) \<and>
         (match_destination_cidr f \<longrightarrow> dst AND destination_prefix_mask f = destination_network f))"

definition filter_ok :: "CompiledFilter \<Rightarrow> bool" where
  "filter_ok f \<longleftrightarrow> (match_destination_cidr f \<longrightarrow>
     \<not> match_destination_ip f \<and> destination_prefix_length f \<le> 32 \<and>
     destination_prefix_mask f = PrefixMask (ucast (destination_prefix_length f)) \<and>
     destination_network f AND destination_prefix_mask f = destination_network f)"

lemma ucast_ucast_u16: "ucast (ucast (n :: u16) :: u64) = (ucast n :: u32)"
  by (rule bit_word_eqI) (auto simp: bit_simps dest: bit_imp_le_length)

lemma CompileFilter_ok:
  assumes "CompileFilter inet c gi fi = Inr f"
  shows "filter_ok f"
proof (cases "match_destination_cidr f")
  case True
  with assms obtain a where a: "sfc_destination_ip_address c = Some a" "IsCidr a"
    "ParseCidr inet a = Inr (destination_network f, destination_prefix_mask f)"
    "destination_prefix_length f = ucast (strtoul10 (drop (the (find_char (CHR ''/'') a) + 1) a))"
    "\<not> match_destination_ip f"
    by (auto simp: CompileFilter_def split: option.splits sum.splits if_splits prod.splits)
  from a(3) show ?thesis
  proof (rule ParseCidr_cases)
    fix slash address n
    assume *: "find_char (CHR ''/'') a = Some slash" "from_chars_u16 (drop (slash + 1) a) = Some (n, [])"
      "n \<le> 32" "destination_prefix_mask f = PrefixMask n"
      "destination_network f = address AND destination_prefix_mask f"
    have len: "destination_prefix_length f = ucast n"
      using a(4) *(1) from_chars_strtoul [OF *(2)] by (simp add: ucast_ucast_u16)
    have "unat n \<le> 32" using *(3) by (simp add: word_le_nat_alt)
    then have "destination_prefix_length f \<le> 32"
      by (simp add: len word_le_nat_alt unsigned_ucast_eq take_bit_nat_eq_self)
    moreover have "ucast (destination_prefix_length f) = n"
      unfolding len by (rule bit_word_eqI) (auto simp: bit_simps)
    ultimately have "destination_prefix_length f \<le> 32" "ucast (destination_prefix_length f) = n" by auto
    with a(5) *(4,5) show ?thesis by (simp add: filter_ok_def and.assoc)
  qed
qed (simp add: filter_ok_def)

lemma prefix_agrees_simps [simp]:
  "prefix_agrees 0 a b" "prefix_agrees 32 a b \<longleftrightarrow> a = b"
proof -
  show "prefix_agrees 0 a b" by (simp add: prefix_agrees_def PrefixMask_def)
  have all: "x AND PrefixMask 32 = x" for x
  proof -
    have "PrefixMask 32 = - 1" by (simp add: PrefixMask_def)
    then show ?thesis by (metis and.right_neutral)
  qed
  have "ucast (32 :: u32) = (32 :: u16)" by simp
  then show "prefix_agrees 32 a b \<longleftrightarrow> a = b"
    unfolding prefix_agrees_def by (simp only: all)
qed

lemma u16_bounds [simp]: "(p :: u16) \<le> 65535"
proof -
  have "(65535 :: u16) = - 1" by simp
  then show ?thesis by (metis word_order.extremum)
qed

lemma ProtocolToIpProto_inject [simp]: "ProtocolToIpProto a = ProtocolToIpProto b \<longleftrightarrow> a = b"
  by (cases a; cases b) (simp_all add: ProtocolToIpProto_def kIpProtoTcp_def kIpProtoUdp_def)

text \<open>An ACL rule matches the input of a packet exactly if the filter it was built from does.\<close>

lemma BuildAclRule_matches:
  assumes "filter_ok f"
  shows "rule_matches (BuildAclRule f gi fi pr) (acl_input_of p) \<longleftrightarrow> filter_matches f p"
proof -
  have all: "x AND 0xFF = (x :: byte)" for x
  proof -
    have "(0xFF :: byte) = - 1" by simp
    then show ?thesis by (metis and.right_neutral)
  qed
  have port: "(a \<le> b \<and> b \<le> a) = (a = b)" for a b :: u16 by auto
  have cidr: "prefix_agrees (destination_prefix_length f) a (destination_network f) \<longleftrightarrow>
      a AND destination_prefix_mask f = destination_network f" if "match_destination_cidr f" for a
    using assms that by (auto simp: filter_ok_def prefix_agrees_def)
  have excl: "match_destination_cidr f \<Longrightarrow> \<not> match_destination_ip f" using assms by (simp add: filter_ok_def)
  show ?thesis
    using excl cidr port
    by (auto simp: rule_matches_def BuildAclRule_def filter_matches_def FilterMatchesPortProtocol_def
        acl_input_of_def all Let_def)
qed

section \<open>Choosing the least precedence\<close>

lemma userdata_fields:
  fixes a b :: u32
  assumes "unat a < 65536" and "unat b < 65536"
  shows "drop_bit 16 (push_bit 16 a OR (b AND 0xFFFF)) = a"
    and "(push_bit 16 a OR (b AND 0xFFFF)) AND 0xFFFF = b"
proof -
  have small: "\<not> bit w n" if "unat w < 65536" "16 \<le> n" for w :: u32 and n
  proof -
    have "take_bit 16 w = w" using that(1) by (simp add: word_unat_eq_iff unsigned_take_bit_eq take_bit_nat_eq_self)
    then show ?thesis using that(2) by (metis bit_take_bit_iff not_less)
  qed
  have m: "(0xFFFF :: u32) = mask 16" by (simp add: mask_eq_exp_minus_1)
  show "drop_bit 16 (push_bit 16 a OR (b AND 0xFFFF)) = a"
    unfolding m
  proof (rule bit_word_eqI)
    fix n show "bit (drop_bit 16 (push_bit 16 a OR (b AND mask 16))) n = bit a n"
      using small [OF assms(1), of n] by (cases "n < 16") (auto simp: bit_simps)
  qed
  show "(push_bit 16 a OR (b AND 0xFFFF)) AND 0xFFFF = b"
    unfolding m
  proof (rule bit_word_eqI)
    fix n show "bit ((push_bit 16 a OR (b AND mask 16)) AND mask 16) n = bit b n"
      using small [OF assms(2), of n] by (cases "n < 16") (auto simp: bit_simps)
  qed
qed

lemma decode_userdata_BuildAclRule:
  assumes "gi < length groups" and "fi < length (g_filters (groups ! gi))"
    and "length groups < 65535" and "length (g_filters (groups ! gi)) < 65535"
    and "filter_matches (g_filters (groups ! gi) ! fi) p"
  shows "decode_userdata groups p (ar_userdata (BuildAclRule f (of_nat gi) (of_nat fi) pr)) =
           Some (result_of_match (groups ! gi) (cf_label (g_filters (groups ! gi) ! fi)))"
proof -
  have bounds: "unat (of_nat gi + 1 :: u32) = gi + 1" "unat (of_nat fi + 1 :: u32) = fi + 1"
    using assms by (simp_all add: unat_word_ariths unsigned_of_nat take_bit_nat_eq_self)
  have idx: "unat (of_nat gi :: u32) = gi" "unat (of_nat fi :: u32) = fi"
    using assms by (simp_all add: unsigned_of_nat take_bit_nat_eq_self)
  define ud :: u32 where "ud = push_bit 16 (of_nat gi + 1) OR ((of_nat fi + 1) AND 0xFFFF)"
  have ud: "drop_bit 16 ud = of_nat gi + 1" "ud AND 0xFFFF = of_nat fi + 1"
    using userdata_fields [of "of_nat gi + 1" "of_nat fi + 1"] bounds assms by (simp_all add: ud_def)
  have "ud \<noteq> 0"
  proof
    assume "ud = 0"
    with ud(1) have "of_nat gi + 1 = (0 :: u32)" by simp
    with bounds(1) show False by simp
  qed
  moreover have "FilterMatchesPortProtocol (g_filters (groups ! gi) ! fi) p"
    using assms(5) by (simp add: filter_matches_def Let_def)
  ultimately show ?thesis
    using assms(1,2) unfolding decode_userdata_def
    by (simp add: ud idx Let_def BuildAclRule_def ud_def [symmetric])
qed

lemma priority_order:
  assumes "0 \<le> sint (RTE_ACL_MAX_PRIORITY - p)" "sint (RTE_ACL_MAX_PRIORITY - p) \<le> uint RTE_ACL_MAX_PRIORITY"
  shows "sint (RTE_ACL_MAX_PRIORITY - p) = uint RTE_ACL_MAX_PRIORITY - uint p"
proof -
  let ?m = "0x1FFFFFFF :: u32"
  have u: "sint (?m - p) = uint (?m - p)"
    using assms(1) uint_lt2p [of "?m - p"]
    by (cases "bit (uint (?m - p)) 31")
      (simp_all add: RTE_ACL_MAX_PRIORITY_def sint_uint signed_take_bit_eq_take_bit_minus take_bit_int_eq_self)
  have "p \<le> ?m"
  proof (rule ccontr)
    assume "\<not> p \<le> ?m"
    then have "uint ?m < uint p" by (simp add: word_le_def not_le)
    then have "uint (?m - p) = uint ?m - uint p + 2 ^ 32"
      using uint_sub_if' [of ?m p] by simp
    with u assms(2) uint_lt2p [of p] show False by (simp add: RTE_ACL_MAX_PRIORITY_def)
  qed
  then have "uint (?m - p) = uint ?m - uint p" by (simp add: uint_minus_simple_alt)
  with u show ?thesis by (simp add: RTE_ACL_MAX_PRIORITY_def)
qed

end
