(* ===== verification/Rule_Match_Correct.thy ===== *)
theory Rule_Match_Correct
  imports Rule_Engine_Correct
begin

text \<open>
  The SPI matcher against the configuration: chunks hold the rules of their groups, a compiled
  table answers with the least precedence (an interpretation of \<open>ranked_choice\<close>), the answer is the
  one the configuration text prescribes, and bursts are classified packet by packet. A list-based
  ACL library and a small configuration show that the assumptions can be met.
  \<^verbatim>\<open>std::ranges::sort\<close> may order groups of equal precedence freely; the model keeps their order,
  and no theorem depends on it.
\<close>

section \<open>Chunks\<close>

text \<open>Chunks that hold the rules of their groups, in the order of the groups.\<close>

definition in_chunk :: "'c AclChunk \<Rightarrow> nat \<Rightarrow> bool" where
  "in_chunk c i \<longleftrightarrow> ac_start_group_index c \<le> i \<and> i < ac_start_group_index c + ac_group_count c"

definition chunk_ok :: "'c acl_ops \<Rightarrow> CompiledFilterGroup list \<Rightarrow> 'c AclChunk \<Rightarrow> bool" where
  "chunk_ok acl groups c \<longleftrightarrow> ac_start_group_index c + ac_group_count c \<le> length groups \<and>
     (\<exists>ctx. ac_ctx c = Some ctx \<and>
        acl_rules acl ctx = chunk_rules groups (ac_start_group_index c) (ac_group_count c) \<and>
        (\<forall>r \<in> set (acl_rules acl ctx). 0 \<le> ar_priority r \<and> ar_priority r \<le> uint RTE_ACL_MAX_PRIORITY))"

definition groups_ok :: "CompiledFilterGroup list \<Rightarrow> bool" where
  "groups_ok groups \<longleftrightarrow> length groups < 65535 \<and> sorted (map g_precedence groups) \<and>
     (\<forall>g \<in> set groups. length (g_filters g) < 65535 \<and> (\<forall>f \<in> set (g_filters g). filter_ok f))"

definition group_hit :: "CompiledFilterGroup list \<Rightarrow> PacketMetadata \<Rightarrow> nat \<Rightarrow> CompiledFilter \<Rightarrow> bool" where
  "group_hit groups p i f \<longleftrightarrow> f \<in> set (g_filters (groups ! i)) \<and> filter_matches f p"

definition spi_table_ok :: "'c acl_ops \<times> ('c, 'm) RuleTable \<Rightarrow> PacketMetadata \<Rightarrow> bool" where
  "spi_table_ok = (\<lambda>(acl, t) p. acl_contract acl \<and> groups_ok (rt_groups t) \<and>
     (\<forall>c \<in> set (rt_acl_chunks t). chunk_ok acl (rt_groups t) c) \<and>
     sorted_wrt (\<lambda>c d. ac_start_group_index c + ac_group_count c \<le> ac_start_group_index d) (rt_acl_chunks t) \<and>
     (\<forall>i < length (rt_groups t). g_filters (rt_groups t ! i) \<noteq> [] \<longrightarrow> (\<exists>c \<in> set (rt_acl_chunks t). in_chunk c i)))"

lemma chunk_rules_set:
  "r \<in> set (chunk_rules groups start n) \<longleftrightarrow>
     (\<exists>i fi. start \<le> i \<and> i < start + n \<and> fi < length (g_filters (groups ! i)) \<and>
        r = BuildAclRule (g_filters (groups ! i) ! fi) (of_nat i) (of_nat fi) (g_precedence (groups ! i)))"
    (is "_ \<longleftrightarrow> ?R")
proof
  assume "r \<in> set (chunk_rules groups start n)"
  then obtain k fi where "k < n" "fi < length (g_filters (groups ! (start + k)))"
    "r = BuildAclRule (g_filters (groups ! (start + k)) ! fi) (of_nat (start + k)) (of_nat fi)
           (g_precedence (groups ! (start + k)))"
    by (auto simp: chunk_rules_def group_rules_def in_set_enumerate_eq)
  then show ?R by (intro exI [of _ "start + k"] exI [of _ fi]) simp
next
  assume ?R
  then obtain i fi where *: "start \<le> i" "i < start + n" "fi < length (g_filters (groups ! i))"
    "r = BuildAclRule (g_filters (groups ! i) ! fi) (of_nat i) (of_nat fi) (g_precedence (groups ! i))" by blast
  then have "(fi, g_filters (groups ! i) ! fi) \<in> set (List.enumerate 0 (g_filters (groups ! i)))"
    by (simp add: in_set_enumerate_eq)
  with * have "r \<in> set (group_rules i (groups ! i))"
    by (force simp: group_rules_def)
  moreover have "i - start \<in> set [0..<n]" "start + (i - start) = i" using * by auto
  ultimately show "r \<in> set (chunk_rules groups start n)"
    unfolding chunk_rules_def by (auto intro!: bexI [of _ "i - start"])
qed

lemma acl_contractD:
  assumes "acl_contract acl"
  shows "acl_classify acl c xs = Some (map (acl_best acl c) xs)"
    and "(acl_best acl c i = 0 \<and> (\<forall>r \<in> set (acl_rules acl c). \<not> rule_matches r i)) \<or>
       (\<exists>r \<in> set (acl_rules acl c). acl_best acl c i = ar_userdata r \<and> rule_matches r i \<and>
          (\<forall>r' \<in> set (acl_rules acl c). rule_matches r' i \<longrightarrow> ar_priority r' \<le> ar_priority r))"
  using assms unfolding acl_contract_def by blast+

lemma chunk_best:
  assumes "acl_contract acl" and "groups_ok groups" and "chunk_ok acl groups c" and "ac_ctx c = Some ctx"
  shows "(decode_userdata groups p (acl_best acl ctx (acl_input_of p)) = None \<and>
            (\<forall>i f. in_chunk c i \<longrightarrow> \<not> group_hit groups p i f)) \<or>
         (\<exists>i f. in_chunk c i \<and> group_hit groups p i f \<and>
            decode_userdata groups p (acl_best acl ctx (acl_input_of p)) =
              Some (result_of_match (groups ! i) (cf_label f)) \<and>
            (\<forall>j f'. in_chunk c j \<and> group_hit groups p j f' \<longrightarrow>
               g_precedence (groups ! i) \<le> g_precedence (groups ! j)))"
proof -
  let ?rules = "chunk_rules groups (ac_start_group_index c) (ac_group_count c)"
  from assms(3,4) have rules: "acl_rules acl ctx = ?rules"
    and prio: "\<And>r. r \<in> set ?rules \<Longrightarrow> 0 \<le> ar_priority r \<and> ar_priority r \<le> uint RTE_ACL_MAX_PRIORITY"
    and len: "ac_start_group_index c + ac_group_count c \<le> length groups"
    by (auto simp: chunk_ok_def)
  have rule_of: "\<exists>r \<in> set ?rules. rule_matches r (acl_input_of p) \<and>
      ar_priority r = uint RTE_ACL_MAX_PRIORITY - uint (g_precedence (groups ! j))"
    if hit: "in_chunk c j" "group_hit groups p j f'" for j f'
  proof -
    from hit obtain fj where fj: "fj < length (g_filters (groups ! j))" "f' = g_filters (groups ! j) ! fj"
      by (auto simp: group_hit_def in_set_conv_nth)
    let ?r = "BuildAclRule f' (of_nat j) (of_nat fj) (g_precedence (groups ! j))"
    have r: "?r \<in> set ?rules" using hit(1) fj by (auto simp: chunk_rules_set in_chunk_def)
    have "j < length groups" using hit(1) len by (simp add: in_chunk_def)
    with assms(2) hit(2) have "filter_ok f'" by (auto simp: groups_ok_def group_hit_def)
    with hit(2) have "rule_matches ?r (acl_input_of p)" by (simp add: BuildAclRule_matches group_hit_def)
    moreover have "ar_priority ?r = uint RTE_ACL_MAX_PRIORITY - uint (g_precedence (groups ! j))"
      using prio [OF r] priority_order by (simp add: BuildAclRule_def)
    ultimately show ?thesis using r by blast
  qed
  from acl_contractD(2) [OF assms(1), of ctx "acl_input_of p"] show ?thesis
  proof (elim disjE)
    assume "acl_best acl ctx (acl_input_of p) = 0 \<and>
      (\<forall>r \<in> set (acl_rules acl ctx). \<not> rule_matches r (acl_input_of p))"
    with rule_of show ?thesis by (fastforce simp: rules decode_userdata_def)
  next
    assume "\<exists>r \<in> set (acl_rules acl ctx). acl_best acl ctx (acl_input_of p) = ar_userdata r \<and>
      rule_matches r (acl_input_of p) \<and> (\<forall>r' \<in> set (acl_rules acl ctx).
        rule_matches r' (acl_input_of p) \<longrightarrow> ar_priority r' \<le> ar_priority r)"
    then obtain r where r: "r \<in> set ?rules" "acl_best acl ctx (acl_input_of p) = ar_userdata r"
      "rule_matches r (acl_input_of p)"
      "\<And>r'. r' \<in> set ?rules \<Longrightarrow> rule_matches r' (acl_input_of p) \<Longrightarrow> ar_priority r' \<le> ar_priority r"
      unfolding rules by blast
    from r(1) obtain i fi where i: "ac_start_group_index c \<le> i" "i < ac_start_group_index c + ac_group_count c"
      "fi < length (g_filters (groups ! i))"
      "r = BuildAclRule (g_filters (groups ! i) ! fi) (of_nat i) (of_nat fi) (g_precedence (groups ! i))"
      by (auto simp: chunk_rules_set)
    have il: "i < length groups" using i len by simp
    then have "groups ! i \<in> set groups" "g_filters (groups ! i) ! fi \<in> set (g_filters (groups ! i))"
      using i(3) by simp_all
    with assms(2) have ok: "filter_ok (g_filters (groups ! i) ! fi)"
      "length (g_filters (groups ! i)) < 65535" "length groups < 65535" unfolding groups_ok_def by blast+
    from r(3) i(4) ok(1) have fm: "filter_matches (g_filters (groups ! i) ! fi) p"
      by (simp add: BuildAclRule_matches)
    have "g_precedence (groups ! i) \<le> g_precedence (groups ! j)"
      if "in_chunk c j" "group_hit groups p j f'" for j f'
    proof -
      from rule_of [OF that] obtain r' where "r' \<in> set ?rules" "rule_matches r' (acl_input_of p)"
        "ar_priority r' = uint RTE_ACL_MAX_PRIORITY - uint (g_precedence (groups ! j))" by blast
      with r(4) [of r'] have "uint RTE_ACL_MAX_PRIORITY - uint (g_precedence (groups ! j)) \<le> ar_priority r"
        by simp
      also have "\<dots> = uint RTE_ACL_MAX_PRIORITY - uint (g_precedence (groups ! i))"
        using prio [OF r(1)] priority_order by (simp add: i(4) BuildAclRule_def)
      finally show ?thesis by (simp add: word_le_def)
    qed
    moreover have "decode_userdata groups p (acl_best acl ctx (acl_input_of p)) =
        Some (result_of_match (groups ! i) (cf_label (g_filters (groups ! i) ! fi)))"
      unfolding r(2) i(4) using il i(3) ok(2,3) fm by (intro decode_userdata_BuildAclRule) auto
    ultimately show ?thesis using i(1-3) fm
      by (intro disjI2 exI [of _ i] exI [of _ "g_filters (groups ! i) ! fi"]) (auto simp: in_chunk_def group_hit_def)
  qed
qed

lemma match_chunks_least:
  assumes "acl_contract acl" and "groups_ok groups" and "\<forall>c \<in> set chunks. chunk_ok acl groups c"
    and "sorted_wrt (\<lambda>c d. ac_start_group_index c + ac_group_count c \<le> ac_start_group_index d) chunks"
  shows "(match_chunks acl groups p chunks = no_classification \<and>
            (\<forall>c \<in> set chunks. \<forall>i f. in_chunk c i \<longrightarrow> \<not> group_hit groups p i f)) \<or>
         (\<exists>i f. i < length groups \<and> group_hit groups p i f \<and>
            match_chunks acl groups p chunks = result_of_match (groups ! i) (cf_label f) \<and>
            (\<forall>c \<in> set chunks. \<forall>j f'. in_chunk c j \<and> group_hit groups p j f' \<longrightarrow>
               g_precedence (groups ! i) \<le> g_precedence (groups ! j)))"
  using assms(3,4)
proof (induction chunks)
  case (Cons c chunks)
  from Cons(2) obtain ctx where ctx: "ac_ctx c = Some ctx" and ok: "chunk_ok acl groups c"
    by (auto simp: chunk_ok_def)
  let ?d = "decode_userdata groups p (acl_best acl ctx (acl_input_of p))"
  have step: "match_chunks acl groups p (c # chunks) =
      (case ?d of Some r \<Rightarrow> r | None \<Rightarrow> match_chunks acl groups p chunks)"
    by (simp add: ctx acl_contractD(1) [OF assms(1)])
  from chunk_best [OF assms(1,2) ok ctx, of p] show ?case
  proof (elim disjE exE conjE)
    assume none: "?d = None" "\<forall>i f. in_chunk c i \<longrightarrow> \<not> group_hit groups p i f"
    from Cons(2,3) have "\<forall>c \<in> set chunks. chunk_ok acl groups c"
      "sorted_wrt (\<lambda>c d. ac_start_group_index c + ac_group_count c \<le> ac_start_group_index d) chunks"
      by simp_all
    from Cons(1) [OF this] none(2) show ?thesis unfolding step none(1) option.case list.set by blast
  next
    fix i f
    assume hit: "in_chunk c i" "group_hit groups p i f" "?d = Some (result_of_match (groups ! i) (cf_label f))"
      "\<forall>j f'. in_chunk c j \<and> group_hit groups p j f' \<longrightarrow> g_precedence (groups ! i) \<le> g_precedence (groups ! j)"
    have il: "i < length groups" using hit(1) ok by (auto simp: in_chunk_def chunk_ok_def)
    have "g_precedence (groups ! i) \<le> g_precedence (groups ! j)"
      if "d \<in> set chunks" "in_chunk d j" for d j
    proof -
      from that Cons(2,3) hit(1) have "i \<le> j" "j < length groups"
        by (fastforce simp: in_chunk_def chunk_ok_def)+
      with assms(2) il show ?thesis by (auto simp: groups_ok_def sorted_iff_nth_mono)
    qed
    with hit il show ?thesis unfolding step hit(3) option.case
      by (intro disjI2 exI [of _ i] exI [of _ f]) auto
  qed
qed simp

definition rt_entries :: "('c, 'm) RuleTable \<Rightarrow> (CompiledFilterGroup \<times> CompiledFilter) list" where
  "rt_entries t = concat (map (\<lambda>g. map (Pair g) (g_filters g)) (rt_groups t))"

definition spi_select :: "'c acl_ops \<times> ('c, 'm) RuleTable \<Rightarrow> PacketMetadata \<Rightarrow> ClassificationResult option" where
  "spi_select = (\<lambda>(acl, t) p. let r = RuleTable_Match acl t p in if cr_matched r then Some r else None)"

lemma rt_entries_iff: "(g, f) \<in> set (rt_entries t) \<longleftrightarrow> g \<in> set (rt_groups t) \<and> f \<in> set (g_filters g)"
  by (auto simp: rt_entries_def)

lemma RuleTable_Match_cases:
  assumes "spi_table_ok (acl, t) p"
  shows "(RuleTable_Match acl t p = no_classification \<and> (\<forall>(g, f) \<in> set (rt_entries t). \<not> filter_matches f p)) \<or>
    (\<exists>(g, f) \<in> set (rt_entries t). RuleTable_Match acl t p = result_of_match g (cf_label f) \<and> filter_matches f p \<and>
       (\<forall>(g', f') \<in> set (rt_entries t). filter_matches f' p \<longrightarrow> g_precedence g \<le> g_precedence g'))"
proof -
  from assms have ok: "acl_contract acl" "groups_ok (rt_groups t)"
    "\<forall>c \<in> set (rt_acl_chunks t). chunk_ok acl (rt_groups t) c"
    "sorted_wrt (\<lambda>c d. ac_start_group_index c + ac_group_count c \<le> ac_start_group_index d) (rt_acl_chunks t)"
    and covered: "\<And>i. i < length (rt_groups t) \<Longrightarrow> g_filters (rt_groups t ! i) \<noteq> [] \<Longrightarrow>
      \<exists>c \<in> set (rt_acl_chunks t). in_chunk c i"
    by (auto simp: spi_table_ok_def)
  have m: "RuleTable_Match acl t p = match_chunks acl (rt_groups t) p (rt_acl_chunks t)"
    by (cases "rt_acl_chunks t") (simp_all add: RuleTable_Match_def)
  have at: "\<exists>c \<in> set (rt_acl_chunks t). \<exists>i. in_chunk c i \<and> g = rt_groups t ! i \<and> group_hit (rt_groups t) p i f"
    if entry: "(g, f) \<in> set (rt_entries t)" "filter_matches f p" for g f
  proof -
    from entry(1) have "g \<in> set (rt_groups t)" "f \<in> set (g_filters g)" by (simp_all add: rt_entries_iff)
    then obtain i where i: "i < length (rt_groups t)" "g = rt_groups t ! i" "f \<in> set (g_filters g)"
      by (metis in_set_conv_nth)
    with covered [of i] entry(2) show ?thesis by (force simp: group_hit_def)
  qed
  from match_chunks_least [OF ok, of p] show ?thesis
  proof (elim disjE exE conjE)
    fix i f
    assume "i < length (rt_groups t)" "group_hit (rt_groups t) p i f"
      "match_chunks acl (rt_groups t) p (rt_acl_chunks t) = result_of_match (rt_groups t ! i) (cf_label f)"
      "\<forall>c \<in> set (rt_acl_chunks t). \<forall>j f'. in_chunk c j \<and> group_hit (rt_groups t) p j f' \<longrightarrow>
         g_precedence (rt_groups t ! i) \<le> g_precedence (rt_groups t ! j)"
    moreover from this at have "\<forall>(g', f') \<in> set (rt_entries t). filter_matches f' p \<longrightarrow>
        g_precedence (rt_groups t ! i) \<le> g_precedence g'" by fastforce
    ultimately show ?thesis
      by (intro disjI2 bexI [of _ "(rt_groups t ! i, f)"]) (auto simp: m rt_entries_iff group_hit_def)
  qed (use at m in fastforce)
qed

lemma cr_matched_result [simp]: "cr_matched (result_of_match g l)"
  by (simp add: result_of_match_def)

interpretation spi_table: ranked_choice "\<lambda>(acl, t). rt_entries t" "\<lambda>(g, f). unat (g_precedence g)"
  "\<lambda>(g, f). filter_matches f" "\<lambda>(g, f). result_of_match g (cf_label f)" spi_select spi_table_ok
proof (unfold_locales, goal_cases)
  case (1 t p r)
  obtain acl tt where t: "t = (acl, tt)" by force
  with 1 have r: "r = RuleTable_Match acl tt p" "cr_matched r"
    by (simp_all add: spi_select_def Let_def split: if_splits)
  from RuleTable_Match_cases [OF 1(1) [unfolded t]] show ?case
  proof (elim disjE conjE bexE)
    fix e
    assume "e \<in> set (rt_entries tt)"
      "case e of (g, f) \<Rightarrow> RuleTable_Match acl tt p = result_of_match g (cf_label f) \<and> filter_matches f p \<and>
       (\<forall>(g', f') \<in> set (rt_entries tt). filter_matches f' p \<longrightarrow> g_precedence g \<le> g_precedence g')"
    then show ?thesis unfolding t r by (intro bexI [of _ e]) (auto simp: word_le_nat_alt)
  qed (use r in simp)
next
  case (2 t p)
  obtain acl tt where t: "t = (acl, tt)" by force
  from RuleTable_Match_cases [OF 2(1) [unfolded t]] show ?case
    unfolding t spi_select_def Let_def prod.case
  proof (elim disjE conjE bexE)
    fix e
    assume "e \<in> set (rt_entries tt)"
      "case e of (g, f) \<Rightarrow> RuleTable_Match acl tt p = result_of_match g (cf_label f) \<and> filter_matches f p \<and>
       (\<forall>(g', f') \<in> set (rt_entries tt). filter_matches f' p \<longrightarrow> g_precedence g \<le> g_precedence g')"
    then show "((if cr_matched (RuleTable_Match acl tt p) then Some (RuleTable_Match acl tt p) else None) = None) =
        (\<forall>e \<in> set (rt_entries tt). \<not> (case e of (g, f) \<Rightarrow> filter_matches f) p)"
      by - (cases e, force)
  qed auto
qed

section \<open>Compiled tables\<close>

lemma compile_chunks_all2:
  "compile_chunks f specs = Inr cs \<Longrightarrow> list_all2 (\<lambda>s c. f s = Inr c) specs cs"
  by (induction specs arbitrary: cs) (auto split: sum.splits)

lemma ApplyAclClassifyAlgorithm_rules:
  assumes "acl_contract acl" and "ApplyAclClassifyAlgorithm acl ctx a = Some ctx'"
  shows "acl_rules acl ctx' = acl_rules acl ctx"
  using assms by (auto simp: ApplyAclClassifyAlgorithm_def acl_contract_def split: if_splits)

lemma compile_chunk_ok:
  assumes "acl_contract acl" and "compile_chunk acl affinity a max_size groups (k, start, n) = Inr c"
    and "start + n \<le> length groups"
  shows "ac_start_group_index c = start \<and> ac_group_count c = n \<and> chunk_ok acl groups c"
proof -
  from assms(2) obtain c0 c1 c2 c3 where
    c0: "acl_create acl k (chunk_rule_count groups start n) = Some c0" and
    c1: "acl_add_rules acl c0 (chunk_rules groups start n) = Some c1" and
    c2: "acl_build acl c1 max_size = Some c2" and
    c3: "ApplyAclClassifyAlgorithm acl c2 a = Some c3" and
    c: "c = \<lparr>ac_ctx = Some c3, ac_start_group_index = start, ac_group_count = n\<rparr>"
    by (auto simp: compile_chunk_def split: if_splits option.splits)
  from assms(1) c0 have "acl_rules acl c0 = []" unfolding acl_contract_def by blast
  with assms(1) c1 have 1: "acl_rules acl c1 = chunk_rules groups start n \<and>
      (\<forall>r \<in> set (chunk_rules groups start n). 0 \<le> ar_priority r \<and> ar_priority r \<le> uint RTE_ACL_MAX_PRIORITY)"
    unfolding acl_contract_def by (metis append_Nil)
  from assms(1) c2 have "acl_rules acl c2 = acl_rules acl c1" unfolding acl_contract_def by blast
  with 1 ApplyAclClassifyAlgorithm_rules [OF assms(1) c3] assms(3) show ?thesis
    by (simp add: c chunk_ok_def)
qed

definition chunk_layout :: "CompiledFilterGroup list \<Rightarrow> (nat \<times> nat) list" where
  "chunk_layout groups = filter (\<lambda>(start, n). 0 < chunk_rule_count groups start n)
     (map (\<lambda>k. (k * kAclMaxCategoriesChunk,
                 min kAclMaxCategoriesChunk (length groups - k * kAclMaxCategoriesChunk)))
       [0..<(length groups + kAclMaxCategoriesChunk - 1) div kAclMaxCategoriesChunk])"

lemma chunk_layout_bound:
  assumes "(start, n) \<in> set (chunk_layout groups)"
  shows "start + n \<le> length groups"
  using assms by (auto simp: chunk_layout_def kAclMaxCategoriesChunk_def)

lemma chunk_layout_sorted: "sorted_wrt (\<lambda>(s, n) (s', n'). s + n \<le> s') (chunk_layout groups)"
  unfolding chunk_layout_def
  by (rule sorted_wrt_filter) (auto simp: sorted_wrt_map sorted_wrt_iff_nth_less kAclMaxCategoriesChunk_def)

lemma chunk_rule_count_member:
  "j < n \<Longrightarrow> length (g_filters (groups ! (start + j))) \<le> chunk_rule_count groups start n"
  unfolding chunk_rule_count_def by (rule member_le_sum_list) (simp_all add: imageI)

lemma chunk_layout_covers:
  assumes "i < length groups" and "g_filters (groups ! i) \<noteq> []"
  shows "\<exists>(start, n) \<in> set (chunk_layout groups). start \<le> i \<and> i < start + n"
proof -
  let ?k = "i div 256"
  let ?n = "min 256 (length groups - ?k * 256)"
  have i: "?k * 256 \<le> i" "i < ?k * 256 + ?n" using assms(1) by (auto simp: min_def)
  have "?k < (length groups + 255) div 256" using assms(1) by linarith
  moreover have "0 < chunk_rule_count groups (?k * 256) ?n"
  proof -
    have "i - ?k * 256 < ?n" using i by linarith
    from chunk_rule_count_member [OF this, of groups "?k * 256"] i(1) assms(2) show ?thesis
      by (cases "g_filters (groups ! i)") auto
  qed
  ultimately have "(?k * 256, ?n) \<in> set (chunk_layout groups)"
    by (auto simp: chunk_layout_def kAclMaxCategoriesChunk_def)
  with i show ?thesis by blast
qed

lemma compiled_chunks:
  assumes "acl_contract acl" and "compile_chunks (compile_chunk acl affinity a max_size groups) (task_specs groups) = Inr chunks"
  shows "map (\<lambda>c. (ac_start_group_index c, ac_group_count c)) chunks = chunk_layout groups \<and>
         (\<forall>c \<in> set chunks. chunk_ok acl groups c)"
proof -
  have specs: "map snd (task_specs groups) = chunk_layout groups"
    by (simp add: task_specs_def chunk_layout_def)
  from compile_chunks_all2 [OF assms(2)]
  have all2: "list_all2 (\<lambda>s c. compile_chunk acl affinity a max_size groups s = Inr c) (task_specs groups) chunks" .
  have one: "(ac_start_group_index c, ac_group_count c) = snd s \<and> chunk_ok acl groups c"
    if "s \<in> set (task_specs groups)" "compile_chunk acl affinity a max_size groups s = Inr c" for s c
  proof -
    obtain k start n where s: "s = (k, start, n)" by (cases s)
    from that(1) have "snd s \<in> set (map snd (task_specs groups))" by simp
    then have "(start, n) \<in> set (chunk_layout groups)" unfolding specs s by simp
    from compile_chunk_ok [OF assms(1) that(2) [unfolded s] chunk_layout_bound [OF this]] s show ?thesis by simp
  qed
  have "list_all2 (\<lambda>s c. snd s = (ac_start_group_index c, ac_group_count c) \<and> chunk_ok acl groups c) (task_specs groups) chunks"
    by (rule list.rel_mono_strong [OF all2]) (use one in force)
  then show ?thesis unfolding specs [symmetric]
    by (auto simp: list_all2_conv_all_nth in_set_conv_nth intro: nth_equalityI)
qed

lemma sort_groups_set:
  "set (map (\<lambda>g. g\<lparr>g_category_index := 0\<rparr>) (sort_groups gs)) = set (map (\<lambda>g. g\<lparr>g_category_index := 0\<rparr>) gs)"
proof -
  have "map (\<lambda>g. g\<lparr>g_category_index := 0\<rparr>) (sort_groups gs) =
      map (\<lambda>g. g\<lparr>g_category_index := 0\<rparr>) (sort_key g_precedence gs)"
    by (auto simp: sort_groups_def list_eq_iff_nth_eq nth_enumerate_eq)
  then show ?thesis by (metis set_map set_sort)
qed

lemma sort_groups_twin:
  "g \<in> set (sort_groups gs) \<Longrightarrow> \<exists>g0 \<in> set gs. g\<lparr>g_category_index := 0\<rparr> = g0\<lparr>g_category_index := 0\<rparr>"
  "g0 \<in> set gs \<Longrightarrow> \<exists>g \<in> set (sort_groups gs). g\<lparr>g_category_index := 0\<rparr> = g0\<lparr>g_category_index := 0\<rparr>"
  using sort_groups_set [of gs] by (metis (no_types, lifting) image_iff set_map)+

lemma category_twin:
  assumes "g\<lparr>g_category_index := 0\<rparr> = g0\<lparr>g_category_index := 0\<rparr>"
  shows "g_filters g = g_filters g0" "g_precedence g = g_precedence g0" "result_of_match g = result_of_match g0"
  using assms by (cases g; cases g0; simp add: result_of_match_def fun_eq_iff)+

lemma sort_groups_sorted: "sorted (map g_precedence (sort_groups gs))"
proof -
  have "map g_precedence (sort_groups gs) = map g_precedence (sort_key g_precedence gs)"
    by (auto simp: sort_groups_def list_eq_iff_nth_eq nth_enumerate_eq)
  then show ?thesis by simp
qed

lemma length_sort_groups [simp]: "length (sort_groups gs) = length gs"
  by (simp add: sort_groups_def)

lemma compile_filters_length: "compile_filters inet gi fi cs = Inr fs \<Longrightarrow> length fs = length cs"
  by (induction inet gi fi cs arbitrary: fs rule: compile_filters.induct) (auto split: sum.splits)

lemma compile_filters_nth:
  "compile_filters inet gi fi cs = Inr fs \<Longrightarrow> i < length cs \<Longrightarrow>
     CompileFilter inet (cs ! i) gi (fi + i) = Inr (fs ! i)"
proof (induction inet gi fi cs arbitrary: fs i rule: compile_filters.induct)
  case (2 inet gi fi c cs)
  then obtain f0 fs0 where f0: "CompileFilter inet c gi fi = Inr f0"
    "compile_filters inet gi (Suc fi) cs = Inr fs0" "fs = f0 # fs0"
    by (auto split: sum.splits)
  with 2(1) [OF f0(1,2)] 2(3) show ?case by (cases i) auto
qed simp

text \<open>What a successful compilation has done, up to the order of the groups.\<close>

lemma CompileRuleTable_cases:
  assumes "CompileRuleTable inet acl member crc cpus affinity config = Inr t"
  obtains parsed chunks algorithm max_size where
    "length parsed = length (filter_groups config)"
    "\<forall>i < length (filter_groups config). compile_group inet i (filter_groups config ! i) = Inr (parsed ! i)"
    "compile_chunks (compile_chunk acl affinity algorithm max_size (sort_groups parsed))
       (task_specs (sort_groups parsed)) = Inr chunks"
    "t = RuleTable_move (make_RuleTable crc (sort_groups parsed) chunks
           (map of_nat [0..<length (sort_groups parsed)]) (build_member member (sort_groups parsed)) max_size algorithm)"
proof -
  let ?threads = "min (max (max_compilation_threads config) 1) (max 1 cpus)"
  let ?ranges = "parse_ranges (map (\<lambda>g. length (sgc_filters g)) (filter_groups config)) ?threads"
  from assms obtain parsed chunks algorithm max_size where
    parsed: "parse_all inet affinity (filter_groups config) ?ranges
               (replicate (length (filter_groups config)) default_group) = Inr parsed" and
    some: "sum_list (map (\<lambda>g. length (g_filters g)) (sort_groups parsed)) \<noteq> 0" and
    rest: "compile_chunks (compile_chunk acl affinity algorithm max_size (sort_groups parsed))
       (task_specs (sort_groups parsed)) = Inr chunks"
    "t = RuleTable_move (make_RuleTable crc (sort_groups parsed) chunks
           (map of_nat [0..<length (sort_groups parsed)]) (build_member member (sort_groups parsed)) max_size algorithm)"
    unfolding CompileRuleTable_def Let_def by (auto split: sum.splits if_splits)
  have threads: "0 < ?threads" by (simp add: less_max_iff_disj)
  have aff: "affinity = True"
  proof (rule ccontr)
    assume "affinity \<noteq> True"
    with parsed have "?ranges = []" by (cases ?ranges) auto
    then have "[0..<length (filter_groups config)] = []"
      using parse_ranges_split [OF threads, of "map (\<lambda>g. length (sgc_filters g)) (filter_groups config)"] by simp
    then have "filter_groups config = []" by simp
    with parsed \<open>?ranges = []\<close> some show False by (simp add: sort_groups_def)
  qed
  from parse_all_groups [OF parsed [unfolded aff] threads] show thesis using that [OF _ _ rest] by blast
qed

lemma compile_group_fields:
  assumes "compile_group inet gi c = Inr g"
  obtains fs where "compile_filters inet gi 0 (sgc_filters c) = Inr fs"
    "g = \<lparr>g_name = sgc_name c, g_precedence = sgc_precedence c, g_action = ParseAction (sgc_action c),
          g_filters = fs, g_category_index = of_nat gi, g_l7_required = sgc_l7_required c,
          g_bound_dpi_filter_index = kNoDpiLink, g_bound_dpi_name = sgc_dpi_filter_group c\<rparr>"
  using assms by (auto simp: compile_group_def split: sum.splits)

section \<open>From the configuration to the answer\<close>

text \<open>
  What a filter of the configuration says of a packet, read off its text: the protocol by
  name, addresses and blocks by the parsers, ports by number.
\<close>

definition config_filter_matches :: "inet_ops \<Rightarrow> SpiFilterConfig \<Rightarrow> PacketMetadata \<Rightarrow> bool" where
  "config_filter_matches inet fc p \<longleftrightarrow>
     (let src = rte_be_to_cpu_32 (ai_src_ip_be (acl_input_of p));
          dst = rte_be_to_cpu_32 (ai_dst_ip_be (acl_input_of p))
      in sfc_protocol fc = (if protocol p = kTcp then ''tcp'' else ''udp'') \<and>
         (case sfc_source_ip_address fc of None \<Rightarrow> True | Some a \<Rightarrow> ParseIpv4Address inet a = Inr src) \<and>
         (case sfc_destination_ip_address fc of None \<Rightarrow> True
          | Some a \<Rightarrow> if IsCidr a then (case ParseCidr inet a of Inl e \<Rightarrow> False | Inr (network, msk) \<Rightarrow> dst AND msk = network)
                       else ParseIpv4Address inet a = Inr dst) \<and>
         (case sfc_source_port fc of None \<Rightarrow> True | Some n \<Rightarrow> n = rte_be_to_cpu_16 (source_port_be p)) \<and>
         (case sfc_destination_port fc of None \<Rightarrow> True | Some n \<Rightarrow> n = rte_be_to_cpu_16 (destination_port_be p)))"

lemma CompileFilter_matches:
  assumes "CompileFilter inet fc gi fi = Inr f"
  shows "filter_matches f p \<longleftrightarrow> config_filter_matches inet fc p" and "cf_label f = sfc_label fc"
proof -
  have proto: "ParseProtocol (sfc_protocol fc) = Some pr \<Longrightarrow>
      (pr = protocol p) = (sfc_protocol fc = (if protocol p = kTcp then ''tcp'' else ''udp''))" for pr
    by (cases "protocol p"; cases pr) (auto simp: ParseProtocol_def split: if_splits)
  obtain pr where pr: "ParseProtocol (sfc_protocol fc) = Some pr"
    using assms by (cases "ParseProtocol (sfc_protocol fc)") (simp_all add: CompileFilter_def)
  obtain sip where S: "(case sfc_source_ip_address fc of None \<Rightarrow> Inr 0 | Some a \<Rightarrow> ParseIpv4Address inet a) = Inr sip"
    using assms by (cases "case sfc_source_ip_address fc of None \<Rightarrow> Inr 0 | Some a \<Rightarrow> ParseIpv4Address inet a")
      (simp_all add: CompileFilter_def pr)
  let ?D = "case sfc_destination_ip_address fc of None \<Rightarrow> Inr (0 :: u32, 0 :: u32, 0 :: u32, 0 :: u32, False)
     | Some a \<Rightarrow>
         if IsCidr a
         then (case ParseCidr inet a of Inl e \<Rightarrow> Inl e
               | Inr (network, msk) \<Rightarrow>
                   Inr (0, network, msk, ucast (strtoul10 (drop (the (find_char (CHR ''/'') a) + 1) a)), True))
         else (case ParseIpv4Address inet a of Inl e \<Rightarrow> Inl e | Inr ip \<Rightarrow> Inr (ip, 0, 0, 0, False))"
  obtain dip dn dm dl cidr where D: "?D = Inr (dip, dn, dm, dl, cidr)"
  proof (cases ?D)
    case (Inl e)
    with assms pr S show ?thesis by (simp add: CompileFilter_def)
  next
    case (Inr x)
    with that show ?thesis by (cases x) auto
  qed
  from assms have f: "match_source_ip f = (sfc_source_ip_address fc \<noteq> None)" "source_ip_address f = sip"
    "match_destination_ip f = (sfc_destination_ip_address fc \<noteq> None \<and> \<not> cidr)" "destination_ip_address f = dip"
    "match_destination_cidr f = cidr" "destination_network f = dn" "destination_prefix_mask f = dm"
    "cf_protocol f = pr" "match_source_port f = (sfc_source_port fc \<noteq> None)"
    "match_destination_port f = (sfc_destination_port fc \<noteq> None)"
    "cf_source_port f = (case sfc_source_port fc of None \<Rightarrow> 0 | Some p \<Rightarrow> p)"
    "cf_destination_port f = (case sfc_destination_port fc of None \<Rightarrow> 0 | Some p \<Rightarrow> p)" "cf_label f = sfc_label fc"
    unfolding CompileFilter_def pr option.case S sum.case D prod.case by auto
  have src: "(match_source_ip f \<longrightarrow> a = source_ip_address f) \<longleftrightarrow>
      (case sfc_source_ip_address fc of None \<Rightarrow> True | Some t \<Rightarrow> ParseIpv4Address inet t = Inr a)" for a
    using S by (auto simp: f split: option.splits)
  have dst: "((match_destination_ip f \<longrightarrow> a = destination_ip_address f) \<and>
        (match_destination_cidr f \<longrightarrow> a AND destination_prefix_mask f = destination_network f)) \<longleftrightarrow>
      (case sfc_destination_ip_address fc of None \<Rightarrow> True
       | Some t \<Rightarrow> if IsCidr t then (case ParseCidr inet t of Inl e \<Rightarrow> False | Inr (network, msk) \<Rightarrow> a AND msk = network)
                    else ParseIpv4Address inet t = Inr a)" for a
    using D by (auto simp: f split: option.splits sum.splits if_splits prod.splits)
  have ports: "FilterMatchesPortProtocol f p \<longleftrightarrow> pr = protocol p \<and>
      (case sfc_source_port fc of None \<Rightarrow> True | Some n \<Rightarrow> n = rte_be_to_cpu_16 (source_port_be p)) \<and>
      (case sfc_destination_port fc of None \<Rightarrow> True | Some n \<Rightarrow> n = rte_be_to_cpu_16 (destination_port_be p))"
    by (auto simp: FilterMatchesPortProtocol_def f split: option.splits)
  show "filter_matches f p \<longleftrightarrow> config_filter_matches inet fc p"
    unfolding filter_matches_def config_filter_matches_def Let_def ports proto [OF pr, symmetric]
    using src dst by blast
  show "cf_label f = sfc_label fc" by (fact f)
qed

text \<open>Result of a match with one filter of the configuration.\<close>

definition config_result :: "SpiFilterGroupConfig \<Rightarrow> SpiFilterConfig \<Rightarrow> ClassificationResult" where
  "config_result g fc = \<lparr>cr_group_name = sgc_name g, cr_label = sfc_label fc,
     cr_group_precedence = sgc_precedence g, cr_bound_dpi_filter_index = kNoDpiLink,
     cr_action = ParseAction (sgc_action g), cr_matched = True, cr_l7_required = sgc_l7_required g\<rparr>"

lemma compiled_entries:
  assumes "length parsed = length cs"
    and "\<forall>i < length cs. compile_group inet i (cs ! i) = Inr (parsed ! i)"
    and "rt_groups t = sort_groups parsed"
  shows "(g, f) \<in> set (rt_entries t) \<Longrightarrow> \<exists>c \<in> set cs. \<exists>fc \<in> set (sgc_filters c).
            filter_matches f p = config_filter_matches inet fc p \<and> g_precedence g = sgc_precedence c \<and>
            result_of_match g (cf_label f) = config_result c fc"
    and "c \<in> set cs \<Longrightarrow> fc \<in> set (sgc_filters c) \<Longrightarrow> \<exists>(g, f) \<in> set (rt_entries t).
            filter_matches f p = config_filter_matches inet fc p \<and> g_precedence g = sgc_precedence c \<and>
            result_of_match g (cf_label f) = config_result c fc"
proof -
  have pair: "filter_matches f p = config_filter_matches inet fc p \<and> g_precedence g = sgc_precedence c \<and>
      result_of_match g (cf_label f) = config_result c fc"
    if "compile_group inet i c = Inr g" "CompileFilter inet fc i k = Inr f" for i k c fc g f
    using that(1) CompileFilter_matches [OF that(2)]
    by (auto elim!: compile_group_fields simp: result_of_match_def config_result_def)
  show "\<exists>c \<in> set cs. \<exists>fc \<in> set (sgc_filters c).
            filter_matches f p = config_filter_matches inet fc p \<and> g_precedence g = sgc_precedence c \<and>
            result_of_match g (cf_label f) = config_result c fc" if entry: "(g, f) \<in> set (rt_entries t)"
  proof -
    from entry have g: "g \<in> set (rt_groups t)" "f \<in> set (g_filters g)" by (simp_all add: rt_entries_iff)
    with sort_groups_twin(1) [of g parsed] obtain g0 where g0: "g0 \<in> set parsed"
      "g\<lparr>g_category_index := 0\<rparr> = g0\<lparr>g_category_index := 0\<rparr>" unfolding assms(3) by blast
    then obtain i where i: "i < length cs" "compile_group inet i (cs ! i) = Inr g0"
      using assms(1,2) by (metis in_set_conv_nth)
    from i(2) obtain fs where fs: "compile_filters inet i 0 (sgc_filters (cs ! i)) = Inr fs" "g_filters g0 = fs"
      by (auto elim!: compile_group_fields)
    have "f \<in> set fs" using g(2) fs(2) category_twin(1) [OF g0(2)] by simp
    then obtain k where k: "k < length fs" "f = fs ! k" by (metis in_set_conv_nth)
    then have "CompileFilter inet (sgc_filters (cs ! i) ! k) i k = Inr f"
      using compile_filters_nth [OF fs(1)] compile_filters_length [OF fs(1)] by simp
    from pair [OF i(2) this] k compile_filters_length [OF fs(1)] i(1) show ?thesis
      unfolding category_twin(2,3) [OF g0(2)] by (metis nth_mem)
  qed
  show "\<exists>(g, f) \<in> set (rt_entries t).
            filter_matches f p = config_filter_matches inet fc p \<and> g_precedence g = sgc_precedence c \<and>
            result_of_match g (cf_label f) = config_result c fc"
    if c: "c \<in> set cs" "fc \<in> set (sgc_filters c)"
  proof -
    from c(1) obtain i where i: "i < length cs" "c = cs ! i" by (metis in_set_conv_nth)
    from assms(2) i have cg: "compile_group inet i c = Inr (parsed ! i)" by simp
    then obtain fs where fs: "compile_filters inet i 0 (sgc_filters c) = Inr fs" "g_filters (parsed ! i) = fs"
      by (auto elim!: compile_group_fields)
    from c(2) obtain k where k: "k < length (sgc_filters c)" "fc = sgc_filters c ! k" by (metis in_set_conv_nth)
    from compile_filters_nth [OF fs(1) k(1)] k(2) have cf: "CompileFilter inet fc i k = Inr (fs ! k)" by simp
    have "parsed ! i \<in> set parsed" using i(1) assms(1) by simp
    with sort_groups_twin(2) obtain g where g: "g \<in> set (rt_groups t)"
      "g\<lparr>g_category_index := 0\<rparr> = (parsed ! i)\<lparr>g_category_index := 0\<rparr>" unfolding assms(3) by blast
    with category_twin(1) [OF g(2)] fs(2) have "g_filters g = fs" by simp
    with g(1) k(1) compile_filters_length [OF fs(1)] have "(g, fs ! k) \<in> set (rt_entries t)"
      by (simp add: rt_entries_iff)
    with pair [OF cg cf] category_twin(2,3) [OF g(2)] show ?thesis by (intro bexI [of _ "(g, fs ! k)"]) auto
  qed
qed

lemma compiled_table_ok:
  assumes "CompileRuleTable inet acl member crc cpus affinity config = Inr t" and "acl_contract acl"
    and "length (filter_groups config) < 65535"
    and "\<And>g. g \<in> set (filter_groups config) \<Longrightarrow> length (sgc_filters g) < 65535"
  shows "spi_table_ok (acl, t) p"
  using assms(1)
proof (rule CompileRuleTable_cases)
  fix parsed chunks algorithm max_size
  assume parsed: "length parsed = length (filter_groups config)"
    "\<forall>i < length (filter_groups config). compile_group inet i (filter_groups config ! i) = Inr (parsed ! i)"
    and chunks: "compile_chunks (compile_chunk acl affinity algorithm max_size (sort_groups parsed))
       (task_specs (sort_groups parsed)) = Inr chunks"
    and t: "t = RuleTable_move (make_RuleTable crc (sort_groups parsed) chunks
           (map of_nat [0..<length (sort_groups parsed)]) (build_member member (sort_groups parsed)) max_size algorithm)"
  let ?groups = "sort_groups parsed"
  have fields: "rt_groups t = ?groups" "rt_acl_chunks t = chunks"
    unfolding t by (simp_all add: RuleTable_move_def make_RuleTable_def BuildTssFromGroups_def Let_def split: prod.splits)
  have good: "length (g_filters g) < 65535 \<and> (\<forall>f \<in> set (g_filters g). filter_ok f)" if "g \<in> set parsed" for g
  proof -
    from that obtain i where i: "i < length (filter_groups config)" "compile_group inet i (filter_groups config ! i) = Inr g"
      using parsed by (metis in_set_conv_nth)
    from i(2) obtain fs where fs: "compile_filters inet i 0 (sgc_filters (filter_groups config ! i)) = Inr fs" "g_filters g = fs"
      by (auto elim!: compile_group_fields)
    with assms(4) i(1) compile_filters_length [OF fs(1)] compile_filters_set [OF fs(1)] CompileFilter_ok show ?thesis
      by (metis nth_mem)
  qed
  have "groups_ok ?groups"
  proof -
    have "length (g_filters g) < 65535 \<and> (\<forall>f \<in> set (g_filters g). filter_ok f)" if "g \<in> set ?groups" for g
    proof -
      from sort_groups_twin(1) [OF that] obtain g0 where "g0 \<in> set parsed"
        "g\<lparr>g_category_index := 0\<rparr> = g0\<lparr>g_category_index := 0\<rparr>" by blast
      with category_twin(1) [OF this(2)] good show ?thesis by simp
    qed
    then show ?thesis using assms(3) parsed(1) sort_groups_sorted [of parsed] by (simp add: groups_ok_def)
  qed
  moreover from compiled_chunks [OF assms(2) chunks]
  have layout: "map (\<lambda>c. (ac_start_group_index c, ac_group_count c)) chunks = chunk_layout ?groups"
    and ok: "\<forall>c \<in> set chunks. chunk_ok acl ?groups c" by auto
  moreover have "sorted_wrt (\<lambda>c d. ac_start_group_index c + ac_group_count c \<le> ac_start_group_index d) chunks"
    using chunk_layout_sorted [of ?groups] unfolding layout [symmetric] by (simp add: sorted_wrt_map)
  moreover have "\<exists>c \<in> set chunks. in_chunk c i" if "i < length ?groups" "g_filters (?groups ! i) \<noteq> []" for i
    using chunk_layout_covers [OF that] unfolding layout [symmetric] by (auto simp: in_chunk_def)
  ultimately show ?thesis using assms(2) by (simp add: spi_table_ok_def fields)
qed

text \<open>
  C2. The classifier implements the configuration. Take any configuration that compiles (fewer than
  65535 groups, each with fewer than 65535 filters) and any packet. If no filter of the
  configuration matches the packet, the packet is unmatched; otherwise the answer carries the
  name, action and other attributes of a configured group with a filter that matches, and no other
  group with a matching filter has a smaller precedence, however the rules were split into
  chunks and threads.
\<close>

theorem spi_classification_correct:
  assumes "CompileRuleTable inet acl member crc cpus affinity config = Inr t" and "acl_contract acl"
    and "length (filter_groups config) < 65535"
    and "\<And>g. g \<in> set (filter_groups config) \<Longrightarrow> length (sgc_filters g) < 65535"
  shows "if \<exists>g \<in> set (filter_groups config). \<exists>fc \<in> set (sgc_filters g). config_filter_matches inet fc p
         then \<exists>g \<in> set (filter_groups config). \<exists>fc \<in> set (sgc_filters g).
                config_filter_matches inet fc p \<and> RuleTable_Match acl t p = config_result g fc \<and>
                (\<forall>g' \<in> set (filter_groups config). \<forall>fc' \<in> set (sgc_filters g').
                   config_filter_matches inet fc' p \<longrightarrow> sgc_precedence g \<le> sgc_precedence g')
         else RuleTable_Match acl t p = no_classification"
  using assms(1)
proof (rule CompileRuleTable_cases)
  fix parsed chunks algorithm max_size
  assume parsed: "length parsed = length (filter_groups config)"
    "\<forall>i < length (filter_groups config). compile_group inet i (filter_groups config ! i) = Inr (parsed ! i)"
    and t: "t = RuleTable_move (make_RuleTable crc (sort_groups parsed) chunks
           (map of_nat [0..<length (sort_groups parsed)]) (build_member member (sort_groups parsed)) max_size algorithm)"
  have groups: "rt_groups t = sort_groups parsed"
    unfolding t by (simp add: RuleTable_move_def make_RuleTable_def BuildTssFromGroups_def Let_def split: prod.splits)
  note entries = compiled_entries [OF parsed groups, of _ _ p]
  have ok: "spi_table_ok (acl, t) p" by (rule compiled_table_ok [OF assms])
  show ?thesis
  proof (cases "spi_select (acl, t) p")
    case None
    then have "RuleTable_Match acl t p = no_classification"
      using RuleTable_Match_cases [OF ok] by (auto simp: spi_select_def Let_def split: if_splits)
    moreover have "\<forall>e \<in> set (rt_entries t). \<not> (case e of (g, f) \<Rightarrow> filter_matches f) p"
      using spi_table.select_characterised [OF ok] None by simp
    ultimately show ?thesis using entries(2) by fastforce
  next
    case (Some r)
    from spi_table.select_characterised [OF ok] Some obtain g f where
      e: "(g, f) \<in> set (rt_entries t)" "r = result_of_match g (cf_label f)" "filter_matches f p"
      "\<And>g' f'. (g', f') \<in> set (rt_entries t) \<Longrightarrow> filter_matches f' p \<Longrightarrow> g_precedence g \<le> g_precedence g'"
      by (fastforce simp: word_le_nat_alt)
    from entries(1) [OF e(1)] e(2,3) obtain c fc where c: "c \<in> set (filter_groups config)" "fc \<in> set (sgc_filters c)"
      "config_filter_matches inet fc p" "g_precedence g = sgc_precedence c" "r = config_result c fc" by auto
    moreover have "sgc_precedence c \<le> sgc_precedence c'"
      if "c' \<in> set (filter_groups config)" "fc' \<in> set (sgc_filters c')" "config_filter_matches inet fc' p" for c' fc'
      using entries(2) [OF that(1,2)] that(3) e(4) c(4) by fastforce
    moreover have "RuleTable_Match acl t p = r" using Some by (auto simp: spi_select_def Let_def split: if_splits)
    ultimately show ?thesis by auto
  qed
qed

section \<open>Bursts\<close>

lemma decode_userdata_matched: "decode_userdata groups p ud = Some r \<Longrightarrow> cr_matched r"
  by (auto simp: decode_userdata_def Let_def split: if_splits)

lemma match_bulk_chunks_each:
  assumes "acl_contract acl" and "length results = length packets"
    and "\<forall>r \<in> set results. cr_matched r \<or> r = no_classification"
  shows "match_bulk_chunks acl groups packets chunks results =
           map2 (\<lambda>p r. if cr_matched r then r else match_chunks acl groups p chunks) packets results"
  using assms(2,3)
proof (induction chunks arbitrary: results)
  case Nil
  then show ?case by (auto simp: list_eq_iff_nth_eq)
next
  case (Cons c chunks)
  show ?case
  proof (cases "ac_ctx c")
    case None
    with Cons show ?thesis by (simp cong: map_cong if_cong)
  next
    case (Some ctx)
    let ?ud = "map (acl_best acl ctx) (map acl_input_of packets)"
    let ?next = "bulk_step groups packets ?ud results"
    have nth: "?next ! i = (if cr_matched (results ! i) then results ! i
        else case decode_userdata groups (packets ! i) (acl_best acl ctx (acl_input_of (packets ! i))) of
               Some r \<Rightarrow> r | None \<Rightarrow> results ! i)" if "i < length packets" for i
      using that Cons(2) by (simp add: bulk_step_def)
    have len: "length ?next = length packets" using Cons(2) by (simp add: bulk_step_def)
    have inv: "\<forall>r \<in> set ?next. cr_matched r \<or> r = no_classification"
      using Cons(2,3) len nth decode_userdata_matched
      by (auto simp: in_set_conv_nth all_set_conv_all_nth split: option.splits)
    have chunk: "match_chunks acl groups p (c # chunks) =
        (case decode_userdata groups p (acl_best acl ctx (acl_input_of p)) of Some r \<Rightarrow> r
         | None \<Rightarrow> match_chunks acl groups p chunks)" for p
      by (simp add: Some acl_contractD(1) [OF assms(1)])
    have each: "map2 (\<lambda>p r. if cr_matched r then r else match_chunks acl groups p chunks) packets ?next =
        map2 (\<lambda>p r. if cr_matched r then r else match_chunks acl groups p (c # chunks)) packets results"
      using Cons(2) len nth decode_userdata_matched unfolding chunk
      by (auto simp: list_eq_iff_nth_eq split: option.splits)
    have "list_all cr_matched ?next \<Longrightarrow>
        map2 (\<lambda>p r. if cr_matched r then r else match_chunks acl groups p chunks) packets ?next = ?next"
      using len by (auto simp: list_all_length list_eq_iff_nth_eq)
    with each Cons(1) [OF len inv] show ?thesis
      by (simp add: Some acl_contractD(1) [OF assms(1)] Let_def del: match_chunks.simps)
  qed
qed

lemma MatchBulk_each:
  assumes "acl_contract acl" and "length packets \<le> 64"
  shows "RuleTable_MatchBulk acl t packets results =
           map (RuleTable_Match acl t) packets @ drop (length packets) results"
proof -
  have each: "match_bulk_chunks acl groups packets chunks (replicate (length packets) no_classification) =
      map (\<lambda>p. match_chunks acl groups p chunks) packets" for groups chunks
    using match_bulk_chunks_each [OF assms(1), of "replicate (length packets) no_classification" packets groups chunks]
    by (simp add: zip_replicate2 comp_def)
  have take: "min (length packets) 64 = length packets" using assms(2) by (rule min_absorb1)
  show ?thesis
    unfolding RuleTable_MatchBulk_def RuleTable_Match_def Let_def take take_all [OF order_refl] each
    by (simp add: map_replicate_const)
qed

text \<open>
  Classifying a burst of up to 64 packets chunk by chunk, with results filled in as they
  come and an early exit once all are decided, gives every packet the answer it gets alone, and
  leaves the rest of the result span untouched.
\<close>

theorem match_bulk_is_match_each:
  assumes "acl_contract acl" and "length packets \<le> 64"
  shows "RuleTable_MatchBulk acl t packets results =
           map (RuleTable_Match acl t) packets @ drop (length packets) results"
  using assms by (rule MatchBulk_each)

section \<open>A concrete ACL library\<close>

text \<open>Contexts are rule lists; a later rule wins only by a higher priority.\<close>

definition better_rule :: "AclRule option \<Rightarrow> AclRule \<Rightarrow> AclRule option" where
  "better_rule best r = (case best of None \<Rightarrow> Some r | Some b \<Rightarrow> if ar_priority b < ar_priority r then Some r else Some b)"

definition linear_best :: "AclRule list \<Rightarrow> AclInputData \<Rightarrow> AclRule option" where
  "linear_best rules i = foldl (\<lambda>best r. if rule_matches r i then better_rule best r else best) None rules"

definition linear_acl :: "AclRule list acl_ops" where
  "linear_acl = \<lparr>acl_rules = id,
     acl_best = (\<lambda>c i. case linear_best c i of None \<Rightarrow> 0 | Some r \<Rightarrow> ar_userdata r),
     acl_create = (\<lambda>_ _. Some []),
     acl_add_rules = (\<lambda>c rs. if list_all (\<lambda>r. 0 \<le> ar_priority r \<and> ar_priority r \<le> uint RTE_ACL_MAX_PRIORITY) rs
                             then Some (c @ rs) else None),
     acl_build = (\<lambda>c _. Some c), acl_set_ctx_classify = (\<lambda>c _. Some c), acl_reset_rules = (\<lambda>_. []),
     acl_classify = (\<lambda>c xs. Some (map (\<lambda>i. case linear_best c i of None \<Rightarrow> 0 | Some r \<Rightarrow> ar_userdata r) xs))\<rparr>"

lemma linear_best_cases:
  "case linear_best rules i of
     None \<Rightarrow> \<forall>r \<in> set rules. \<not> rule_matches r i
   | Some b \<Rightarrow> b \<in> set rules \<and> rule_matches b i \<and>
       (\<forall>r \<in> set rules. rule_matches r i \<longrightarrow> ar_priority r \<le> ar_priority b)"
proof (induction rules rule: rev_induct)
  case (snoc r rules)
  have "linear_best (rules @ [r]) i = (if rule_matches r i then better_rule (linear_best rules i) r else linear_best rules i)"
    by (simp add: linear_best_def)
  with snoc show ?case by (auto simp: better_rule_def split: option.splits if_splits)
qed (simp add: linear_best_def)

lemma linear_acl_contract: "acl_contract linear_acl"
proof -
  have "(case linear_best c i of None \<Rightarrow> 0 | Some r \<Rightarrow> ar_userdata r) = 0 \<and> (\<forall>r \<in> set c. \<not> rule_matches r i) \<or>
      (\<exists>r \<in> set c. (case linear_best c i of None \<Rightarrow> 0 | Some r \<Rightarrow> ar_userdata r) = ar_userdata r \<and> rule_matches r i \<and>
          (\<forall>r' \<in> set c. rule_matches r' i \<longrightarrow> ar_priority r' \<le> ar_priority r))" for c i
    using linear_best_cases [of c i] by (cases "linear_best c i") auto
  then show ?thesis
    unfolding acl_contract_def linear_acl_def by (simp add: list_all_iff)
qed

text \<open>A set of keys in which every key is found again.\<close>

definition list_member :: "(MemberKey \<times> u16) list member_ops" where
  "list_member = \<lparr>member_create = (\<lambda>_. Some []),
     member_add = (\<lambda>m k s. if s = RTE_MEMBER_NO_MATCH then None else Some ((k, s) # m)),
     member_lookup_bulk = (\<lambda>m ks. map (\<lambda>k. case map_of m k of None \<Rightarrow> RTE_MEMBER_NO_MATCH | Some s \<Rightarrow> s) ks)\<rparr>"

definition sample_inet :: inet_ops where
  "sample_inet = \<lparr>inet_pton4 = (\<lambda>s. if s = ''10.0.0.1'' then Some 0x0100000A else if s = ''10.0.0.0'' then Some 0x0000000A else None),
                  inet_pton6 = (\<lambda>_. None)\<rparr>"

definition sample_filter :: "string option \<Rightarrow> string \<Rightarrow> SpiFilterConfig" where
  "sample_filter dst label = \<lparr>sfc_protocol = ''tcp'', sfc_source_ip_address = None, sfc_destination_ip_address = dst,
     sfc_source_port = None, sfc_destination_port = Some 443, sfc_label = label\<rparr>"

definition sample_group :: "string \<Rightarrow> u32 \<Rightarrow> SpiFilterConfig list \<Rightarrow> SpiFilterGroupConfig" where
  "sample_group name precedence filters = \<lparr>sgc_name = name, sgc_precedence = precedence, sgc_action = ''drop'',
     sgc_filters = filters, sgc_l7_required = False, sgc_dpi_filter_group = []\<rparr>"

definition sample_config :: "SpiFilterGroupConfig list \<Rightarrow> SpiConfig" where
  "sample_config groups = \<lparr>worker_count = 1, packet_distribution = ''auto'', dispatch_queue_size = 8192,
     drop_unmatched = False, flow_ttl_sec = 300, fragment_timeout_sec = 60,
     tcp_reassembly = example_reassembly_config,
     spi_max_concurrent_flows = 16, flow_overflow_action = ''drop'', max_compilation_threads = 2,
     max_acl_build_threads = 2, acl_classify_algorithm = ''default'', acl_build_max_size_mb = 0,
     rule_path = [], filter_groups = groups\<rparr>"

text \<open>Port 443 anywhere, port 443 of one host, port 443 of a network.\<close>

definition sample_groups :: "SpiFilterGroupConfig list" where
  "sample_groups = [sample_group ''any'' 30 [sample_filter None ''any''],
     sample_group ''host'' 20 [sample_filter (Some ''10.0.0.1'') ''host''],
     sample_group ''net'' 10 [sample_filter (Some ''10.0.0.0/8'') ''net'']]"

definition sample_packet :: "u32 \<Rightarrow> PacketMetadata" where
  "sample_packet dst = default_metadata\<lparr>destination_ip_be := dst, destination_port_be := rte_be_to_cpu_16 443\<rparr>"

definition sample_compiled :: "CompiledFilterGroup list" where
  "sample_compiled = sort_groups (projr (parse_all sample_inet True sample_groups
     [(0, 2), (2, 3)] (replicate 3 default_group)))"

definition sample_table :: "(AclRule list, (MemberKey \<times> u16) list) RuleTable" where
  "sample_table = RuleTable_move (make_RuleTable (\<lambda>_. 0) sample_compiled
     (projr (compile_chunks (compile_chunk linear_acl True ClassifyDefault 0 sample_compiled) (task_specs sample_compiled)))
     (map of_nat [0..<length sample_compiled]) (build_member list_member sample_compiled) 0 ClassifyDefault)"

lemma sample_ranges: "parse_ranges (map (\<lambda>g. length (sgc_filters g)) sample_groups) 2 = [(0, 2), (2, 3)]"
proof -
  have "map (\<lambda>g. length (sgc_filters g)) sample_groups = [1, 1, 1]" by (simp add: sample_groups_def sample_group_def)
  then show ?thesis by (simp add: parse_ranges_def take_groups.simps eval_nat_numeral, presburger)
qed

lemma sample_parsed:
  "\<not> isl (parse_all sample_inet True sample_groups [(0, 2), (2, 3)] (replicate 3 default_group))"
  by code_simp

lemma sample_chunks:
  "\<not> isl (compile_chunks (compile_chunk linear_acl True ClassifyDefault 0 sample_compiled) (task_specs sample_compiled))"
  by code_simp

lemma sample_rules: "sum_list (map (\<lambda>g. length (g_filters g)) sample_compiled) \<noteq> 0"
  by code_simp

lemma sample_table_compiled:
  "CompileRuleTable sample_inet linear_acl list_member (\<lambda>_. 0) 4 True (sample_config sample_groups) = Inr sample_table"
proof -
  have fields: "filter_groups (sample_config sample_groups) = sample_groups" "max_compilation_threads (sample_config sample_groups) = 2"
    "acl_classify_algorithm (sample_config sample_groups) = ''default''" "acl_build_max_size_mb (sample_config sample_groups) = 0"
    by (simp_all add: sample_config_def)
  have small: "ParseAclClassifyAlgorithm ''default'' = Inr ClassifyDefault" "length sample_groups = 3"
    "min (max 2 1) (max 1 4) = (2 :: nat)" "\<not> (2 ^ 64 - 1) div kBytesPerMiB < 0" "0 * kBytesPerMiB = 0"
    by (simp_all add: ParseAclClassifyAlgorithm_def sample_groups_def)
  obtain parsed where parsed: "parse_all sample_inet True sample_groups [(0, 2), (2, 3)] (replicate 3 default_group) = Inr parsed"
    using sample_parsed by (metis sum.collapse(2))
  then have sorted: "sort_groups parsed = sample_compiled" by (simp add: sample_compiled_def)
  obtain chunks where chunks: "compile_chunks (compile_chunk linear_acl True ClassifyDefault 0 sample_compiled)
      (task_specs sample_compiled) = Inr chunks"
    using sample_chunks by (metis sum.collapse(2))
  show ?thesis
    unfolding CompileRuleTable_def Let_def fields small sum.case if_False sample_ranges parsed sorted
    using sample_rules chunks by (simp add: sample_table_def)
qed

theorem spi_classification_correct_witness:
  "cr_group_name (RuleTable_Match linear_acl sample_table (sample_packet 0x0100000A)) = ''net''"
proof -
  have "config_filter_matches sample_inet (sample_filter (Some ''10.0.0.0/8'') ''net'') (sample_packet 0x0100000A)"
    by code_simp
  then have found: "\<exists>g \<in> set sample_groups. \<exists>fc \<in> set (sgc_filters g). config_filter_matches sample_inet fc (sample_packet 0x0100000A)"
    by (auto simp: sample_groups_def sample_group_def)
  have groups: "filter_groups (sample_config sample_groups) = sample_groups" by (simp add: sample_config_def)
  have bounds: "length sample_groups < 65535" "\<And>g. g \<in> set sample_groups \<Longrightarrow> length (sgc_filters g) < 65535"
    by (auto simp: sample_groups_def sample_group_def)
  from spi_classification_correct [OF sample_table_compiled linear_acl_contract, unfolded groups, OF bounds,
      of "sample_packet 0x0100000A"] found
  obtain g fc where "g \<in> set sample_groups" "RuleTable_Match linear_acl sample_table (sample_packet 0x0100000A) = config_result g fc"
    "sgc_precedence g \<le> 10"
    using \<open>config_filter_matches sample_inet (sample_filter (Some ''10.0.0.0/8'') ''net'') (sample_packet 0x0100000A)\<close>
    by (fastforce simp: sample_groups_def sample_group_def)
  then show ?thesis by (auto simp: sample_groups_def sample_group_def config_result_def)
qed

theorem match_bulk_is_match_each_witness:
  "RuleTable_MatchBulk linear_acl sample_table [sample_packet 0x0100000A, sample_packet 7] [] =
     [RuleTable_Match linear_acl sample_table (sample_packet 0x0100000A),
      RuleTable_Match linear_acl sample_table (sample_packet 7)]"
  using match_bulk_is_match_each [OF linear_acl_contract,
      of "[sample_packet 0x0100000A, sample_packet 7]" sample_table "[]"] by simp

text \<open>
  C16. What a compiled rule table looks like. It has one group per configured group, in ascending order of precedence and numbered
  in this order; in every filter the prefix length is at most 32, the mask belongs to the length, the network has no bits
  outside the mask, and a filter with a network has no exact destination; every chunk covers existing groups and
  has a context that holds exactly the rules of these groups, with priorities in the range that the ACL library accepts.
\<close>

theorem compiled_table_well_formed:
  assumes "CompileRuleTable inet acl member crc cpus affinity config = Inr t" and "acl_contract acl"
    and "length (filter_groups config) < 65535"
    and "\<And>g. g \<in> set (filter_groups config) \<Longrightarrow> length (sgc_filters g) < 65535"
  shows "length (rt_groups t) = length (filter_groups config) \<and> groups_ok (rt_groups t) \<and>
    map g_category_index (rt_groups t) = map of_nat [0..<length (filter_groups config)] \<and>
    rt_precedence_order t = map of_nat [0..<length (filter_groups config)] \<and>
    (\<forall>c \<in> set (rt_acl_chunks t). chunk_ok acl (rt_groups t) c)"
proof -
  have "spi_table_ok (acl, t) p" for p by (rule compiled_table_ok [OF assms])
  then have ok: "groups_ok (rt_groups t)" "\<forall>c \<in> set (rt_acl_chunks t). chunk_ok acl (rt_groups t) c"
    by (simp_all add: spi_table_ok_def)
  obtain parsed chunks algorithm max_size where parsed: "length parsed = length (filter_groups config)"
    and t: "t = RuleTable_move (make_RuleTable crc (sort_groups parsed) chunks
      (map of_nat [0..<length (sort_groups parsed)]) (build_member member (sort_groups parsed)) max_size algorithm)"
    using assms(1) by (rule CompileRuleTable_cases)
  have fields: "rt_groups t = sort_groups parsed" "rt_precedence_order t = map of_nat [0..<length (sort_groups parsed)]"
    unfolding t by (simp_all add: RuleTable_move_def make_RuleTable_def BuildTssFromGroups_def Let_def split: prod.splits)
  have "map g_category_index (sort_groups parsed) = map of_nat [0..<length parsed]"
    by (rule nth_equalityI) (simp_all add: sort_groups_def nth_enumerate_eq)
  moreover have "length (sort_groups parsed) = length parsed" by (simp add: sort_groups_def)
  ultimately show ?thesis using ok parsed by (simp add: fields)
qed

theorem compiled_table_well_formed_witness:
  "groups_ok (rt_groups sample_table) \<and> map g_category_index (rt_groups sample_table) = [0, 1, 2]"
proof -
  have groups: "filter_groups (sample_config sample_groups) = sample_groups" by (simp add: sample_config_def)
  have bounds: "length sample_groups < 65535" "\<And>g. g \<in> set sample_groups \<Longrightarrow> length (sgc_filters g) < 65535"
    by (auto simp: sample_groups_def sample_group_def)
  from compiled_table_well_formed [OF sample_table_compiled linear_acl_contract, unfolded groups, OF bounds]
  show ?thesis by (simp add: sample_groups_def upt_rec)
qed

end
