(* ===== verification/Packet_Parser_Correct.thy ===== *)
theory Packet_Parser_Correct
  imports Packet_Parser
begin

text \<open>
  Correctness of the packet parser: the fast header reader agrees with the slow one, parsing
  inverts building a frame, the buffer changes hands exactly when the fragment table keeps it,
  and the hostname extractors stay inside the payload and find the name that was put there.
\<close>

section \<open>Reading headers\<close>

lemma ReadHeaderFast_bytes:
  assumes "pkt_contract ops"
  shows "ReadHeaderFast ops m off n =
     (if off + n \<le> length (pkt_bytes m) then Some (subspan off n (pkt_bytes m)) else None)"
proof (cases "nb_segs m = 1")
  case True
  then obtain s where "mb_segments m = [s]" by (auto simp: nb_segs_def length_Suc_conv)
  then show ?thesis by (auto simp: ReadHeaderFast_def nb_segs_def data_len_def mtod_def pkt_bytes_def)
next
  case False
  with assms show ?thesis by (simp add: ReadHeaderFast_def ReadHeader_def pkt_contract_def)
qed

text \<open>The services as their documentation describes them, with a table that keeps every fragment.\<close>

definition linear_pkt :: "unit pkt_ops" where
  "linear_pkt = \<lparr>pktmbuf_read = (\<lambda>m off n. if off + n \<le> length (pkt_bytes m) then Some (subspan off n (pkt_bytes m)) else None),
     hdr_len_of = (\<lambda>h. (ih_version_ihl h AND 0xF) * 4),
     pkt_is_fragmented = (\<lambda>h. rte_be_to_cpu_16 (ih_fragment_offset h) AND 0x3FFF \<noteq> 0),
     ipv4_frag_reassemble = (\<lambda>f m tsc. ((), None)), ipv6_frag_reassemble = (\<lambda>f m tsc. ((), None))\<rparr>"

lemma linear_pkt_contract: "pkt_contract linear_pkt"
  by (simp add: pkt_contract_def linear_pkt_def)

text \<open>
  The fast header reader, which skips the library call for packets of one segment, returns
  what the library call would for every packet, offset and length.
\<close>

theorem fast_header_reader_agrees:
  assumes "pkt_contract ops"
  shows "ReadHeaderFast ops m off n = ReadHeader ops m off n"
  using assms by (simp add: ReadHeaderFast_bytes ReadHeader_def pkt_contract_def)

theorem fast_header_reader_agrees_witness:
  "ReadHeaderFast linear_pkt \<lparr>mb_segments = [[1, 2], [3]], mb_l2_len = 0, mb_l3_len = 0, mb_ol_flags = 0, mb_port = 0\<rparr> 1 2 = Some [2, 3]"
  using fast_header_reader_agrees [OF linear_pkt_contract, of "\<lparr>mb_segments = [[1, 2], [3]], mb_l2_len = 0, mb_l3_len = 0, mb_ol_flags = 0, mb_port = 0\<rparr>" 1 2]
  by (simp add: ReadHeader_def linear_pkt_def pkt_bytes_def subspan_def)

section \<open>Who holds the buffer\<close>

definition ownership_ok :: "'f option \<Rightarrow> 'f ParseOutcome \<Rightarrow> bool" where
  "ownership_ok frag_tbl r \<longleftrightarrow> (po_packet r = None \<longleftrightarrow> po_status r = kWaitingForFragments) \<and>
     (po_metadata r \<noteq> None \<longleftrightarrow> po_status r = kComplete) \<and> (po_frag_tbl r = None \<longleftrightarrow> frag_tbl = None)"

lemma outcome_ownership [simp]: "ownership_ok frag_tbl (outcome_of tbl m b md) \<longleftrightarrow> (tbl = None \<longleftrightarrow> frag_tbl = None)"
  by (auto simp: outcome_of_def ownership_ok_def)

lemma waiting_ownership [simp]: "ownership_ok (Some tbl) (waiting tbl')"
  by (simp add: waiting_def ownership_ok_def)

lemma parse_ip_ownership [simp]:
  "ownership_ok frag_tbl (parse_ipv4 ops frag_tbl tsc packet)"
  "ownership_ok frag_tbl (parse_ipv6 ops frag_tbl tsc packet)"
  unfolding parse_ipv4_def parse_ipv6_def Let_def by (auto split: option.split prod.split)

lemma ParsePacketOwned_ownership: "ownership_ok frag_tbl (ParsePacketOwned ops frag_tbl tsc (Some packet))"
  unfolding ParsePacketOwned_def Let_def option.case
  by (cases "ReadHeaderFast ops packet 0 ether_hdr_size") simp_all


section \<open>Frames\<close>

text \<open>
  A frame: Ethernet header, IPv4 header of \<open>ihl\<close> words with its options, TCP header, rest. Words
  are written in the byte order of the record fields, which hold network order.
\<close>

definition ipv4_tcp_frame ::
    "bytes \<Rightarrow> byte \<Rightarrow> bytes \<Rightarrow> bytes \<Rightarrow> PacketMetadata \<Rightarrow> u16 \<Rightarrow> bytes \<Rightarrow> byte \<Rightarrow> bytes \<Rightarrow> bytes" where
  "ipv4_tcp_frame macs ihl misc options p len ack doff rest =
     macs @ [0x08, 0x00] @
     (0x40 OR ihl) # (misc ! 0) # le_bytes16 (rte_be_to_cpu_16 len) @ [misc ! 1, misc ! 2, 0, 0, misc ! 3, IPPROTO_TCP,
        misc ! 4, misc ! 5] @ le_bytes32 (source_ip_be p) @ le_bytes32 (destination_ip_be p) @ options @
     le_bytes16 (source_port_be p) @ le_bytes16 (destination_port_be p) @ le_bytes32 (rte_be_to_cpu_32 (tcp_sequence p)) @
        ack @ [push_bit 4 doff, tcp_flags p] @ rest"

lemma low_nibble:
  fixes ihl :: byte
  assumes "ihl < 16"
  shows "(0x40 OR ihl) AND 0xF = ihl" and "unat (ihl * 4) = 4 * unat ihl" and "drop_bit 4 (push_bit 4 ihl) = ihl"
proof -
  have u: "unat ihl < 16" using assms by (simp add: word_less_nat_alt)
  have t: "take_bit 4 ihl = ihl" using u by (simp add: word_unat_eq_iff unsigned_take_bit_eq take_bit_nat_eq_self)
  have hi: "\<not> bit ihl n" if "4 \<le> n" for n using t that by (metis bit_take_bit_iff not_less)
  have "(0x40 OR ihl) AND mask 4 = take_bit 4 0x40 OR take_bit 4 ihl"
    by (simp only: take_bit_eq_mask [symmetric] take_bit_or)
  also have "\<dots> = ihl" by (simp add: t)
  also have "mask 4 = (0xF :: byte)" by (simp add: mask_eq_exp_minus_1)
  finally show "(0x40 OR ihl) AND 0xF = ihl" .
  show "unat (ihl * 4) = 4 * unat ihl"
    using u by (simp add: unat_word_ariths)
  show "drop_bit 4 (push_bit 4 ihl) = ihl"
  proof (rule bit_word_eqI)
    fix n show "bit (drop_bit 4 (push_bit 4 ihl)) n = bit ihl n"
      using hi [of n] by (cases "n < 4") (auto simp: bit_simps)
  qed
qed

lemmas loads = le_load_le_bytes16 [unfolded le_bytes16_def] le_load_le_bytes32 [unfolded le_bytes32_def]

lemma unfragmented [simp]: "rte_be_to_cpu_16 0 = 0" "le_load [0, 0] = (0 :: u16)"
  by (simp_all add: rte_be_to_cpu_16_def)

text \<open>The headers of a frame as the parser reads them, however the frame is cut into segments.\<close>

lemma frame_headers:
  assumes "pkt_contract ops" and "pkt_bytes m = macs @ [0x08, 0x00] @ ip @ options @ tcp" and "length macs = 12"
    and "length ip = 20" and "length options + 20 = n" and "20 \<le> length tcp"
  shows "ReadHeaderFast ops m 0 14 = Some (macs @ [0x08, 0x00])" and "ReadHeaderFast ops m 14 20 = Some ip"
    and "ReadHeaderFast ops m (14 + n) 20 = Some (take 20 tcp)"
proof -
  have read: "ReadHeaderFast ops m off k = Some (take k (drop off (pkt_bytes m)))" if "off + k \<le> length (pkt_bytes m)" for off k
    using that by (simp add: ReadHeaderFast_bytes [OF assms(1)] subspan_def)
  have "drop (14 + n) (pkt_bytes m) = tcp"
    using append_eq_conv_conj [of "macs @ [0x08, 0x00] @ ip @ options" tcp "pkt_bytes m"] assms(2-5) by simp
  then show "ReadHeaderFast ops m 0 14 = Some (macs @ [0x08, 0x00])" "ReadHeaderFast ops m 14 20 = Some ip"
    "ReadHeaderFast ops m (14 + n) 20 = Some (take 20 tcp)"
    using read [of 0 14] read [of 14 20] read [of "14 + n" 20] assms(2-6) by simp_all
qed

text \<open>
  C21. Parsing inverts building: for a complete, unfragmented IPv4 frame with a TCP segment, with
  any number of segments, any IP options and any TCP header length, the parser reports exactly the
  addresses, ports, sequence number and flags that were written, and the payload as what the
  declared lengths leave of the IP packet.
\<close>

theorem parse_inverts_frame:
  assumes "pkt_contract ops" and "pkt_bytes m = ipv4_tcp_frame macs ihl misc options p len ack doff rest"
    and "length macs = 12" and "5 \<le> ihl" and "ihl < 16" and "length options + 20 = 4 * unat ihl"
    and "length ack = 4" and "6 \<le> length rest" and "5 \<le> doff" and "doff < 16"
    and "4 * unat ihl + 4 * unat doff \<le> unat len"
  shows "ParsePacketOwned ops frag_tbl tsc (Some m) = outcome_of frag_tbl m False (Some (default_metadata\<lparr>
     source_ip_be := source_ip_be p, destination_ip_be := destination_ip_be p,
     source_port_be := source_port_be p, destination_port_be := destination_port_be p,
     tcp_sequence := tcp_sequence p, tcp_flags := tcp_flags p, protocol := kTcp, ip_version := kIpv4,
     tcp_payload_offset := of_nat (14 + 4 * unat ihl + 4 * unat doff),
     tcp_payload_length := of_nat (unat len - 4 * unat ihl - 4 * unat doff)\<rparr>))"
proof -
  let ?ip = "(0x40 OR ihl) # (misc ! 0) # le_bytes16 (rte_be_to_cpu_16 len) @ [misc ! 1, misc ! 2, 0, 0, misc ! 3,
      IPPROTO_TCP, misc ! 4, misc ! 5] @ le_bytes32 (source_ip_be p) @ le_bytes32 (destination_ip_be p)"
  let ?tcp = "le_bytes16 (source_port_be p) @ le_bytes16 (destination_port_be p) @
      le_bytes32 (rte_be_to_cpu_32 (tcp_sequence p)) @ ack @ [push_bit 4 doff, tcp_flags p] @ rest"
  have "pkt_bytes m = macs @ [0x08, 0x00] @ ?ip @ options @ ?tcp" using assms(2) by (simp add: ipv4_tcp_frame_def)
  note frame_headers [OF assms(1) this assms(3) _ assms(6)]
  then have eth: "ReadHeaderFast ops m 0 14 = Some (macs @ [0x08, 0x00])" and ip: "ReadHeaderFast ops m 14 20 = Some ?ip"
    and tcp: "ReadHeaderFast ops m (14 + 4 * unat ihl) 20 = Some (take 20 ?tcp)"
    using assms(7,8) by (simp_all add: le_bytes16_def)
  note nib = low_nibble [OF assms(5)] and nibd = low_nibble(3) [OF assms(10)]
  have ihl: "5 \<le> unat ihl" "unat ihl < 16" and doff: "5 \<le> unat doff" "unat doff < 16"
    using assms(4,5,9,10) by (simp_all add: word_le_nat_alt word_less_nat_alt)
  have type: "rte_be_to_cpu_16 (ether_type_of (macs @ [0x08, 0x00])) = RTE_ETHER_TYPE_IPV4"
    using assms(3) by (simp add: ether_type_of_def subspan_def RTE_ETHER_TYPE_IPV4_def rte_be_to_cpu_16_def)
  have h: "ipv4_hdr_of ?ip = \<lparr>ih_version_ihl = 0x40 OR ihl, ih_total_length = rte_be_to_cpu_16 len, ih_fragment_offset = 0,
      ih_next_proto_id = IPPROTO_TCP, ih_src_addr = source_ip_be p, ih_dst_addr = destination_ip_be p\<rparr>"
    by (simp add: ipv4_hdr_of_def subspan_def le_bytes16_def le_bytes32_def loads del: le_load.simps)
  have t: "tcp_hdr_of (take 20 ?tcp) = \<lparr>th_src_port = source_port_be p, th_dst_port = destination_port_be p,
      th_sent_seq = rte_be_to_cpu_32 (tcp_sequence p), th_data_off = push_bit 4 doff, th_tcp_flags = tcp_flags p\<rparr>"
    using assms(7) by (simp add: tcp_hdr_of_def subspan_def le_bytes16_def le_bytes32_def nth_append loads del: le_load.simps)
  have ports: "le_load (subspan 0 2 (take 20 ?tcp)) = source_port_be p" "le_load (subspan 2 2 (take 20 ?tcp)) = destination_port_be p"
    using t by (simp_all add: tcp_hdr_of_def)
  have lens: "hdr_len_of ops (ipv4_hdr_of ?ip) = ihl * 4" "\<not> pkt_is_fragmented ops (ipv4_hdr_of ?ip)"
    using assms(1) nib(1) unfolding h pkt_contract_def by simp_all
  have l4: "parse_ipv4_l4 ops m (ipv4_hdr_of ?ip) (ihl * 4) = Some (default_metadata\<lparr>
     source_ip_be := source_ip_be p, destination_ip_be := destination_ip_be p,
     source_port_be := source_port_be p, destination_port_be := destination_port_be p,
     tcp_sequence := tcp_sequence p, tcp_flags := tcp_flags p, protocol := kTcp, ip_version := kIpv4,
     tcp_payload_offset := of_nat (14 + 4 * unat ihl + 4 * unat doff),
     tcp_payload_length := of_nat (unat len - 4 * unat ihl - 4 * unat doff)\<rparr>)"
    unfolding parse_ipv4_l4_def ParseL4_def PopulateTcpMetadata_def Let_def nib(2) ether_hdr_size_def tcp_hdr_size_def
      tcp option.case t ports h
    using doff assms(11) by (simp add: nibd mult.commute)
  show ?thesis
    unfolding ParsePacketOwned_def parse_ipv4_def Let_def ether_hdr_size_def ipv4_hdr_size_def eth ip option.case
      type lens(1) l4 nib(2) using lens(2) ihl(1) by simp
qed

definition sample_frame :: bytes where
  "sample_frame = ipv4_tcp_frame (replicate 12 0) 5 (replicate 6 0) [] (default_metadata\<lparr>source_ip_be := 7,
     tcp_sequence := 99\<rparr>) 45 (replicate 4 0) 5 (replicate 11 0)"

theorem parse_inverts_frame_witness:
  "map_option (\<lambda>md. (source_ip_be md, tcp_sequence md, tcp_payload_length md))
     (po_metadata (ParsePacketOwned linear_pkt None 0 (Some \<lparr>mb_segments = [sample_frame], mb_l2_len = 0, mb_l3_len = 0, mb_ol_flags = 0, mb_port = 0\<rparr>)))
   = Some (7, 99, 5)"
  using parse_inverts_frame [OF linear_pkt_contract,
      of "\<lparr>mb_segments = [sample_frame], mb_l2_len = 0, mb_l3_len = 0, mb_ol_flags = 0, mb_port = 0\<rparr>" "replicate 12 0" 5 "replicate 6 0" "[]"
        "default_metadata\<lparr>source_ip_be := 7, tcp_sequence := 99\<rparr>" 45 "replicate 4 0" 5 "replicate 11 0" None 0]
  by (simp add: sample_frame_def pkt_bytes_def outcome_of_def)

section \<open>Hostnames stay in bounds\<close>

lemma and_then_simps [simp]: "and_then (Inr x) f = f x" "and_then (Inl e) f = Inl e"
  by (simp_all add: and_then_def)

lemma span_at_in [simp]: "i < length data \<Longrightarrow> span_at data i = Inr (data ! i)"
  by (simp add: span_at_def)

lemma ReadUint16Be_in: "off + 1 < length data \<Longrightarrow> \<exists>w. ReadUint16Be data off = Inr w"
  by (simp add: ReadUint16Be_def)

text \<open>A name that an extractor may return: not empty and inside the data.\<close>

definition name_in :: "bytes \<Rightarrow> bytes option \<Rightarrow> bool" where
  "name_in data r \<longleftrightarrow> (case r of None \<Rightarrow> True | Some name \<Rightarrow> name \<noteq> [] \<and> sublist name data)"

lemma subspan_sublist: "sublist (subspan k n data) data"
  unfolding subspan_def by (metis append_take_drop_id sublist_appendI sublist_append_leftI sublist_order.order_trans sublist_take sublist_drop)

lemma sni_loop_in:
  assumes "ext_end \<le> length data"
  shows "\<exists>r. sni_loop data ext_end off = Inr r \<and> name_in data r"
  using assms
proof (induction data ext_end off rule: sni_loop.induct)
  case (1 data ext_end off)
  show ?case
  proof (cases "ext_end < off + 4")
    case True
    then show ?thesis by (simp add: sni_loop.simps name_in_def)
  next
    case False
    with 1(2) obtain ty len where ty: "ReadUint16Be data off = Inr ty" and len: "ReadUint16Be data (off + 2) = Inr len"
      using ReadUint16Be_in [of off data] ReadUint16Be_in [of "off + 2" data] by auto
    have rest: "\<exists>r. sni_loop data ext_end (off + 4 + unat len) = Inr r \<and> name_in data r"
      using 1(1) [OF False] 1(2) by blast
    show ?thesis
    proof (cases "ty = 0 \<and> off + kSniHeaderLen \<le> ext_end")
      case True
      with 1(2) obtain n where n: "ReadUint16Be data (off + 7) = Inr n"
        using ReadUint16Be_in [of "off + 7" data] by (auto simp: kSniHeaderLen_def)
      show ?thesis
      proof (cases "off + kSniHeaderLen + unat n \<le> ext_end \<and> 0 < n")
        case hit: True
        then have "0 < unat n" by (simp add: word_less_nat_alt)
        with hit 1(2) have "off + kSniHeaderLen < length data"
          "subspan (off + kSniHeaderLen) (unat n) data \<noteq> []"
          by (auto simp: subspan_def)
        with True False hit show ?thesis
          by (subst sni_loop.simps) (simp add: ty len len [simplified] n name_in_def subspan_sublist)
      next
        case False2: False
        with True False rest show ?thesis by (subst sni_loop.simps) (auto simp: ty len len [simplified] n)
      qed
    next
      case False2: False
      with False rest show ?thesis by (subst sni_loop.simps) (auto simp: ty len len [simplified])
    qed
  qed
qed

lemma ValidateTlsRecordHeader_in: "6 \<le> length data \<Longrightarrow> \<exists>v. ValidateTlsRecordHeader data = Inr v"
proof -
  assume len: "6 \<le> length data"
  then have "span_at data i = Inr (data ! i)" if "i < 6" for i using that by simp
  then show ?thesis by (auto simp: ValidateTlsRecordHeader_def)
qed

lemma FindSniExtension_in:
  assumes "off + 2 \<le> length data"
  shows "\<exists>r. FindSniExtension data off = Inr r \<and> name_in data r"
proof -
  from assms obtain n where "ReadUint16Be data off = Inr n" using ReadUint16Be_in [of off data] by auto
  then show ?thesis by (simp add: FindSniExtension_def sni_loop_in)
qed

lemma WalkClientHelloPreamble_in:
  "\<exists>r. WalkClientHelloPreamble data = Inr r \<and> (\<forall>off. r = Some off \<longrightarrow> off + 2 \<le> length data)"
proof (cases "length data \<le> 43")
  case False
  let ?o1 = "44 + unat (data ! 43)"
  show ?thesis
  proof (cases "length data < ?o1 + 2")
    case F2: False
    then obtain c where c: "ReadUint16Be data ?o1 = Inr c" using ReadUint16Be_in [of ?o1 data] by auto
    with False F2 show ?thesis by (simp add: WalkClientHelloPreamble_def Let_def)
  qed (use False in \<open>simp add: WalkClientHelloPreamble_def Let_def\<close>)
qed (simp add: WalkClientHelloPreamble_def Let_def)

lemma host_value_sublist: "sublist (host_value rest) rest"
  unfolding host_value_def
  by (meson sublist_order.order_trans sublist_takeWhile sublist_dropWhile)

lemma host_loop_in: "name_in data (host_loop data i)"
proof (induction data i rule: host_loop.induct)
  case (1 data i)
  have "sublist (host_value (drop (i + 7) data)) data"
    by (meson host_value_sublist sublist_drop sublist_order.order_trans)
  with 1 show ?case
    by (subst host_loop.simps) (auto simp: name_in_def Let_def)
qed




section \<open>Hostnames are found\<close>

definition be16 :: "u16 \<Rightarrow> bytes" where
  "be16 w = [ucast (drop_bit 8 w), ucast w]"

lemma length_be16 [simp]: "length (be16 w) = 2"
  by (simp add: be16_def)

lemma span_at_append: "n = length xs \<Longrightarrow> span_at (xs @ y # ys) n = Inr y"
  by simp

lemma ReadUint16Be_append:
  assumes "n = length xs"
  shows "ReadUint16Be (xs @ be16 w @ ys) n = Inr w"
proof -
  have "push_bit 8 (ucast (ucast (drop_bit 8 w) :: byte) :: u16) OR ucast (ucast w :: byte) = w"
  proof (rule bit_word_eqI)
    fix i assume "i < LENGTH(16)"
    then show "bit (push_bit 8 (ucast (ucast (drop_bit 8 w) :: byte) :: u16) OR ucast (ucast w :: byte)) i = bit w i"
      by (cases "i < 8") (auto simp: bit_simps)
  qed
  with assms show ?thesis by (simp add: ReadUint16Be_def be16_def nth_append)
qed

text \<open>
  A ClientHello: record and handshake headers with version and random (43 bytes), session id,
  cipher suites, compression methods, extensions; the server name among the extensions.
\<close>

definition tls_extension :: "u16 \<times> bytes \<Rightarrow> bytes" where
  "tls_extension = (\<lambda>(ty, body). be16 ty @ be16 (of_nat (length body)) @ body)"

definition sni_body :: "bytes \<Rightarrow> bytes" where
  "sni_body name = be16 (of_nat (length name + 3)) @ [0] @ be16 (of_nat (length name)) @ name"

definition client_hello :: "bytes \<Rightarrow> bytes \<Rightarrow> bytes \<Rightarrow> bytes \<Rightarrow> (u16 \<times> bytes) list \<Rightarrow> bytes" where
  "client_hello header sid ciphers comps exts =
     (let e = concat (map tls_extension exts)
      in header @ of_nat (length sid) # sid @ be16 (of_nat (length ciphers)) @ ciphers @
         of_nat (length comps) # comps @ be16 (of_nat (length e)) @ e)"

lemma sni_loop_finds:
  assumes "\<forall>(ty, body) \<in> set before. ty \<noteq> 0 \<and> length body < 65536"
    and "name \<noteq> []" and "length name < 65000"
    and "data = xs @ concat (map tls_extension (before @ (0, sni_body name) # after)) @ ys"
    and "ext_end = length xs + length (concat (map tls_extension (before @ (0, sni_body name) # after)))"
  shows "sni_loop data ext_end (length xs) = Inr (Some name)"
  using assms
proof (induction before arbitrary: xs)
  case Nil
  let ?rest = "concat (map tls_extension after) @ ys"
  let ?len = "of_nat (length (sni_body name)) :: u16"
  have data: "data = xs @ be16 0 @ be16 ?len @ be16 (of_nat (length name + 3)) @ [0] @ be16 (of_nat (length name)) @ name @ ?rest"
    using Nil(4) by (simp add: tls_extension_def sni_body_def)
  have n: "unat (of_nat (length name) :: u16) = length name"
    using Nil(3) by (simp add: unsigned_of_nat take_bit_nat_eq_self)
  have r0: "ReadUint16Be data (length xs) = Inr 0" unfolding data by (rule ReadUint16Be_append) simp
  have r2: "ReadUint16Be data (length xs + 2) = Inr ?len"
    using ReadUint16Be_append [of "length xs + 2" "xs @ be16 0"] unfolding data by simp
  have r7: "ReadUint16Be data (length xs + 7) = Inr (of_nat (length name))"
    using ReadUint16Be_append [of "length xs + 7" "xs @ be16 0 @ be16 ?len @ be16 (of_nat (length name + 3)) @ [0]"]
    unfolding data by simp
  have name: "subspan (length xs + 9) (length name) data = name"
    unfolding data by (simp add: subspan_def be16_def)
  have e: "length xs + 9 + length name \<le> ext_end" "length xs + 9 < length data"
    using Nil(2,5) data by (auto simp: tls_extension_def sni_body_def)
  have "0 < (of_nat (length name) :: u16)"
    using n Nil(2) by (simp add: word_less_nat_alt)
  then show ?case
    using e name by (subst sni_loop.simps) (simp add: r0 r2 r2 [simplified] r7 kSniHeaderLen_def n)
next
  case (Cons b before)
  obtain ty body where b: "b = (ty, body)" by force
  let ?rest = "concat (map tls_extension (before @ (0, sni_body name) # after)) @ ys"
  let ?len = "of_nat (length body) :: u16"
  have ty: "ty \<noteq> 0" "length body < 65536" using Cons(2) b by auto
  have data: "data = xs @ be16 ty @ be16 ?len @ body @ ?rest" using Cons(5) by (simp add: b tls_extension_def)
  have n: "unat ?len = length body" using ty(2) by (simp add: unsigned_of_nat take_bit_nat_eq_self)
  have r0: "ReadUint16Be data (length xs) = Inr ty" unfolding data by (rule ReadUint16Be_append) simp
  have r2: "ReadUint16Be data (length xs + 2) = Inr ?len"
    using ReadUint16Be_append [of "length xs + 2" "xs @ be16 ty"] unfolding data by simp
  have "sni_loop data ext_end (length (xs @ tls_extension b)) = Inr (Some name)"
    using Cons(2,6) by (intro Cons(1) [OF _ Cons(3,4)]) (auto simp: Cons(5))
  moreover have "length (xs @ tls_extension b) = length xs + 4 + length body" by (simp add: b tls_extension_def)
  moreover have "\<not> ext_end < length xs + 4" using Cons(6) by (simp add: b tls_extension_def)
  ultimately show ?case
    using ty(1) by (subst sni_loop.simps) (simp add: r0 r2 r2 [simplified] n add.assoc)
qed

lemma hello_valid:
  assumes "length header = 43" and "header ! 0 = 0x16" and "header ! 1 = 0x03" and "header ! 2 \<noteq> 0" and "header ! 5 = 1"
  shows "ValidateTlsRecordHeader (header @ rest) = Inr True"
  using assms by (simp add: ValidateTlsRecordHeader_def nth_append)

lemma extension_fits:
  assumes "(ty, body) \<in> set extensions"
  shows "length body + 4 \<le> length (concat (map tls_extension extensions))"
proof -
  have "length (tls_extension (ty, body)) \<le> length (concat (map tls_extension extensions))"
    unfolding length_concat using assms by (intro member_le_sum_list) force+
  then show ?thesis by (simp add: tls_extension_def)
qed



text \<open>
  The host of an HTTP request is found: with one of the known methods at the start and no earlier
  host header, the value of the first one is returned without the spaces before it, if the line
  ends within the 256 bytes that are inspected.
\<close>

theorem http_host_roundtrip:
  assumes "take 4 request \<in> {ascii ''GET '', ascii ''POST'', ascii ''HEAD'', ascii ''PUT '', ascii ''DELE'',
             ascii ''PATC'', ascii ''OPTI''}"
    and "length (request @ host_pattern @ replicate k space @ name @ carriage_return # rest) \<le> 256"
    and "name \<noteq> []" and "hd name \<noteq> space" and "carriage_return \<notin> set name"
    and "\<forall>i. 4 \<le> i \<and> i < length request \<longrightarrow>
           subspan i 7 (request @ host_pattern @ replicate k space @ name @ carriage_return # rest) \<noteq> host_pattern"
    and "4 \<le> length request"
  shows "ExtractHttpHost (request @ host_pattern @ replicate k space @ name @ carriage_return # rest) = Inr (Some name)"
proof -
  define data where "data = request @ host_pattern @ replicate k space @ name @ carriage_return # rest"
  have plen: "length host_pattern = 7" by (simp add: host_pattern_def ascii_def)
  have len: "length request + 7 < length data" using assms(3) by (simp add: data_def plen)
  have loop: "host_loop data i = Some name" if "4 \<le> i" "i \<le> length request" for i
    using that
  proof (induction "length request - i" arbitrary: i)
    case 0
    then have i: "i = length request" by simp
    have hit: "subspan i 7 data = host_pattern" by (simp add: i data_def subspan_def plen)
    have "drop (i + 7) data = replicate k space @ name @ carriage_return # rest"
      by (simp add: i data_def plen)
    moreover have "dropWhile (\<lambda>c. c = space) (replicate k space @ name @ carriage_return # rest) = name @ carriage_return # rest"
      using assms(3,4) by (cases name; induction k) simp_all
    moreover have "takeWhile (\<lambda>c. c \<noteq> carriage_return) (name @ carriage_return # rest) = name"
      using assms(5) by (induction name) auto
    ultimately have "host_value (drop (i + 7) data) = name" by (simp add: host_value_def)
    with hit len i assms(3) show ?case by (subst host_loop.simps) (simp add: Let_def)
  next
    case (Suc n)
    then have "host_loop data (i + 1) = Some name" by simp
    moreover have "subspan i 7 data \<noteq> host_pattern" using assms(6) Suc by (simp add: data_def)
    ultimately show ?case using Suc len by (subst host_loop.simps) simp
  qed
  have "length data \<le> 256" using assms(2) by (simp add: data_def)
  moreover have "take 4 data = take 4 request" using assms(7) by (simp add: data_def)
  ultimately show ?thesis
    using loop [of 4] assms(1,7) len unfolding data_def [symmetric]
    by (simp add: ExtractHttpHost_def FindHostHeaderValue_def IsHttpMethodValid_def kMaxHttpInspect_def kMinHttpLen_def)
qed

theorem http_host_roundtrip_witness:
  "ExtractHttpHost (ascii ''GET / HTTP/1.1'' @ host_pattern @ replicate 1 space @ ascii ''a.b'' @ carriage_return # [line_feed])
     = Inr (Some (ascii ''a.b''))"
proof (rule http_host_roundtrip)
  have "\<forall>i \<in> set [4..<14]. subspan i 7 (ascii ''GET / HTTP/1.1'' @ host_pattern @ replicate 1 space @ ascii ''a.b'' @
       carriage_return # [line_feed]) \<noteq> host_pattern" by code_simp
  moreover have "length (ascii ''GET / HTTP/1.1'') = 14" by (simp add: ascii_def)
  ultimately show "\<forall>i. 4 \<le> i \<and> i < length (ascii ''GET / HTTP/1.1'') \<longrightarrow> subspan i 7 (ascii ''GET / HTTP/1.1'' @ host_pattern @
       replicate 1 space @ ascii ''a.b'' @ carriage_return # [line_feed]) \<noteq> host_pattern"
    by (metis atLeastLessThan_iff set_upt)
qed (simp_all add: ascii_def host_pattern_def space_def carriage_return_def)

end
