(* ===== verification/Pipeline_Sample.thy ===== *)
theory Pipeline_Sample
  imports Pipeline Rule_Match_Correct Packet_Parser_Correct L3_Forward_Correct
begin

text \<open>
  A concrete worker for examples: the concrete library operations of the component theories put
  together, two active ports, the sample rules, a flow table with two entries and no DPI.
\<close>

definition sample_dpdk ::
    "(AclRule list, (MemberKey \<times> u16) list, dpi_regex list, unit, Mbuf list) dpdk_ops" where
  "sample_dpdk = \<lparr>dpdk_pkt = linear_pkt, dpdk_cksum = zero_cksum, dpdk_acl = linear_acl, dpdk_member = list_member,
     dpdk_crc = (\<lambda>_. 0), dpdk_hs = text_hs, dpdk_hs_scratch = True, dpdk_rdtsc = of_nat,
     dpdk_ring_enqueue = (\<lambda>ring m. if length ring < 8 then Some (ring @ [m]) else None),
     dpdk_tx_burst = (\<lambda>t port queue packets. length packets), dpdk_frag_del_expired = (\<lambda>tbl now. tbl)\<rparr>"

definition sample_environment :: Environment where
  "sample_environment = (make_Environment two_port_config)\<lparr>env_initialized := True, env_port_count := 2,
     env_active_ports := [0, 1], env_port_mac_addrs := [[2, 0, 0, 0, 0, 0], [2, 0, 0, 0, 0, 1]]\<rparr>"

definition sample_worker ::
    "(AclRule list, (MemberKey \<times> u16) list, dpi_regex list, hash_slot list, unit, Mbuf list) WorkerContext" where
  "sample_worker = \<lparr>wc_environment = sample_environment, wc_rules = sample_table, wc_dpi_rules = None,
     wc_flow_table = example_table, wc_ip_frag_tbl = None, wc_tcp_reassembler = None, wc_l3_routes = None,
     wc_ethernet_destinations = None, wc_stats = no_counters, wc_pending_burst = no_counters, wc_bursts_since_flush = 0,
     wc_rule_match_counts = [], wc_flow_hash_rings = [], wc_burst_size = 32, wc_worker_id = 0, wc_mac_updating = True, wc_l3_forwarding = False,
     wc_drop_unmatched = False, wc_flow_overflow_drop = True, wc_dpi_hostname_cache = [], wc_current_burst_tsc = 0,
     wc_fragment_timeout_cycles = 0, wc_fragment_cleanup_interval_cycles = 0, wc_last_fragment_cleanup_tsc = 0, wc_clock = 0\<rparr>"

definition sample_mbuf :: "bytes \<Rightarrow> Mbuf" where
  "sample_mbuf frame = \<lparr>mb_segments = [frame], mb_l2_len = 0, mb_l3_len = 0, mb_ol_flags = 0, mb_port = 0\<rparr>"

text \<open>A TCP packet and a truncated one.\<close>

definition sample_rx :: "u16 \<Rightarrow> Mbuf list" where
  "sample_rx port = (if port = 0 then [sample_mbuf sample_frame, sample_mbuf [1, 2, 3]] else [])"

lemma sample_tx_contract: "tx_contract sample_dpdk"
  by (simp add: tx_contract_def sample_dpdk_def)

lemma sample_worker_env [simp]:
  "wc_environment sample_worker = sample_environment" "env_active_ports sample_environment = [0, 1]"
  "env_port_count sample_environment = 2" "wc_l3_forwarding sample_worker = False"
  by (simp_all add: sample_worker_def sample_environment_def)

lemma sample_rx_length [simp]: "length (sample_rx port) = (if port = 0 then 2 else 0)"
  by (simp add: sample_rx_def)

end
