(* ===== verification/Pipeline_Accounting.thy ===== *)
theory Pipeline_Accounting
  imports Pipeline_Steps Pipeline_Sample
begin

text \<open>
  Every packet is accounted for. \<open>effect\<close> says what a piece of the pipeline adds to four sums
  over the counters, and composes; each operation gets one \<open>effect\<close> lemma.
\<close>

section \<open>Sums\<close>

definition queued :: "('c, 'm, 'd, 'h, 'f, 'r) Burst \<Rightarrow> nat" where
  "queued b = sum_list (map length (b_transmit b))"

text \<open>Packets sent, dropped, staged, left with the fragment table, or handed to another worker.\<close>

definition settled :: "('c, 'm, 'd, 'h, 'f, 'r) Burst \<Rightarrow> u64" where
  "settled b = c_transmitted (b_counters b) + c_dropped (b_counters b) + of_nat (queued b) + of_nat (b_held b) +
     of_nat (b_redispatched b)"

text \<open>Packets answered from the cache, decided, or unknown.\<close>

definition classified :: "('c, 'm, 'd, 'h, 'f, 'r) Burst \<Rightarrow> u64" where
  "classified b = c_flow_cache_hits (b_counters b) + c_matched (b_counters b) + c_unknown (b_counters b)"

definition unparsed :: "('c, 'm, 'd, 'h, 'f, 'r) Burst \<Rightarrow> u64" where
  "unparsed b = c_malformed (b_counters b) + of_nat (b_held b)"

text \<open>What no operation on a packet changes.\<close>

definition steady :: "('c, 'm, 'd, 'h, 'f, 'r) Burst \<Rightarrow> ('c, 'm, 'd, 'h, 'f, 'r) Burst \<Rightarrow> bool" where
  "steady b b' \<longleftrightarrow> wc_environment b' = wc_environment b \<and> wc_l3_forwarding b' = wc_l3_forwarding b \<and>
     wc_l3_routes b' = wc_l3_routes b \<and> wc_flow_overflow_drop b' = wc_flow_overflow_drop b \<and>
     length (b_transmit b') = length (b_transmit b) \<and> c_received (b_counters b') = c_received (b_counters b)"

definition effect :: "u64 \<Rightarrow> u64 \<Rightarrow> u64 \<Rightarrow> u64 \<Rightarrow> ('c, 'm, 'd, 'h, 'f, 'r) Burst \<Rightarrow> ('c, 'm, 'd, 'h, 'f, 'r) Burst \<Rightarrow> bool" where
  "effect s k p m b b' \<longleftrightarrow> steady b b' \<and> settled b' = settled b + s \<and> classified b' = classified b + k \<and>
     c_parsed (b_counters b') = c_parsed (b_counters b) + p \<and> unparsed b' = unparsed b + m"

lemma effect_refl [simp]: "effect 0 0 0 0 b b"
  by (simp add: effect_def steady_def)

lemma effect_trans:
  "effect s k p m b b' \<Longrightarrow> effect s' k' p' m' b' b'' \<Longrightarrow> effect (s + s') (k + k') (p + p') (m + m') b b''"
  by (simp add: effect_def steady_def add.assoc)

text \<open>Composition with the sums given: the form in which proofs use it.\<close>

lemma effect_compose:
  assumes "effect s1 k1 p1 m1 b b'" and "effect s2 k2 p2 m2 b' b''"
    and "s = s1 + s2" and "k = k1 + k2" and "p = p1 + p2" and "m = m1 + m2"
  shows "effect s k p m b b''"
  using effect_trans [OF assms(1,2)] assms(3-6) by simp

lemmas effect_defs = effect_def steady_def settled_def classified_def unparsed_def queued_def

section \<open>Counters\<close>

text \<open>A counter that was bumped is taken off the sum it belongs to.\<close>

lemma effect_bump [simp]:
  "effect s k p m b (bump c_matched_update b') = effect s (k - 1) p m b b'"
  "effect s k p m b (bump c_unknown_update b') = effect s (k - 1) p m b b'"
  "effect s k p m b (bump c_flow_cache_hits_update b') = effect s (k - 1) p m b b'"
  "effect s k p m b (bump c_parsed_update b') = effect s k (p - 1) m b b'"
  "effect s k p m b (bump c_malformed_update b') = effect s k p (m - 1) b b'"
  "effect s k p m b (bump c_dropped_update b') = effect (s - 1) k p m b b'"
  "effect s k p m b (bump c_dropped_by_rule_update b') = effect s k p m b b'"
  "effect s k p m b (bump c_flow_table_full_update b') = effect s k p m b b'"
  "effect s k p m b (bump c_dpi_cache_hits_update b') = effect s k p m b b'"
  "effect s k p m b (bump c_dpi_cache_misses_update b') = effect s k p m b b'"
  "effect s k p m b (bump c_dpi_skipped_by_spi_update b') = effect s k p m b b'"
  "effect s k p m b (bump c_dpi_skipped_by_link_update b') = effect s k p m b b'"
  "effect s k p m b (bump no_counter b') = effect s k p m b b'"
  by (auto simp: effect_defs no_counter_def algebra_simps)

lemma effect_fault [simp]:
  "effect s k p m b (fault f b') = effect s k p m b b'" "effect s k p m (fault f b) b' = effect s k p m b b'"
  by (simp_all add: effect_defs fault_def)

lemma effect_tables [simp]:
  "effect s k p m b (b'\<lparr>wc_flow_table := t\<rparr>) = effect s k p m b b'" "effect s k p m b (b'\<lparr>wc_clock := n\<rparr>) = effect s k p m b b'"
  "effect s k p m b (b'\<lparr>wc_tcp_reassembler := r\<rparr>) = effect s k p m b b'"
  "effect s k p m b (b'\<lparr>wc_dpi_hostname_cache := h\<rparr>) = effect s k p m b b'"
  "effect s k p m b (b'\<lparr>wc_ip_frag_tbl := tbl\<rparr>) = effect s k p m b b'"
  "effect s k p m (b\<lparr>wc_ip_frag_tbl := tbl\<rparr>) b' = effect s k p m b b'"
  by (simp_all add: effect_defs)

interpretation books: classification_steps "\<lambda>k. effect 0 k 0 0"
proof (unfold_locales, goal_cases)
  case (2 j b b' k b'')
  then show ?case by (rule effect_compose) simp_all
qed (auto simp: side_counters_def)

section \<open>One packet\<close>

lemma classify_parsed_effect: "classify_parsed ops packet metadata b = (b', c) \<Longrightarrow> effect 0 1 1 0 b b'"
  by (rule effect_compose [OF _ books.classify_parsed_R, of 0 0 1 0]) simp_all

lemma EnqueuePacket_effect:
  assumes "unat port < length (b_transmit b)"
  shows "effect 1 0 0 0 b (EnqueuePacket packet port b)"
  using assms elem_le_sum_list [of "unat port" "map length (b_transmit b)"]
  by (auto simp: EnqueuePacket_def Let_def effect_defs fault_def map_update sum_list_update)

lemma ApplyForwardDecision_effect: "effect 1 0 0 0 b (ApplyForwardDecision ops ports packet port c b)"
  unfolding ApplyForwardDecision_def DropPacket_def
  by (auto simp: EnqueuePacket_effect split: option.split sum.split prod.split bool.split AccessError.split)

lemma redispatch_effect: "effect 1 0 0 0 b (redispatch ops packet port b)"
  by (auto simp: redispatch_def Let_def DropPacket_def split: option.split) (simp add: effect_defs)

lemma held_effect [simp]: "effect 1 0 0 1 b (b\<lparr>b_held := Suc (b_held b)\<rparr>)"
  by (simp add: effect_defs)

text \<open>On the flow-hash path a packet is settled once; if it was parsed it is classified once.\<close>

lemma ForwardPacket_effect: "\<exists>k m. effect 1 k k m b (ForwardPacket ops ports packet port b)"
proof -
  define r where "r = ParsePacketOwned (dpdk_pkt ops) (wc_ip_frag_tbl b) (wc_current_burst_tsc b) (Some packet)"
  have own: "ownership_ok (wc_ip_frag_tbl b) r" unfolding r_def by (rule ParsePacketOwned_ownership)
  obtain b1 p c where cp: "ClassifyPacket ops packet port b = (b1, p, c)" by (metis prod_cases3)
  have fwd: "effect 1 0 0 0 b1 (ForwardPacket ops ports packet port b)" if "p \<noteq> None"
    using that cp by (auto simp: ForwardPacket_def redispatch_effect ApplyForwardDecision_effect)
  show ?thesis
  proof (cases "po_status r")
    case kComplete
    with own obtain metadata packet' where out: "po_metadata r = Some metadata" "po_packet r = Some packet'"
      by (auto simp: ownership_ok_def)
    have "p \<noteq> None \<and> (effect 0 0 0 0 b b1 \<or> effect 0 1 1 0 b b1)"
      using cp unfolding ClassifyPacket_def Let_def r_def [symmetric] out option.case prod.case
      by (auto split: if_split_asm prod.split_asm dest!: classify_parsed_effect)
    then show ?thesis using effect_trans [OF _ fwd] by fastforce
  next
    case kWaitingForFragments
    with own cp have "p = None" "effect 0 0 0 0 b b1"
      by (auto simp: ClassifyPacket_def Let_def r_def [symmetric] ownership_ok_def split: option.splits)
    then have "effect 1 0 0 1 b (ForwardPacket ops ports packet port b)"
      using effect_trans [OF _ held_effect] cp by (fastforce simp: ForwardPacket_def)
    then show ?thesis by blast
  next
    case kMalformed
    with own cp have "p \<noteq> None" "effect 0 0 0 1 b b1"
      by (auto simp: ClassifyPacket_def Let_def r_def [symmetric] ownership_ok_def split: option.splits)
    then show ?thesis using effect_trans [OF _ fwd] by fastforce
  qed
qed

section \<open>Transmission\<close>

lemma flush_port_effect:
  assumes "tx_contract ops" and "unat port < length (b_transmit b)"
  shows "effect 0 0 0 0 b (flush_port ops port b)"
    and "b_transmit (flush_port ops port b) = (b_transmit b)[unat port := []]"
proof -
  let ?buffer = "b_transmit b ! unat port"
  let ?sent = "dpdk_tx_burst ops (wc_clock b) port (wc_worker_id b) ?buffer"
  have "?sent \<le> length ?buffer" using assms(1) by (simp add: tx_contract_def)
  moreover have "queued b = sum_list (map length ((b_transmit b)[unat port := []])) + length ?buffer"
    using assms(2) elem_le_sum_list [of "unat port" "map length (b_transmit b)"]
    by (simp add: queued_def map_update sum_list_update)
  ultimately have "queued b = sum_list (map length ((b_transmit b)[unat port := []])) + (?sent + (length ?buffer - ?sent))"
    by simp
  then have q: "(of_nat (queued b) :: u64) = of_nat (sum_list (map length ((b_transmit b)[unat port := []]))) +
      (of_nat ?sent + of_nat (length ?buffer - ?sent))" by (simp only: of_nat_add)
  have "settled (flush_port ops port b) = settled b"
  proof (cases "?buffer = []")
    case False
    then show ?thesis by (simp add: settled_def q) (simp add: flush_port_def Let_def queued_def add_ac)
  qed (simp add: flush_port_def)
  then show "effect 0 0 0 0 b (flush_port ops port b)"
    by (simp add: effect_def) (simp add: flush_port_def Let_def steady_def classified_def unparsed_def)
  show "b_transmit (flush_port ops port b) = (b_transmit b)[unat port := []]"
    by (cases "?buffer = []") (simp_all add: flush_port_def Let_def, metis list_update_id)
qed

lemma FlushTransmitBuffers_effect:
  assumes "tx_contract ops" and "\<forall>p \<in> set (env_active_ports (wc_environment b)). unat p < length (b_transmit b)"
  shows "effect 0 0 0 0 b (FlushTransmitBuffers ops b)"
    and "b_transmit (FlushTransmitBuffers ops b) =
           fold (\<lambda>p bufs. bufs[unat p := []]) (env_active_ports (wc_environment b)) (b_transmit b)"
proof -
  have "effect 0 0 0 0 b (fold (flush_port ops) ps b) \<and>
      b_transmit (fold (flush_port ops) ps b) = fold (\<lambda>p bufs. bufs[unat p := []]) ps (b_transmit b)"
    if "\<forall>p \<in> set ps. unat p < length (b_transmit b)" for ps
    using that
  proof (induction ps arbitrary: b)
    case (Cons p ps)
    then have "effect 0 0 0 0 b (flush_port ops p b)" "b_transmit (flush_port ops p b) = (b_transmit b)[unat p := []]"
      using flush_port_effect [OF assms(1), of p b] by auto
    with Cons.IH [of "flush_port ops p b"] Cons.prems show ?case by (auto dest: effect_trans)
  qed simp
  with assms(2) show "effect 0 0 0 0 b (FlushTransmitBuffers ops b)"
    and "b_transmit (FlushTransmitBuffers ops b) =
           fold (\<lambda>p bufs. bufs[unat p := []]) (env_active_ports (wc_environment b)) (b_transmit b)"
    by (auto simp: FlushTransmitBuffers_def)
qed

section \<open>A burst on the queue path\<close>

text \<open>A slot holds a parsed packet, a malformed one, or a mark for one that waits.\<close>

definition slot_parsed :: "Mbuf option \<times> u16 \<Rightarrow> bool" where
  "slot_parsed s \<longleftrightarrow> fst s \<noteq> None \<and> snd s \<noteq> kPacketUnmapped"

lemma of_nat_below_marks:
  assumes "n < 65534"
  shows "(of_nat n :: u16) \<noteq> kPacketUnmapped" "(of_nat n :: u16) \<noteq> kPacketWaitingForFragments" "unat (of_nat n :: u16) = n"
proof -
  show u: "unat (of_nat n :: u16) = n" using assms by (simp add: unat_of_nat take_bit_nat_eq_self_iff)
  have "unat kPacketUnmapped = 65535" "unat kPacketWaitingForFragments = 65534"
    by (simp_all add: kPacketUnmapped_def kPacketWaitingForFragments_def)
  with u assms show "(of_nat n :: u16) \<noteq> kPacketUnmapped" "(of_nat n :: u16) \<noteq> kPacketWaitingForFragments" by auto
qed

lemma ParseReceivedPackets_slots:
  assumes "ParseReceivedPackets ops tsc packets n tbl c = (slots, mds, tbl', c')" and "n + length packets < 65534"
  shows "length slots = length packets \<and> length mds = length (filter slot_parsed slots) \<and>
     c' = c\<lparr>c_parsed := c_parsed c + of_nat (length mds),
            c_malformed := c_malformed c + of_nat (length (filter (\<lambda>s. fst s \<noteq> None \<and> snd s = kPacketUnmapped) slots))\<rparr>"
  using assms
proof (induction packets arbitrary: n tbl c slots mds)
  case Nil
  then show ?case by simp
next
  case (Cons packet packets)
  define r where "r = ParsePacketOwned ops tbl tsc (Some packet)"
  have own: "ownership_ok tbl r" unfolding r_def by (rule ParsePacketOwned_ownership)
  note marks = of_nat_below_marks [of n]
  show ?case
  proof (cases "po_status r")
    case kComplete
    with own obtain md pk where "po_metadata r = Some md" "po_packet r = Some pk" by (auto simp: ownership_ok_def)
    with Cons.prems obtain slots1 mds1 where
      "ParseReceivedPackets ops tsc packets (n + 1) (po_frag_tbl r) (c\<lparr>c_parsed := c_parsed c + 1\<rparr>) = (slots1, mds1, tbl', c')"
      "slots = (Some pk, of_nat n) # slots1" "mds = md # mds1"
      by (auto simp: Let_def r_def [symmetric] split: prod.splits)
    with Cons.IH [OF this(1)] Cons.prems(2) marks show ?thesis by (simp add: slot_parsed_def)
  next
    case kWaitingForFragments
    with own have "po_metadata r = None" by (auto simp: ownership_ok_def)
    with Cons.prems kWaitingForFragments obtain slots1 where
      "ParseReceivedPackets ops tsc packets n (po_frag_tbl r) c = (slots1, mds, tbl', c')"
      "slots = (None, kPacketWaitingForFragments) # slots1"
      by (auto simp: Let_def r_def [symmetric] split: prod.splits)
    with Cons.IH [OF this(1)] Cons.prems(2) show ?thesis by (simp add: slot_parsed_def)
  next
    case kMalformed
    with own have "po_metadata r = None" by (auto simp: ownership_ok_def)
    with Cons.prems kMalformed obtain slots1 where
      "ParseReceivedPackets ops tsc packets n (po_frag_tbl r) (c\<lparr>c_malformed := c_malformed c + 1\<rparr>) = (slots1, mds, tbl', c')"
      "slots = (Some packet, kPacketUnmapped) # slots1"
      by (auto simp: Let_def r_def [symmetric] split: prod.splits)
    with Cons.IH [OF this(1)] Cons.prems(2) show ?thesis by (simp add: slot_parsed_def)
  qed
qed

lemma finalize_packet_effect:
  "effect 1 (if slot_parsed slot then 1 else 0) 0 (if fst slot = None then 1 else 0) b
     (finalize_packet ops ports port mds keys bulk spi slot b)"
proof -
  have "effect 1 1 0 0 b (ApplyForwardDecision ops ports packet port c b1)" if "effect 0 1 0 0 b b1" for packet c b1
    using effect_trans [OF that ApplyForwardDecision_effect] by simp
  then show ?thesis
    by (auto simp: finalize_packet_def slot_parsed_def DropPacket_def Let_def dest: books.finalize_miss_R
        split: prod.split option.split)
qed

lemma fold_finalize_effect:
  "effect (of_nat (length slots)) (of_nat (length (filter slot_parsed slots))) 0
     (of_nat (length (filter (\<lambda>s. fst s = None) slots))) b
     (fold (finalize_packet ops ports port mds keys bulk spi) slots b)"
proof (induction slots arbitrary: b)
  case (Cons slot slots)
  from effect_trans [OF finalize_packet_effect [of slot b ops ports port mds keys bulk spi] Cons.IH]
  show ?case by (simp split: if_split_asm)
qed simp

text \<open>The books balance: everything received is settled, and classified or known to be unparsed.\<close>

definition balanced :: "('c, 'm, 'd, 'h, 'f, 'r) Burst \<Rightarrow> bool" where
  "balanced b \<longleftrightarrow> settled b = c_received (b_counters b) \<and> classified b = c_parsed (b_counters b) \<and>
     c_parsed (b_counters b) + unparsed b = c_received (b_counters b)"

lemma effect_balanced:
  "effect 0 0 0 0 b b' \<Longrightarrow> balanced b \<Longrightarrow> balanced b'"
  by (simp add: effect_def balanced_def steady_def)

definition same_setup :: "('c, 'm, 'd, 'h, 'f, 'r) Burst \<Rightarrow> ('c, 'm, 'd, 'h, 'f, 'r) Burst \<Rightarrow> bool" where
  "same_setup b b' \<longleftrightarrow> wc_environment b' = wc_environment b \<and> wc_l3_forwarding b' = wc_l3_forwarding b \<and>
     wc_l3_routes b' = wc_l3_routes b \<and> length (b_transmit b') = length (b_transmit b)"

lemma slots_partition:
  "length slots = length (filter slot_parsed slots) + length (filter (\<lambda>s. fst s \<noteq> None \<and> snd s = kPacketUnmapped) slots) +
     length (filter (\<lambda>s. fst s = None) slots)"
  by (induction slots) (auto simp: slot_parsed_def)

lemma ProcessPortBurst_balanced:
  assumes "balanced b" and "length packets \<le> kMaxBurstCapacity"
  shows "balanced (ProcessPortBurst ops ports port packets b) \<and> same_setup b (ProcessPortBurst ops ports port packets b) \<and>
     c_received (b_counters (ProcessPortBurst ops ports port packets b)) = c_received (b_counters b) + of_nat (length packets)"
proof -
  define tsc where "tsc = dpdk_rdtsc ops (wc_clock b)"
  define c where "c = (b_counters b)\<lparr>c_received := c_received (b_counters b) + of_nat (length packets)\<rparr>"
  define b0 where "b0 = b\<lparr>wc_clock := wc_clock b + 1, wc_current_burst_tsc := tsc, b_counters := c\<rparr>"
  obtain slots mds tbl c' where parse: "ParseReceivedPackets (dpdk_pkt ops) tsc packets 0 (wc_ip_frag_tbl b) c = (slots, mds, tbl, c')"
    by (metis prod_cases4)
  obtain t bulk where bulk: "BulkFlowLookup tsc (map MakeCanonicalFromMetadata mds) (wc_flow_table b) = (t, bulk)" by fastforce
  define b2 where "b2 = b0\<lparr>wc_ip_frag_tbl := tbl, b_counters := c', wc_flow_table := t\<rparr>"
  define b' where "b' = ProcessPortBurst ops ports port packets b"
  show ?thesis
  proof (cases "packets = []")
    case True
    then have "b' = b0" by (simp add: b'_def ProcessPortBurst_def rte_rdtsc_def Let_def b0_def c_def tsc_def)
    then show ?thesis using assms(1) True unfolding b'_def [symmetric]
      by (simp add: b0_def c_def balanced_def same_setup_def settled_def classified_def unparsed_def queued_def)
  next
    case False
    let ?np = "length mds" and ?nw = "length (filter (\<lambda>s. fst s = None) slots)"
      and ?nu = "length (filter (\<lambda>s. fst s \<noteq> None \<and> snd s = kPacketUnmapped) slots)"
    have slots: "length slots = length packets" "?np = length (filter slot_parsed slots)"
        "c' = c\<lparr>c_parsed := c_parsed c + of_nat ?np, c_malformed := c_malformed c + of_nat ?nu\<rparr>"
      using ParseReceivedPackets_slots [OF parse] assms(2) by (auto simp: kMaxBurstCapacity_def)
    have "length packets = ?np + ?nu + ?nw" using slots_partition [of slots] slots by simp
    then have n: "(of_nat (length packets) :: u64) = of_nat ?np + of_nat ?nu + of_nat ?nw" by (simp only: of_nat_add)
    have "b' = FinalizePackets ops ports port slots mds (map MakeCanonicalFromMetadata mds) bulk b2"
      using False by (simp add: b'_def ProcessPortBurst_def rte_rdtsc_def Let_def b2_def b0_def parse bulk flip: tsc_def c_def)
    then have "effect (of_nat (length packets)) (of_nat ?np) 0 (of_nat ?nw) b2 b'"
      using fold_finalize_effect [of slots b2] by (simp add: FinalizePackets_def slots(1,2))
    then have eff: "steady b2 b'" "settled b' = settled b2 + of_nat (length packets)" "classified b' = classified b2 + of_nat ?np"
        "c_parsed (b_counters b') = c_parsed (b_counters b2)" "unparsed b' = unparsed b2 + of_nat ?nw"
      by (simp_all add: effect_def)
    have before: "settled b2 = settled b" "classified b2 = classified b" "c_parsed (b_counters b2) = c_parsed (b_counters b) + of_nat ?np"
        "unparsed b2 = unparsed b + of_nat ?nu" "c_received (b_counters b2) = c_received (b_counters b) + of_nat (length packets)"
        "same_setup b b2"
      by (simp_all add: b2_def b0_def slots(3) c_def settled_def classified_def unparsed_def queued_def same_setup_def)
    show ?thesis
      using assms(1) eff before n unfolding b'_def [symmetric] balanced_def same_setup_def steady_def
      by (simp add: add_ac)
  qed
qed

section \<open>An iteration of a worker\<close>

lemma same_setup_trans: "same_setup b b' \<Longrightarrow> same_setup b' b'' \<Longrightarrow> same_setup b b''"
  by (simp add: same_setup_def)

lemma effect_same_setup: "effect s k p m b b' \<Longrightarrow> same_setup b b'"
  by (simp add: effect_def steady_def same_setup_def)

lemma CleanupExpiredFragments_effect: "effect 0 0 0 0 b (CleanupExpiredFragments ops b)"
  by (auto simp: CleanupExpiredFragments_def Let_def effect_defs split: option.split)

lemma start_burst_balanced: "balanced (start_burst w)"
  by (simp add: balanced_def settled_def classified_def unparsed_def queued_def start_burst_def no_counters_def
      Burst.defs WorkerContext.defs sum_list_replicate map_replicate)

lemma fold_ProcessPortBurst_balanced:
  assumes "balanced b" and "\<forall>p \<in> set ps. length (rx p) \<le> kMaxBurstCapacity"
  shows "let b' = fold (\<lambda>p. ProcessPortBurst ops ports p (rx p)) ps b in balanced b' \<and> same_setup b b' \<and>
     c_received (b_counters b') = c_received (b_counters b) + of_nat (\<Sum>p\<leftarrow>ps. length (rx p))"
  using assms
proof (induction ps arbitrary: b)
  case Nil
  then show ?case by (simp add: same_setup_def)
next
  case (Cons p ps)
  note one = ProcessPortBurst_balanced [OF Cons.prems(1), of "rx p" ops ports p]
  have "balanced (ProcessPortBurst ops ports p (rx p) b)" using one Cons.prems(2) by simp
  from Cons.IH [OF this] one Cons.prems(2) show ?case
    by (simp add: Let_def same_setup_def)
qed

text \<open>Clearing and flushing at the end of an iteration.\<close>

lemma finish_iteration:
  assumes "tx_contract ops" and "\<forall>p \<in> set (env_active_ports (wc_environment b)). unat p < length (b_transmit b)"
    and b': "b' = FlushTransmitBuffers ops (CleanupExpiredFragments ops b)"
  shows "effect 0 0 0 0 b b'"
    and "\<forall>p \<in> set (env_active_ports (wc_environment b)). b_transmit b' ! unat p = []"
proof -
  let ?c = "CleanupExpiredFragments ops b"
  have eff: "effect 0 0 0 0 b ?c" by (rule CleanupExpiredFragments_effect)
  then have same: "same_setup b ?c" by (rule effect_same_setup)
  then have ports: "\<forall>p \<in> set (env_active_ports (wc_environment ?c)). unat p < length (b_transmit ?c)"
    using assms(2) by (simp add: same_setup_def)
  note flush = FlushTransmitBuffers_effect [OF assms(1) ports]
  show "effect 0 0 0 0 b b'" unfolding b' by (rule effect_compose [OF eff flush(1)]) simp_all
  have "fold (\<lambda>p bufs. bufs[unat p := []]) ps bufs ! i = []"
    if "i < length bufs" "i \<in> unat ` set ps \<or> bufs ! i = []" for ps :: "u16 list" and bufs :: "Mbuf list list" and i
    using that
  proof (induction ps arbitrary: bufs)
    case (Cons a ps)
    then have "i < length (bufs[unat a := []])" "i \<in> unat ` set ps \<or> bufs[unat a := []] ! i = []"
      by (cases "unat a = i"; auto)+
    then show ?case by (simp add: Cons.IH)
  qed simp
  then show "\<forall>p \<in> set (env_active_ports (wc_environment b)). b_transmit b' ! unat p = []"
    using assms(2) same unfolding b' flush(2) by (simp add: same_setup_def)
qed

lemma start_burst_setup [simp]:
  "wc_environment (start_burst w) = wc_environment w"
  "length (b_transmit (start_burst w)) = unat (env_port_count (wc_environment w))"
  "c_received (b_counters (start_burst w)) = 0"
  by (simp_all add: start_burst_def Burst.defs WorkerContext.defs no_counters_def)

text \<open>What an iteration leaves, whichever path led there.\<close>

lemma iterate_ports_balanced:
  assumes "tx_contract ops"
    and "\<forall>p \<in> set (env_active_ports (wc_environment w)). p < env_port_count (wc_environment w)"
    and "\<forall>p \<in> set (env_active_ports (wc_environment w)). length (rx p) \<le> kMaxBurstCapacity"
    and b: "b = iterate_ports ops rx (start_burst w)"
  shows "balanced b"
    and "c_received (b_counters b) = of_nat (\<Sum>p\<leftarrow>env_active_ports (wc_environment w). length (rx p))"
    and "\<forall>p \<in> set (env_active_ports (wc_environment w)). b_transmit b ! unat p = []"
proof -
  let ?ports = "env_active_ports (wc_environment w)"
  define b1 where "b1 = fold (\<lambda>p. ProcessPortBurst ops ?ports p (rx p)) ?ports (start_burst w)"
  have b1: "balanced b1" "same_setup (start_burst w) b1" "c_received (b_counters b1) = of_nat (\<Sum>p\<leftarrow>?ports. length (rx p))"
    using fold_ProcessPortBurst_balanced [OF start_burst_balanced assms(3), of ops ?ports w] by (simp_all add: Let_def b1_def)
  have "\<forall>p \<in> set (env_active_ports (wc_environment b1)). unat p < length (b_transmit b1)"
    using assms(2) b1(2) by (auto simp: same_setup_def word_less_nat_alt)
  note fin = finish_iteration [OF assms(1) this, of b]
  have "b = FlushTransmitBuffers ops (CleanupExpiredFragments ops b1)"
    by (simp add: b iterate_ports_def Let_def b1_def)
  note fin = fin [OF this]
  from effect_balanced [OF fin(1) b1(1)] show "balanced b" .
  show "c_received (b_counters b) = of_nat (\<Sum>p\<leftarrow>?ports. length (rx p))"
    using fin(1) b1(3) by (simp add: effect_def steady_def)
  show "\<forall>p \<in> set ?ports. b_transmit b ! unat p = []" using fin(2) b1(2) by (simp add: same_setup_def)
qed

text \<open>
  C4. The books of a worker on the queue path balance: in every iteration, each packet received from
  the ports is sent, dropped, left with the fragment table, or staged for a port that is not
  flushed; each is parsed, malformed or waits for fragments; each parsed packet is answered
  from the flow cache, decided, or unknown; and the staging buffers of the active ports are empty
  at the end. The driver sends no more packets than it is given and delivers at most 256.
\<close>

theorem queue_burst_accounting:
  assumes "tx_contract ops"
    and "\<forall>p \<in> set (env_active_ports (wc_environment w)). p < env_port_count (wc_environment w)"
    and "\<forall>p \<in> set (env_active_ports (wc_environment w)). length (rx p) \<le> kMaxBurstCapacity"
  shows "let b = iterate_ports ops rx (start_burst w); c = b_counters b in
     c_received c = of_nat (\<Sum>p\<leftarrow>env_active_ports (wc_environment w). length (rx p)) \<and>
     c_received c = c_transmitted c + c_dropped c + of_nat (sum_list (map length (b_transmit b))) + of_nat (b_held b) +
       of_nat (b_redispatched b) \<and>
     c_received c = c_parsed c + c_malformed c + of_nat (b_held b) \<and>
     c_parsed c = c_flow_cache_hits c + c_matched c + c_unknown c \<and>
     (\<forall>p \<in> set (env_active_ports (wc_environment w)). b_transmit b ! unat p = [])"
proof -
  define b where "b = iterate_ports ops rx (start_burst w)"
  note facts = iterate_ports_balanced [OF assms b_def]
  have "settled b = c_received (b_counters b)" "classified b = c_parsed (b_counters b)"
      "c_parsed (b_counters b) + unparsed b = c_received (b_counters b)"
    using facts(1) by (simp_all add: balanced_def)
  with facts(2,3) show ?thesis
    unfolding b_def [symmetric] Let_def by (simp only: settled_def classified_def unparsed_def queued_def add.assoc simp_thms)
qed

theorem queue_burst_accounting_witness:
  "let b = iterate_ports sample_dpdk sample_rx (start_burst sample_worker); c = b_counters b in
     c_received c = 2 \<and> b_transmit b ! 0 = [] \<and> b_transmit b ! 1 = [] \<and>
     2 = c_transmitted c + c_dropped c + of_nat (sum_list (map length (b_transmit b))) + of_nat (b_held b) +
       of_nat (b_redispatched b) \<and> 2 = c_parsed c + c_malformed c + of_nat (b_held b)"
  using queue_burst_accounting [OF sample_tx_contract, of sample_worker sample_rx]
  by (auto simp: kMaxBurstCapacity_def Let_def)

section \<open>An iteration on the flow-hash path\<close>

lemma fold_ForwardPacket_effect:
  "\<exists>k m. effect (of_nat (length packets)) k k m b (fold (\<lambda>p. ForwardPacket ops ports p (port p)) packets b)"
proof (induction packets arbitrary: b)
  case Nil
  show ?case by (rule exI [of _ 0], rule exI [of _ 0]) simp
next
  case (Cons p packets)
  let ?b1 = "ForwardPacket ops ports p (port p) b"
  obtain k m where one: "effect 1 k k m b ?b1" using ForwardPacket_effect by blast
  obtain k' m' where rest: "effect (of_nat (length packets)) k' k' m' ?b1
      (fold (\<lambda>p. ForwardPacket ops ports p (port p)) packets ?b1)" using Cons.IH by blast
  from effect_trans [OF one rest] show ?case by auto
qed

text \<open>
  The books of a worker on the flow-hash path balance: every packet taken from its ring is
  sent, dropped, left with the fragment table, handed to another worker's ring, or staged for a
  port that is not flushed; and every parsed packet that is not handed on is answered from the flow
  cache, decided, or unknown.
\<close>

theorem ring_burst_accounting:
  assumes "tx_contract ops"
    and "\<forall>p \<in> set (env_active_ports (wc_environment w)). p < env_port_count (wc_environment w)"
  shows "let b = iterate_ring ops packets (start_burst w); c = b_counters b in
     c_received c = of_nat (length packets) \<and>
     c_received c = c_transmitted c + c_dropped c + of_nat (sum_list (map length (b_transmit b))) + of_nat (b_held b) +
       of_nat (b_redispatched b) \<and>
     c_parsed c = c_flow_cache_hits c + c_matched c + c_unknown c \<and>
     (\<forall>p \<in> set (env_active_ports (wc_environment w)). b_transmit b ! unat p = [])"
proof -
  let ?w = "start_burst w" and ?ports = "env_active_ports (wc_environment w)"
  let ?c = "b_counters ?w"
  define b0 where "b0 = ?w\<lparr>wc_clock := wc_clock ?w + 1, wc_current_burst_tsc := dpdk_rdtsc ops (wc_clock ?w),
     b_counters := ?c\<lparr>c_received := c_received ?c + of_nat (length packets)\<rparr>\<rparr>"
  define b1 where "b1 = fold (\<lambda>p. ForwardPacket ops ?ports p (mb_port p)) packets b0"
  define b where "b = iterate_ring ops packets ?w"
  have b: "b = FlushTransmitBuffers ops (CleanupExpiredFragments ops b1)"
    by (simp add: b_def iterate_ring_def rte_rdtsc_def Let_def b1_def b0_def)
  have b0: "settled b0 = 0" "classified b0 = 0" "c_parsed (b_counters b0) = 0" "c_received (b_counters b0) = of_nat (length packets)"
      "wc_environment b0 = wc_environment w" "length (b_transmit b0) = unat (env_port_count (wc_environment w))"
    by (simp_all add: b0_def settled_def classified_def queued_def start_burst_def no_counters_def
        Burst.defs WorkerContext.defs sum_list_replicate map_replicate)
  obtain k m where eff: "effect (of_nat (length packets)) k k m b0 b1"
    using fold_ForwardPacket_effect unfolding b1_def by blast
  then have same: "wc_environment b1 = wc_environment w" "length (b_transmit b1) = unat (env_port_count (wc_environment w))"
    using b0 by (simp_all add: effect_def steady_def)
  then have "\<forall>p \<in> set (env_active_ports (wc_environment b1)). unat p < length (b_transmit b1)"
    using assms(2) by (auto simp: word_less_nat_alt)
  note fin = finish_iteration [OF assms(1) this b]
  have "settled b = of_nat (length packets)" "classified b = c_parsed (b_counters b)" "c_received (b_counters b) = of_nat (length packets)"
    using fin(1) eff b0 by (simp_all add: effect_def steady_def)
  with fin(2) show ?thesis unfolding b_def [symmetric] Let_def same
    by (simp only: settled_def classified_def queued_def add.assoc simp_thms)
qed

theorem ring_burst_accounting_witness:
  "let b = iterate_ring sample_dpdk (sample_rx 0) (start_burst sample_worker); c = b_counters b in
     c_received c = 2 \<and> b_transmit b ! 0 = [] \<and> b_transmit b ! 1 = [] \<and>
     2 = c_transmitted c + c_dropped c + of_nat (sum_list (map length (b_transmit b))) + of_nat (b_held b) +
       of_nat (b_redispatched b)"
  using ring_burst_accounting [OF sample_tx_contract, of sample_worker "sample_rx 0"]
  by (auto simp: Let_def)
end
