(* ===== verification/Pipeline_Staging.thy ===== *)
theory Pipeline_Staging
  imports Pipeline_Accounting
begin

text \<open>
  The staging buffers. \<^verbatim>\<open>EnqueuePacket\<close> writes into an array of \<open>kMaxBurstCapacity\<close> places without
  a check. \<open>grows T n\<close> says that a piece of the pipeline stages at most \<open>n\<close> packets per
  port, for ports of \<open>T\<close> only, and does not overrun a buffer with room for them.
\<close>

definition overrun :: "('c, 'm, 'd, 'h, 'f, 'r) Burst \<Rightarrow> bool" where
  "overrun b \<longleftrightarrow> TransmitBufferOverrun \<in> set (b_faults b)"

definition grows :: "nat set \<Rightarrow> nat \<Rightarrow> ('c, 'm, 'd, 'h, 'f, 'r) Burst \<Rightarrow> ('c, 'm, 'd, 'h, 'f, 'r) Burst \<Rightarrow> bool" where
  "grows T n b b' \<longleftrightarrow> wc_environment b' = wc_environment b \<and> wc_l3_forwarding b' = wc_l3_forwarding b \<and>
     length (b_transmit b') = length (b_transmit b) \<and> (\<forall>q. q \<notin> T \<longrightarrow> b_transmit b' ! q = b_transmit b ! q) \<and>
     (\<forall>q < length (b_transmit b). length (b_transmit b' ! q) \<le> length (b_transmit b ! q) + n) \<and>
     ((\<forall>q < length (b_transmit b). q \<in> T \<longrightarrow> length (b_transmit b ! q) + n \<le> kMaxBurstCapacity) \<longrightarrow>
        overrun b' = overrun b)"

lemma grows_refl [simp]: "grows T n b b"
  by (simp add: grows_def)

lemma grows_trans:
  assumes "grows T n b b'" and "grows T m b' b''"
  shows "grows T (n + m) b b''"
proof -
  have len: "length (b_transmit b') = length (b_transmit b)" using assms(1) by (simp add: grows_def)
  have b': "length (b_transmit b' ! q) \<le> length (b_transmit b ! q) + n" if "q < length (b_transmit b)" for q
    using assms(1) that by (simp add: grows_def)
  have b'': "length (b_transmit b'' ! q) \<le> length (b_transmit b' ! q) + m" if "q < length (b_transmit b)" for q
    using assms(2) that len by (simp add: grows_def)
  have "overrun b'' = overrun b"
    if room: "\<forall>q < length (b_transmit b). q \<in> T \<longrightarrow> length (b_transmit b ! q) + (n + m) \<le> kMaxBurstCapacity"
  proof -
    have "\<forall>q < length (b_transmit b). q \<in> T \<longrightarrow> length (b_transmit b ! q) + n \<le> kMaxBurstCapacity"
      using room by fastforce
    moreover have "\<forall>q < length (b_transmit b'). q \<in> T \<longrightarrow> length (b_transmit b' ! q) + m \<le> kMaxBurstCapacity"
      using room b' len by fastforce
    ultimately show ?thesis using assms unfolding grows_def by metis
  qed
  moreover have "length (b_transmit b'' ! q) \<le> length (b_transmit b ! q) + (n + m)" if "q < length (b_transmit b)" for q
    using b' [OF that] b'' [OF that] by linarith
  moreover have "b_transmit b'' ! q = b_transmit b ! q" if "q \<notin> T" for q using assms that by (simp add: grows_def)
  ultimately show ?thesis using assms by (simp add: grows_def)
qed

lemma grows_frame:
  assumes "b_transmit b' = b_transmit b" and "b_faults b' = b_faults b" and "wc_environment b' = wc_environment b"
    and "wc_l3_forwarding b' = wc_l3_forwarding b"
  shows "grows T n b b'" "grows T n a b' = grows T n a b" "grows T n b c = grows T n b' c"
  using assms by (simp_all add: grows_def overrun_def)

lemma grows_bump [simp]: "grows T n a (bump f b) = grows T n a b" "grows T n (bump f b) a = grows T n b a"
  by (simp_all add: grows_def overrun_def)

lemma grows_tables [simp]:
  "grows T n a (b\<lparr>wc_flow_table := t\<rparr>) = grows T n a b" "grows T n a (b\<lparr>wc_clock := c\<rparr>) = grows T n a b"
  "grows T n a (b\<lparr>wc_tcp_reassembler := r\<rparr>) = grows T n a b" "grows T n a (b\<lparr>wc_dpi_hostname_cache := h\<rparr>) = grows T n a b"
  "grows T n a (b\<lparr>wc_ip_frag_tbl := tbl\<rparr>) = grows T n a b" "grows T n a (b\<lparr>b_held := k\<rparr>) = grows T n a b"
  "grows T n a (b\<lparr>wc_flow_hash_rings := rs, b_redispatched := j\<rparr>) = grows T n a b"
  "grows T n a (fault PacketReadOutOfRange b) = grows T n a b" "grows T n (b\<lparr>wc_ip_frag_tbl := tbl\<rparr>) a = grows T n b a"
  by (simp_all add: grows_def overrun_def fault_def)

text \<open>Classification stages nothing.\<close>

interpretation staging: classification_steps "\<lambda>k. grows {} 0"
proof (unfold_locales, goal_cases)
  case (2 j b b' k b'')
  then show ?case using grows_trans by fastforce
qed simp_all

lemma grows_weaken: "grows {} 0 b b' \<Longrightarrow> grows T n b b'"
  by (auto simp: grows_def)

text \<open>A decision stages at most one packet, for the port that was resolved.\<close>

lemma EnqueuePacket_grows:
  assumes "unat port \<in> T" and "unat port < length (b_transmit b)"
  shows "grows T 1 b (EnqueuePacket packet port b)"
  using assms by (auto simp: grows_def EnqueuePacket_def Let_def overrun_def fault_def nth_list_update)

lemma ApplyForwardDecision_grows:
  assumes "\<And>tp. ResolveTransmitPort b c ports port = Some tp \<Longrightarrow> unat tp \<in> T"
  shows "grows T 1 b (ApplyForwardDecision ops ports packet port c b)"
  using assms unfolding ApplyForwardDecision_def DropPacket_def
  by (auto simp: EnqueuePacket_grows simp del: One_nat_def split: option.split sum.split prod.split bool.split AccessError.split)

text \<open>Where a port's packets may go: anywhere, or to its partner.\<close>

definition targets :: "nat set \<Rightarrow> u16 list \<Rightarrow> u16 \<Rightarrow> ('c, 'm, 'd, 'h, 'f, 'r) Burst \<Rightarrow> bool" where
  "targets T ports port b \<longleftrightarrow> T = UNIV \<or> \<not> wc_l3_forwarding b \<and> unat (GetTransmitPort ports port) \<in> T"

lemma targets_Resolve: "targets T ports port b \<Longrightarrow> ResolveTransmitPort b c ports port = Some tp \<Longrightarrow> unat tp \<in> T"
  by (auto simp: targets_def ResolveTransmitPort_def)

lemma targets_grows: "targets T ports port b \<Longrightarrow> grows T' n b b' \<Longrightarrow> targets T ports port b'"
  by (simp add: targets_def grows_def)

lemma decide_and_apply_grows:
  assumes "targets T ports port b" and "grows {} 0 b b'"
  shows "grows T 1 b (ApplyForwardDecision ops ports packet port c b')"
proof -
  have "grows T 1 b' (ApplyForwardDecision ops ports packet port c b')"
    using targets_Resolve [OF targets_grows [OF assms]] by (rule ApplyForwardDecision_grows)
  then show ?thesis using grows_trans [OF grows_weaken [OF assms(2), of T 0]] by simp
qed

lemma finalize_packet_grows:
  assumes "targets T ports port b"
  shows "grows T 1 b (finalize_packet ops ports port mds keys bulk spi slot b)"
  by (auto simp: finalize_packet_def DropPacket_def Let_def simp del: One_nat_def intro!: decide_and_apply_grows [OF assms]
      dest: staging.finalize_miss_R split: prod.split option.split)

lemma fold_grows:
  assumes "\<And>x b. targets T ports port b \<Longrightarrow> grows T 1 b (f x b)" and "targets T ports port b"
  shows "grows T (length xs) b (fold f xs b)"
  using assms(2)
proof (induction xs arbitrary: b)
  case (Cons x xs)
  have one: "grows T 1 b (f x b)" using assms(1) Cons.prems .
  from grows_trans [OF one Cons.IH [OF targets_grows [OF Cons.prems one]]] show ?case by simp
qed simp

lemma ParseReceivedPackets_length:
  "ParseReceivedPackets ops tsc packets n tbl c = (slots, mds, tbl', c') \<Longrightarrow> length slots = length packets"
  by (induction ops tsc packets n tbl c arbitrary: slots mds tbl' c' rule: ParseReceivedPackets.induct)
    (auto simp: Let_def split: option.split_asm if_split_asm prod.split_asm)

lemma ProcessPortBurst_grows:
  assumes "targets T ports port b"
  shows "grows T (length packets) b (ProcessPortBurst ops ports port packets b)"
proof -
  define tsc where "tsc = dpdk_rdtsc ops (wc_clock b)"
  define c where "c = (b_counters b)\<lparr>c_received := c_received (b_counters b) + of_nat (length packets)\<rparr>"
  define b0 where "b0 = b\<lparr>wc_clock := wc_clock b + 1, wc_current_burst_tsc := tsc, b_counters := c\<rparr>"
  obtain slots mds tbl c' where parse: "ParseReceivedPackets (dpdk_pkt ops) tsc packets 0 (wc_ip_frag_tbl b) c = (slots, mds, tbl, c')"
    by (metis prod_cases4)
  obtain t bulk where bulk: "BulkFlowLookup tsc (map MakeCanonicalFromMetadata mds) (wc_flow_table b) = (t, bulk)" by fastforce
  define b2 where "b2 = b0\<lparr>wc_ip_frag_tbl := tbl, b_counters := c', wc_flow_table := t\<rparr>"
  have g2: "grows T 0 b b2" unfolding b2_def b0_def by (rule grows_frame) simp_all
  have "ProcessPortBurst ops ports port packets b = (if packets = [] then b0 else
      FinalizePackets ops ports port slots mds (map MakeCanonicalFromMetadata mds) bulk b2)"
    by (simp add: ProcessPortBurst_def rte_rdtsc_def Let_def b2_def b0_def parse bulk c_def [symmetric] flip: tsc_def) (simp add: c_def)
  moreover have "grows T (length slots) b2 (FinalizePackets ops ports port slots mds (map MakeCanonicalFromMetadata mds) bulk b2)"
    unfolding FinalizePackets_def Let_def
    by (rule fold_grows [OF finalize_packet_grows targets_grows [OF assms g2]])
  then have "grows T (length packets) b (FinalizePackets ops ports port slots mds (map MakeCanonicalFromMetadata mds) bulk b2)"
    using grows_trans [OF g2] ParseReceivedPackets_length [OF parse] by fastforce
  moreover have "grows T (length packets) b b0" unfolding b0_def by (rule grows_frame) simp_all
  ultimately show ?thesis by (cases "packets = []") auto
qed

text \<open>The end of an iteration writes nothing into the buffers.\<close>

lemma flush_port_faults: "b_faults (flush_port ops port b) = b_faults b"
  by (simp add: flush_port_def Let_def)

lemma finish_iteration_faults: "b_faults (FlushTransmitBuffers ops (CleanupExpiredFragments ops b)) = b_faults b"
proof -
  have "b_faults (fold (flush_port ops) ps c) = b_faults c" for ps c
    by (induction ps arbitrary: c) (simp_all add: flush_port_faults)
  then show ?thesis
    by (auto simp: FlushTransmitBuffers_def CleanupExpiredFragments_def Let_def split: option.split)
qed

lemma start_burst_staging:
  "\<not> overrun (start_burst w)" "q < unat (env_port_count (wc_environment w)) \<Longrightarrow> b_transmit (start_burst w) ! q = []"
  "wc_l3_forwarding (start_burst w) = wc_l3_forwarding w"
  by (simp_all add: overrun_def start_burst_def Burst.defs WorkerContext.defs)

text \<open>Each port stages for its partner only, so no buffer receives packets of two bursts.\<close>

lemma fold_ports_no_overrun:
  assumes "inj_on (GetTransmitPort ports) (set ps)" and "distinct ps" and "\<not> wc_l3_forwarding b"
    and "\<forall>p \<in> set ps. length (rx p) \<le> kMaxBurstCapacity"
    and "\<forall>p \<in> set ps. b_transmit b ! unat (GetTransmitPort ports p) = []"
  shows "overrun (fold (\<lambda>p. ProcessPortBurst ops ports p (rx p)) ps b) = overrun b"
  using assms
proof (induction ps arbitrary: b)
  case (Cons p ps)
  let ?b' = "ProcessPortBurst ops ports p (rx p) b" and ?tp = "\<lambda>p. unat (GetTransmitPort ports p)"
  have g: "grows {?tp p} (length (rx p)) b ?b'"
    using Cons.prems(3) by (intro ProcessPortBurst_grows) (simp add: targets_def)
  have "\<forall>r \<in> set ps. ?tp r \<noteq> ?tp p" using Cons.prems(1,2) by (auto simp: inj_on_def simp flip: word_unat_eq_iff)
  then have "\<forall>r \<in> set ps. b_transmit ?b' ! ?tp r = []" using g Cons.prems(5) by (auto simp: grows_def)
  moreover have "overrun ?b' = overrun b" using g Cons.prems(4,5) by (simp add: grows_def)
  moreover have "\<not> wc_l3_forwarding ?b'" using g Cons.prems(3) by (simp add: grows_def)
  ultimately show ?case using Cons.IH [of ?b'] Cons.prems by simp
qed simp

text \<open>
  C26. In L2 mode no staging buffer of a worker on the queue path overruns: however many packets
  up to 256 each port delivers and however they are classified, at most 256 of them are staged for one port,
  because the ports are paired off and each stages for its partner only.
\<close>

theorem l2_staging_never_overruns:
  assumes "\<not> wc_l3_forwarding w" and "distinct (env_active_ports (wc_environment w))"
    and "\<forall>p \<in> set (env_active_ports (wc_environment w)). p < env_port_count (wc_environment w)"
    and "\<forall>p \<in> set (env_active_ports (wc_environment w)). length (rx p) \<le> kMaxBurstCapacity"
  shows "TransmitBufferOverrun \<notin> set (b_faults (iterate_ports ops rx (start_burst w)))"
proof -
  let ?ports = "env_active_ports (wc_environment w)"
  have "inj_on (GetTransmitPort ?ports) (set ?ports)"
    by (rule inj_on_inverseI [of _ "GetTransmitPort ?ports"]) (rule GetTransmitPort_pairs(1) [OF assms(2)])
  moreover have "b_transmit (start_burst w) ! unat (GetTransmitPort ?ports p) = []" if "p \<in> set ?ports" for p
    using GetTransmitPort_pairs(2) [OF assms(2) that] assms(3) by (simp add: start_burst_staging word_less_nat_alt)
  ultimately have "\<not> overrun (fold (\<lambda>p. ProcessPortBurst ops ?ports p (rx p)) ?ports (start_burst w))"
    using assms by (simp add: fold_ports_no_overrun start_burst_staging(1,3))
  then show ?thesis by (simp add: iterate_ports_def Let_def finish_iteration_faults overrun_def)
qed

theorem l2_staging_never_overruns_witness:
  "TransmitBufferOverrun \<notin> set (b_faults (iterate_ports sample_dpdk sample_rx (start_burst sample_worker)))"
  by (rule l2_staging_never_overruns) (simp_all add: kMaxBurstCapacity_def)

section \<open>The flow-hash path\<close>

lemma ForwardPacket_grows: "grows UNIV 1 b (ForwardPacket ops ports packet port b)"
proof -
  obtain b1 p c where cp: "ClassifyPacket ops packet port b = (b1, p, c)" by (metis prod_cases3)
  have g: "grows {} 0 b b1"
    using cp
    by (auto simp: ClassifyPacket_def Let_def split: option.split_asm if_split_asm prod.split_asm dest!: staging.classify_parsed_R)
  have "targets UNIV ports port b" by (simp add: targets_def)
  from decide_and_apply_grows [OF this g] grows_weaken [OF g, of UNIV 1] show ?thesis
    by (auto simp: ForwardPacket_def cp redispatch_def DropPacket_def Let_def simp del: One_nat_def split: option.split)
qed

text \<open>
  On the flow-hash path no staging buffer overruns, in L2 and in L3 mode: all packets of an
  iteration come from one dequeue of at most 256 packets.
\<close>

theorem ring_staging_never_overruns:
  assumes "length packets \<le> kMaxBurstCapacity"
  shows "TransmitBufferOverrun \<notin> set (b_faults (iterate_ring ops packets (start_burst w)))"
proof -
  let ?w = "start_burst w" and ?ports = "env_active_ports (wc_environment w)"
  let ?c = "b_counters ?w"
  define b0 where "b0 = ?w\<lparr>wc_clock := wc_clock ?w + 1, wc_current_burst_tsc := dpdk_rdtsc ops (wc_clock ?w),
     b_counters := ?c\<lparr>c_received := c_received ?c + of_nat (length packets)\<rparr>\<rparr>"
  let ?b1 = "fold (\<lambda>p. ForwardPacket ops ?ports p (mb_port p)) packets b0"
  have "grows UNIV (length packets) b0 ?b1"
    by (rule fold_grows [where ports = ?ports and port = 0]) (simp_all add: ForwardPacket_grows targets_def del: One_nat_def)
  moreover have "\<not> overrun b0" "\<forall>q < length (b_transmit b0). b_transmit b0 ! q = []"
    using start_burst_staging [where w = w] by (simp_all add: b0_def overrun_def)
  ultimately have "\<not> overrun ?b1" using assms by (simp add: grows_def)
  then show ?thesis
    by (simp add: iterate_ring_def rte_rdtsc_def Let_def finish_iteration_faults b0_def overrun_def)
qed

theorem ring_staging_never_overruns_witness:
  "TransmitBufferOverrun \<notin> set (b_faults (iterate_ring sample_dpdk (sample_rx 0) (start_burst sample_worker)))"
  by (rule ring_staging_never_overruns) (simp add: kMaxBurstCapacity_def)

end
