(* ===== verification/Pipeline_Control.thy ===== *)
theory Pipeline_Control
  imports Pipeline
begin

text \<open>
  The life of a pipeline (\<^verbatim>\<open>class Pipeline\<close> in \<^verbatim>\<open>spi/spi_pipeline.hpp\<close>, \<^verbatim>\<open>spi/spi_pipeline.cpp\<close>):
  construction, launching and stopping the workers, an iteration of a worker on the shared tables, reloading rules, resizing the
  flow table, and the maintenance the main loop does. Tables are published through the managers
  of \<open>Table_Managers\<close>; what the workers reach through pointers is looked up when a worker takes its turn. A context is
  \<open>None\<close> as long as it was not prepared. How the barrier keeps workers and
  publication apart is the subject of \<open>Reload_Barrier\<close>; here a reload is told how its wait ended.
\<close>

section \<open>Data\<close>

definition kMinBurstCapacity :: u16 where "kMinBurstCapacity = 1"

record ('c, 'm, 'd, 'h, 'f, 'r) Pipeline =
  pl_environment :: Environment
  pl_rule_manager :: "('c, 'm) RuleTable TableManager"
  pl_dpi_rule_manager :: "'d DpiRuleTable TableManager"
  pl_next_addr :: addr
  pl_flow_table :: "'h FlowTable"
  pl_counters :: AtomicCounters
  pl_rule_match_counts :: "u64 list"
  pl_worker_contexts :: "('c, 'm, 'd, 'h, 'f, 'r) WorkerContext option list"
  pl_dispatch_rings :: "'r list"
  pl_l3_routes :: "L3RouteEntry list"
  pl_ethernet_destinations :: "EthernetDestinationEntry list"
  pl_packet_distribution :: string
  pl_dispatch_queue_size :: u32
  pl_burst_size :: u16
  pl_mac_updating :: bool
  pl_l3_forwarding :: bool
  pl_drop_unmatched :: bool
  pl_flow_ttl_sec :: u32
  pl_fragment_timeout_sec :: u32
  pl_tcp_reassembly_config :: TcpReassemblyConfig
  pl_max_concurrent_flows :: u32
  pl_flow_overflow_drop :: bool
  pl_worker_force_quit :: bool
  pl_workers_started :: bool

text \<open>What the pipeline asks of the runtime besides packet processing.\<close>

record ('f, 'r) control_ops =
  ctl_tsc_hz :: u64
  ctl_rdtsc :: u64
  ctl_worker_lcores :: "u32 list"
  ctl_frag_table_create :: "nat \<Rightarrow> u64 \<Rightarrow> 'f option"
  ctl_remote_launch :: "nat \<Rightarrow> u32 \<Rightarrow> int"
  ctl_ring_create :: "string \<Rightarrow> u32 \<Rightarrow> 'r option"

datatype PipelineError =
    NotEnoughLcores nat nat | FragTableCreateFailed nat | RemoteLaunchFailed nat u32 int
  | NoActiveRules | RingCreateFailed string | TooFewReceiveQueues u16 nat | TooFewTransmitQueues u16 nat

text \<open>The table a manager publishes.\<close>

definition active_table :: "'t TableManager \<Rightarrow> 't option" where
  "active_table m = Option.bind (tm_active m) (tm_heap m)"

text \<open>A new table at a new address, as \<^verbatim>\<open>std::make_unique\<close> gives.\<close>

definition allocate :: "addr \<Rightarrow> 't \<Rightarrow> 't TableManager \<Rightarrow> 't TableManager" where
  "allocate a t m = m\<lparr>tm_heap := (tm_heap m)(a \<mapsto> t)\<rparr>"

section \<open>Construction\<close>

text \<open>\<open>None\<close> is \<^verbatim>\<open>std::abort\<close>.\<close>

definition make_Pipeline ::
    "inet_ops \<Rightarrow> 'h rte_hash_ops \<Rightarrow> Environment \<Rightarrow> ('c, 'm) RuleTable \<Rightarrow> 'd DpiRuleTable option \<Rightarrow> DpdkConfig \<Rightarrow>
       ('c, 'm, 'd, 'h, 'f, 'r) Pipeline option" where
  "make_Pipeline inet hash environment initial_rules dpi_rules config =
     (let spi = cfg_spi config; l3 = cfg_l3_forward config; app = cfg_app config;
          dpi_manager = (case dpi_rules of None \<Rightarrow> empty_manager Map.empty
             | Some t \<Rightarrow> DpiRuleTableManager_Init (Some 0) (allocate 0 t (empty_manager Map.empty)));
          (rules, resolved) = (case active_table dpi_manager of None \<Rightarrow> (initial_rules, Inr ())
             | Some dpi_table \<Rightarrow> ResolveDpiLinks dpi_table initial_rules)
      in case resolved of Inl e \<Rightarrow> None
         | Inr _ \<Rightarrow> Some \<lparr>pl_environment = environment,
             pl_rule_manager = RuleTableManager_Init (Some 1) (allocate 1 (RuleTable_move rules) (empty_manager Map.empty)),
             pl_dpi_rule_manager = dpi_manager, pl_next_addr = 2,
             pl_flow_table = make_FlowTable hash (spi_max_concurrent_flows spi), pl_counters = no_counters,
             pl_rule_match_counts = replicate (length (rt_groups initial_rules)) 0,
             pl_worker_contexts = replicate (unat (worker_count spi)) None, pl_dispatch_rings = [],
             pl_l3_routes = BuildL3Routes inet l3, pl_ethernet_destinations = BuildEthernetDestinations l3,
             pl_packet_distribution = packet_distribution spi, pl_dispatch_queue_size = dispatch_queue_size spi,
             pl_burst_size = max kMinBurstCapacity (min (burst_size app) (of_nat kMaxBurstCapacity)),
             pl_mac_updating = mac_updating app, pl_l3_forwarding = l3_enabled l3, pl_drop_unmatched = drop_unmatched spi,
             pl_flow_ttl_sec = flow_ttl_sec spi, pl_fragment_timeout_sec = fragment_timeout_sec spi,
             pl_tcp_reassembly_config = tcp_reassembly spi, pl_max_concurrent_flows = spi_max_concurrent_flows spi,
             pl_flow_overflow_drop = (flow_overflow_action spi = ''drop''), pl_worker_force_quit = False,
             pl_workers_started = False\<rparr>)"

section \<open>Workers\<close>

text \<open>
  A fragment table, a stream reassembler and a hostname cache survive from an earlier use of the
  context. The rules are those the manager publishes; that there are some is not checked by the
  code, and \<open>LaunchWorker\<close> reports it here as an error of its own.
\<close>

definition PrepareWorkerContext ::
    "('f, 'r) control_ops \<Rightarrow> ('c, 'm, 'd, 'h, 'f, 'r) Pipeline \<Rightarrow> nat \<Rightarrow> ('c, 'm) RuleTable \<Rightarrow>
       ('c, 'm, 'd, 'h, 'f, 'r) WorkerContext option \<Rightarrow> ('c, 'm, 'd, 'h, 'f, 'r) WorkerContext" where
  "PrepareWorkerContext ctl p worker_id rules context =
     (let tsc_hz = ctl_tsc_hz ctl; config = pl_tcp_reassembly_config p;
          timeout_sec = min (ucast (pl_fragment_timeout_sec p)) ((- 1) div tsc_hz);
          fragment_timeout_cycles = timeout_sec * tsc_hz
      in \<lparr>wc_environment = pl_environment p, wc_rules = rules, wc_dpi_rules = active_table (pl_dpi_rule_manager p),
          wc_flow_table = pl_flow_table p,
          wc_ip_frag_tbl = (case Option.bind context wc_ip_frag_tbl of Some tbl \<Rightarrow> Some tbl
             | None \<Rightarrow> ctl_frag_table_create ctl worker_id fragment_timeout_cycles),
          wc_tcp_reassembler = (if trc_enabled config then Some (make_TcpStreamReassembler config tsc_hz)
             else Option.bind context wc_tcp_reassembler),
          wc_l3_routes = Some (pl_l3_routes p), wc_ethernet_destinations = Some (pl_ethernet_destinations p),
          wc_stats = no_counters, wc_pending_burst = no_counters, wc_bursts_since_flush = 0,
          wc_rule_match_counts = replicate (length (rt_groups rules)) 0, wc_flow_hash_rings = pl_dispatch_rings p,
          wc_burst_size = pl_burst_size p, wc_worker_id = of_nat worker_id, wc_mac_updating = pl_mac_updating p,
          wc_l3_forwarding = pl_l3_forwarding p, wc_drop_unmatched = pl_drop_unmatched p,
          wc_flow_overflow_drop = pl_flow_overflow_drop p,
          wc_dpi_hostname_cache = (case context of None \<Rightarrow> make_HostnameCache | Some c \<Rightarrow> wc_dpi_hostname_cache c),
          wc_current_burst_tsc = (case context of None \<Rightarrow> 0 | Some c \<Rightarrow> wc_current_burst_tsc c),
          wc_fragment_timeout_cycles = fragment_timeout_cycles,
          wc_fragment_cleanup_interval_cycles = min tsc_hz fragment_timeout_cycles,
          wc_last_fragment_cleanup_tsc = ctl_rdtsc ctl, wc_clock = 0\<rparr>)"

definition LaunchWorker ::
    "('f, 'r) control_ops \<Rightarrow> nat \<Rightarrow> u32 \<Rightarrow> ('c, 'm, 'd, 'h, 'f, 'r) Pipeline \<Rightarrow>
       ('c, 'm, 'd, 'h, 'f, 'r) Pipeline \<times> (PipelineError + unit)" where
  "LaunchWorker ctl worker_id lcore_id p =
     (case active_table (pl_rule_manager p) of None \<Rightarrow> (p, Inl NoActiveRules)
      | Some rules \<Rightarrow>
          let context = PrepareWorkerContext ctl p worker_id rules (pl_worker_contexts p ! worker_id);
              p = p\<lparr>pl_worker_contexts := (pl_worker_contexts p)[worker_id := Some context]\<rparr>
          in if wc_ip_frag_tbl context = None then (p, Inl (FragTableCreateFailed worker_id))
             else let ret = ctl_remote_launch ctl worker_id lcore_id in
               if ret = 0 then (p, Inr ())
               else (p\<lparr>pl_worker_force_quit := True\<rparr>, Inl (RemoteLaunchFailed worker_id lcore_id ret)))"

fun launch_all ::
    "('f, 'r) control_ops \<Rightarrow> (nat \<times> u32) list \<Rightarrow> ('c, 'm, 'd, 'h, 'f, 'r) Pipeline \<Rightarrow>
       ('c, 'm, 'd, 'h, 'f, 'r) Pipeline \<times> (PipelineError + unit)" where
  "launch_all ctl [] p = (p, Inr ())"
| "launch_all ctl ((worker_id, lcore_id) # ws) p =
     (case LaunchWorker ctl worker_id lcore_id p of
        (p, Inl e) \<Rightarrow> (p, Inl e)
      | (p, Inr _) \<Rightarrow> launch_all ctl ws p)"

definition StartWorkers ::
    "('f, 'r) control_ops \<Rightarrow> ('c, 'm, 'd, 'h, 'f, 'r) Pipeline \<Rightarrow>
       ('c, 'm, 'd, 'h, 'f, 'r) Pipeline \<times> (PipelineError + unit)" where
  "StartWorkers ctl p =
     (if pl_workers_started p then (p, Inr ())
      else let workers = length (pl_worker_contexts p); worker_lcores = GetWorkerLcores (ctl_worker_lcores ctl) workers in
        if length worker_lcores \<noteq> workers then (p, Inl (NotEnoughLcores workers (length worker_lcores)))
        else (case launch_all ctl (List.enumerate 0 worker_lcores) (p\<lparr>pl_worker_force_quit := False\<rparr>) of
                (p, Inl e) \<Rightarrow> (p, Inl e)
              | (p, Inr _) \<Rightarrow> (p\<lparr>pl_workers_started := True\<rparr>, Inr ())))"

definition StopWorkers :: "('c, 'm, 'd, 'h, 'f, 'r) Pipeline \<Rightarrow> ('c, 'm, 'd, 'h, 'f, 'r) Pipeline" where
  "StopWorkers p =
     (if \<not> pl_workers_started p then p
      else p\<lparr>pl_worker_force_quit := True,
             pl_worker_contexts := map (map_option (\<lambda>c. c\<lparr>wc_ip_frag_tbl := None\<rparr>)) (pl_worker_contexts p),
             pl_workers_started := False\<rparr>)"

section \<open>Rings\<close>

definition DestroyDispatchRings :: "('c, 'm, 'd, 'h, 'f, 'r) Pipeline \<Rightarrow> ('c, 'm, 'd, 'h, 'f, 'r) Pipeline" where
  "DestroyDispatchRings p = p\<lparr>pl_dispatch_rings := []\<rparr>"

fun create_rings ::
    "('f, 'r) control_ops \<Rightarrow> nat list \<Rightarrow> ('c, 'm, 'd, 'h, 'f, 'r) Pipeline \<Rightarrow>
       ('c, 'm, 'd, 'h, 'f, 'r) Pipeline \<times> (PipelineError + unit)" where
  "create_rings ctl [] p = (p, Inr ())"
| "create_rings ctl (worker_id # ws) p =
     (let ring_name = ''spi_dispatch_'' @ decimal worker_id in
      case ctl_ring_create ctl ring_name (pl_dispatch_queue_size p) of
        None \<Rightarrow> (DestroyDispatchRings p, Inl (RingCreateFailed ring_name))
      | Some ring \<Rightarrow> create_rings ctl ws (p\<lparr>pl_dispatch_rings := pl_dispatch_rings p @ [ring]\<rparr>))"

definition CreateDispatchRings ::
    "('f, 'r) control_ops \<Rightarrow> ('c, 'm, 'd, 'h, 'f, 'r) Pipeline \<Rightarrow>
       ('c, 'm, 'd, 'h, 'f, 'r) Pipeline \<times> (PipelineError + unit)" where
  "CreateDispatchRings ctl p =
     (if pl_dispatch_rings p \<noteq> [] then (p, Inr ()) else create_rings ctl [0..<length (pl_worker_contexts p)] p)"

section \<open>Starting\<close>

text \<open>What \<^verbatim>\<open>RunMultiWorker\<close> and \<^verbatim>\<open>RunFlowHashDispatch\<close> do before their loops.\<close>

definition start_RunMultiWorker ::
    "('f, 'r) control_ops \<Rightarrow> ('c, 'm, 'd, 'h, 'f, 'r) Pipeline \<Rightarrow>
       ('c, 'm, 'd, 'h, 'f, 'r) Pipeline \<times> (PipelineError + unit)" where
  "start_RunMultiWorker ctl p =
     (let environment = pl_environment p; workers = length (pl_worker_contexts p) in
      if unat (GetReceiveQueueCount environment) < workers
      then (p, Inl (TooFewReceiveQueues (GetReceiveQueueCount environment) workers))
      else if unat (GetTransmitQueueCount environment) < workers
      then (p, Inl (TooFewTransmitQueues (GetTransmitQueueCount environment) workers))
      else StartWorkers ctl p)"

definition start_RunFlowHashDispatch ::
    "('f, 'r) control_ops \<Rightarrow> ('c, 'm, 'd, 'h, 'f, 'r) Pipeline \<Rightarrow>
       ('c, 'm, 'd, 'h, 'f, 'r) Pipeline \<times> (PipelineError + unit)" where
  "start_RunFlowHashDispatch ctl p =
     (let environment = pl_environment p; workers = length (pl_worker_contexts p) in
      if unat (GetTransmitQueueCount environment) < workers
      then (p, Inl (TooFewTransmitQueues (GetTransmitQueueCount environment) workers))
      else case CreateDispatchRings ctl p of
             (p, Inl e) \<Rightarrow> (p, Inl e)
           | (p, Inr _) \<Rightarrow> StartWorkers ctl p)"

definition start_RunUntilStopped ::
    "('f, 'r) control_ops \<Rightarrow> ('c, 'm, 'd, 'h, 'f, 'r) Pipeline \<Rightarrow>
       ('c, 'm, 'd, 'h, 'f, 'r) Pipeline \<times> (PipelineError + PacketDistribution)" where
  "start_RunUntilStopped ctl p =
     (let distribution = ResolvePacketDistribution (pl_environment p) (pl_packet_distribution p) (length (pl_worker_contexts p))
      in case (if distribution = kFlowHash then start_RunFlowHashDispatch ctl p else start_RunMultiWorker ctl p) of
           (p, Inl e) \<Rightarrow> (p, Inl e)
         | (p, Inr _) \<Rightarrow> (p, Inr distribution))"

section \<open>Iterations on the shared tables\<close>

text \<open>A worker's turn: one iteration, with the tables the pointers lead to at that time.\<close>

definition attach ::
    "('c, 'm, 'd, 'h, 'f, 'r) Pipeline \<Rightarrow> ('c, 'm, 'd, 'h, 'f, 'r) WorkerContext \<Rightarrow> ('c, 'm, 'd, 'h, 'f, 'r) WorkerContext" where
  "attach p c = c\<lparr>wc_rules := (case active_table (pl_rule_manager p) of None \<Rightarrow> wc_rules c | Some rules \<Rightarrow> rules),
     wc_dpi_rules := active_table (pl_dpi_rule_manager p), wc_flow_table := pl_flow_table p,
     wc_flow_hash_rings := pl_dispatch_rings p\<rparr>"

definition detach ::
    "nat \<Rightarrow> ('c, 'm, 'd, 'h, 'f, 'r) WorkerContext \<times> AtomicCounters \<Rightarrow> ('c, 'm, 'd, 'h, 'f, 'r) Pipeline \<Rightarrow>
       ('c, 'm, 'd, 'h, 'f, 'r) Pipeline" where
  "detach worker_id = (\<lambda>(c, counters) p. p\<lparr>pl_worker_contexts := (pl_worker_contexts p)[worker_id := Some c],
     pl_flow_table := wc_flow_table c, pl_dispatch_rings := wc_flow_hash_rings c, pl_counters := counters\<rparr>)"

definition WorkerLoop_turn ::
    "('c, 'm, 'd, 'f, 'r) dpdk_ops \<Rightarrow> (u16 \<Rightarrow> Mbuf list) \<Rightarrow> nat \<Rightarrow> ('c, 'm, 'd, 'h, 'f, 'r) Pipeline \<Rightarrow>
       ('c, 'm, 'd, 'h, 'f, 'r) Pipeline" where
  "WorkerLoop_turn ops rx worker_id p =
     (case pl_worker_contexts p ! worker_id of None \<Rightarrow> p
      | Some c \<Rightarrow> detach worker_id (ProcessWorkerIteration ops rx (attach p c, pl_counters p)) p)"

definition DispatchWorkerLoop_turn ::
    "('c, 'm, 'd, 'f, 'r) dpdk_ops \<Rightarrow> ('r \<Rightarrow> nat \<Rightarrow> Mbuf list \<times> 'r) \<Rightarrow> nat \<Rightarrow> ('c, 'm, 'd, 'h, 'f, 'r) Pipeline \<Rightarrow>
       ('c, 'm, 'd, 'h, 'f, 'r) Pipeline" where
  "DispatchWorkerLoop_turn ops dequeue worker_id p =
     (case pl_worker_contexts p ! worker_id of None \<Rightarrow> p
      | Some c \<Rightarrow>
          let (packets, ring) = dequeue (pl_dispatch_rings p ! worker_id) (unat (wc_burst_size c));
              p = p\<lparr>pl_dispatch_rings := (pl_dispatch_rings p)[worker_id := ring]\<rparr>
          in detach worker_id (ProcessDispatchedWorkerIteration ops packets (attach p c, pl_counters p)) p)"

text \<open>The end of a worker's loop: what is still pending goes to the shared counters.\<close>

definition drain ::
    "(AtomicCounters \<Rightarrow> BurstCounters \<Rightarrow> AtomicCounters) \<Rightarrow> nat \<Rightarrow> ('c, 'm, 'd, 'h, 'f, 'r) Pipeline \<Rightarrow>
       ('c, 'm, 'd, 'h, 'f, 'r) Pipeline" where
  "drain flush worker_id p =
     (case pl_worker_contexts p ! worker_id of None \<Rightarrow> p
      | Some c \<Rightarrow> p\<lparr>pl_counters := flush (pl_counters p) (wc_pending_burst c),
                   pl_worker_contexts := (pl_worker_contexts p)[worker_id := Some (c\<lparr>wc_pending_burst := no_counters\<rparr>)]\<rparr>)"

definition CollectWorkerRuleCounts :: "('c, 'm, 'd, 'h, 'f, 'r) Pipeline \<Rightarrow> ('c, 'm, 'd, 'h, 'f, 'r) Pipeline" where
  "CollectWorkerRuleCounts p = p\<lparr>pl_rule_match_counts :=
     map (\<lambda>rule_index. sum_list (map (\<lambda>context. case context of None \<Rightarrow> 0 | Some c \<Rightarrow> wc_rule_match_counts c ! rule_index)
            (pl_worker_contexts p))) [0..<length (pl_rule_match_counts p)]\<rparr>"

section \<open>Maintenance\<close>

text \<open>
  Purging in the main loop: whenever the statistics were just printed, or under pressure. With the statistics
  switched off the timer stays at zero.
\<close>

definition purge_flows ::
    "('f, 'r) control_ops \<Rightarrow> (nat \<Rightarrow> bool) \<Rightarrow> u64 \<times> u64 \<Rightarrow> ('c, 'm, 'd, 'h, 'f, 'r) Pipeline \<Rightarrow> ('c, 'm, 'd, 'h, 'f, 'r) Pipeline" where
  "purge_flows ctl force_quit = (\<lambda>(previous_tsc, timer_tsc) p.
     let ttl_cycles = ucast (pl_flow_ttl_sec p) * ctl_tsc_hz ctl;
         purged = Flow_PurgeExpired (ctl_rdtsc ctl) ttl_cycles force_quit (pl_flow_table p);
         c = pl_counters p
     in if pl_flow_ttl_sec p = 0 then p
        else if timer_tsc = 0 \<and> previous_tsc \<noteq> 0 then p\<lparr>pl_flow_table := purged\<rparr>
        else if Flow_ShouldEvictOnPressure (pl_flow_table p)
        then p\<lparr>pl_flow_table := Flow_ResetOverflowCount purged,
               pl_counters := c\<lparr>c_pressure_evictions := c_pressure_evictions c + 1\<rparr>\<rparr>
        else p)"

section \<open>Reloading\<close>

definition MaybeReloadFlowTable ::
    "'h rte_hash_ops \<Rightarrow> (nat \<Rightarrow> u64) \<Rightarrow> DpdkConfig \<Rightarrow> ('c, 'm, 'd, 'h, 'f, 'r) Pipeline \<Rightarrow> ('c, 'm, 'd, 'h, 'f, 'r) Pipeline" where
  "MaybeReloadFlowTable hash tsc config p =
     (let new_max = spi_max_concurrent_flows (cfg_spi config) in
      if new_max = pl_max_concurrent_flows p then p
      else let new_table = make_FlowTable hash new_max in
        if \<not> Flow_IsValid new_table then p
        else let new_table = fold (\<lambda>(i, key, count, action) t. fst (Flow_InsertRaw key count action (tsc i) t))
                   (List.enumerate 0 (Flow_ForEachOccupied (pl_flow_table p))) new_table;
                 c = pl_counters p
             in p\<lparr>pl_flow_table := new_table,
                  pl_worker_contexts := map (map_option (\<lambda>c. c\<lparr>wc_flow_table := new_table\<rparr>)) (pl_worker_contexts p),
                  pl_max_concurrent_flows := new_max,
                  pl_counters := c\<lparr>c_flow_table_resizes := c_flow_table_resizes c + 1\<rparr>\<rparr>)"

record ('c, 'm, 'd) compile_ops =
  co_inet :: inet_ops
  co_hardware_concurrency :: nat
  co_reader :: config_reader
  co_acl :: "'c acl_ops"
  co_member :: "'m member_ops"
  co_crc :: "FlowKey \<Rightarrow> u32"
  co_cpu_count :: nat
  co_affinity :: bool
  co_hs :: "'d hs_ops"

datatype ReloadOutcome =
    NotRequested | LoadFailed ConfigError | CompileFailed RuleError | DpiCompileFailed DpiError | LinksFailed RuleError
  | QuitRequested | ReloadCancelled | NoActiveTable | Reloaded

text \<open>The first half of \<^verbatim>\<open>MaybeReload\<close>: new tables, while the workers go on.\<close>

definition compile_reload ::
    "('c, 'm, 'd) compile_ops \<Rightarrow> string \<Rightarrow>
       ReloadOutcome + (DpdkConfig \<times> ('c, 'm) RuleTable \<times> 'd DpiRuleTable option)" where
  "compile_reload co config_path =
     (case LoadConfig (co_inet co) (co_hardware_concurrency co) (co_reader co) config_path of
        Inl e \<Rightarrow> Inl (LoadFailed e)
      | Inr config \<Rightarrow>
          (case CompileRuleTable (co_inet co) (co_acl co) (co_member co) (co_crc co) (co_cpu_count co) (co_affinity co)
                  (cfg_spi config) of
             Inl e \<Rightarrow> Inl (CompileFailed e)
           | Inr new_rules \<Rightarrow>
               let config = config\<lparr>cfg_spi := (cfg_spi config)\<lparr>filter_groups := []\<rparr>\<rparr> in
               if \<not> dpi_enabled (cfg_dpi config) then Inr (config, new_rules, None)
               else (case CompileDpiRuleTable (co_hs co) (cfg_dpi config) of
                       Inl e \<Rightarrow> Inl (DpiCompileFailed e)
                     | Inr new_dpi_rules \<Rightarrow>
                         (case ResolveDpiLinks new_dpi_rules new_rules of
                            (rules, Inl e) \<Rightarrow> Inl (LinksFailed e)
                          | (rules, Inr _) \<Rightarrow> Inr (config, rules, Some new_dpi_rules)))))"

definition publish_reload ::
    "'h rte_hash_ops \<Rightarrow> (nat \<Rightarrow> u64) \<Rightarrow> DpdkConfig \<times> ('c, 'm) RuleTable \<times> 'd DpiRuleTable option \<Rightarrow>
       ('c, 'm, 'd, 'h, 'f, 'r) Pipeline \<Rightarrow> ('c, 'm, 'd, 'h, 'f, 'r) Pipeline" where
  "publish_reload hash tsc = (\<lambda>(config, new_rules, new_dpi_rules) p.
     let a = pl_next_addr p;
         p = p\<lparr>pl_rule_manager := RuleTableManager_Swap (Some a) (allocate a (RuleTable_move new_rules) (pl_rule_manager p)),
               pl_dpi_rule_manager := (case new_dpi_rules of None \<Rightarrow> DpiRuleTableManager_Swap None (pl_dpi_rule_manager p)
                  | Some t \<Rightarrow> DpiRuleTableManager_Swap (Some (a + 1)) (allocate (a + 1) t (pl_dpi_rule_manager p))),
               pl_next_addr := a + 2\<rparr>
     in MaybeReloadFlowTable hash tsc config p)"

text \<open>
  \<open>quit\<close> holds the three readings of the quit flag, \<open>paused\<close> whether all workers had counted
  themselves in when the wait was over (or there was no wait).
\<close>

definition MaybeReload ::
    "('c, 'm, 'd) compile_ops \<Rightarrow> 'h rte_hash_ops \<Rightarrow> (nat \<Rightarrow> u64) \<Rightarrow> string \<Rightarrow> bool \<Rightarrow> (nat \<Rightarrow> bool) \<Rightarrow> bool \<Rightarrow>
       ('c, 'm, 'd, 'h, 'f, 'r) Pipeline \<Rightarrow> ('c, 'm, 'd, 'h, 'f, 'r) Pipeline \<times> ReloadOutcome" where
  "MaybeReload co hash tsc config_path requested quit paused p =
     (if \<not> requested \<or> quit 0 then (p, NotRequested)
      else case compile_reload co config_path of Inl outcome \<Rightarrow> (p, outcome)
        | Inr new_tables \<Rightarrow>
            if quit 1 then (p, QuitRequested)
            else if quit 2 \<or> \<not> paused then (p, ReloadCancelled)
            else if RuleTableManager_Load (pl_rule_manager p) = None then (p, NoActiveTable)
            else (publish_reload hash tsc new_tables p, Reloaded))"

section \<open>The main loop\<close>

text \<open>One round of the loop in \<^verbatim>\<open>RunMultiWorker\<close>; the timers are the two time stamps of the statistics.\<close>

definition main_iteration ::
    "('f, 'r) control_ops \<Rightarrow> ('c, 'm, 'd) compile_ops \<Rightarrow> 'h rte_hash_ops \<Rightarrow> (nat \<Rightarrow> u64) \<Rightarrow> string \<Rightarrow> u32 \<Rightarrow> bool \<Rightarrow>
       (nat \<Rightarrow> bool) \<Rightarrow> bool \<Rightarrow> (nat \<Rightarrow> bool) \<Rightarrow> (u64 \<times> u64) \<times> ('c, 'm, 'd, 'h, 'f, 'r) Pipeline \<Rightarrow>
       (u64 \<times> u64) \<times> ('c, 'm, 'd, 'h, 'f, 'r) Pipeline" where
  "main_iteration ctl co hash tsc config_path period_sec requested quit paused force_quit = (\<lambda>(timers, p).
     let timers = MaybePrintStats period_sec (ctl_tsc_hz ctl * ucast period_sec) (ctl_rdtsc ctl) timers;
         p = fst (MaybeReload co hash tsc config_path requested quit paused p)
     in (timers, purge_flows ctl force_quit timers p))"

text \<open>One round of the loop in \<^verbatim>\<open>RunFlowHashDispatch\<close>: the main core also dispatches.\<close>

definition dispatch_main_iteration ::
    "('c, 'm, 'd, 'f, 'r) dpdk_ops \<Rightarrow> (u16 \<Rightarrow> nat \<Rightarrow> Mbuf list) \<Rightarrow> ('f, 'r) control_ops \<Rightarrow> ('c, 'm, 'd) compile_ops \<Rightarrow>
       'h rte_hash_ops \<Rightarrow> (nat \<Rightarrow> u64) \<Rightarrow> string \<Rightarrow> u32 \<Rightarrow> bool \<Rightarrow> (nat \<Rightarrow> bool) \<Rightarrow> bool \<Rightarrow> (nat \<Rightarrow> bool) \<Rightarrow>
       (u64 \<times> u64) \<times> ('c, 'm, 'd, 'h, 'f, 'r) Pipeline \<Rightarrow> (u64 \<times> u64) \<times> ('c, 'm, 'd, 'h, 'f, 'r) Pipeline" where
  "dispatch_main_iteration ops rx ctl co hash tsc config_path period_sec requested quit paused force_quit = (\<lambda>(timers, p).
     case ProcessDispatchIteration ops (pl_environment p) rx (pl_dispatch_rings p) (pl_counters p) of
       (rings, counters) \<Rightarrow>
         main_iteration ctl co hash tsc config_path period_sec requested quit paused force_quit
           (timers, p\<lparr>pl_dispatch_rings := rings, pl_counters := counters\<rparr>))"

text \<open>After the loop: the workers stop, and the counters are read.\<close>

definition finish_run :: "('c, 'm, 'd, 'h, 'f, 'r) Pipeline \<Rightarrow> ('c, 'm, 'd, 'h, 'f, 'r) Pipeline \<times> PipelineStats" where
  "finish_run p = (let p = CollectWorkerRuleCounts (StopWorkers p) in (p, CollectStats (pl_counters p)))"

definition destroy_Pipeline :: "('c, 'm, 'd, 'h, 'f, 'r) Pipeline \<Rightarrow> ('c, 'm, 'd, 'h, 'f, 'r) Pipeline" where
  "destroy_Pipeline p = DestroyDispatchRings (StopWorkers p)"

section \<open>The application\<close>

datatype StartError =
    ConfigFailed ConfigError | InitFailed DpdkError | SignalHandlersFailed | RulesFailed RuleError | DpiFailed DpiError | Aborted

definition CompileDpiRules :: "'d hs_ops \<Rightarrow> DpiConfig \<Rightarrow> DpiError + 'd DpiRuleTable option" where
  "CompileDpiRules hs dpi_config =
     (if \<not> dpi_enabled dpi_config then Inr None
      else case CompileDpiRuleTable hs dpi_config of Inl e \<Rightarrow> Inl e | Inr t \<Rightarrow> Inr (Some t))"

text \<open>\<^verbatim>\<open>main\<close>, up to the point where the pipeline runs.\<close>

definition start_application ::
    "('c, 'm, 'd) compile_ops \<Rightarrow> 'h rte_hash_ops \<Rightarrow> eth_ops \<Rightarrow> bool \<Rightarrow> string \<Rightarrow>
       StartError + ('c, 'm, 'd, 'h, 'f, 'r) Pipeline" where
  "start_application co hash eth handlers_installed config_path =
     (case LoadConfig (co_inet co) (co_hardware_concurrency co) (co_reader co) config_path of
        Inl e \<Rightarrow> Inl (ConfigFailed e)
      | Inr config \<Rightarrow>
          (case init eth (make_Environment config) of
             (env, Inl e) \<Rightarrow> Inl (InitFailed e)
           | (env, Inr _) \<Rightarrow>
               if \<not> handlers_installed then Inl SignalHandlersFailed
               else (case CompileRuleTable (co_inet co) (co_acl co) (co_member co) (co_crc co) (co_cpu_count co) (co_affinity co)
                            (cfg_spi config) of
                       Inl e \<Rightarrow> Inl (RulesFailed e)
                     | Inr rules \<Rightarrow>
                         (case CompileDpiRules (co_hs co) (cfg_dpi config) of
                            Inl e \<Rightarrow> Inl (DpiFailed e)
                          | Inr dpi_rules \<Rightarrow>
                              let config = config\<lparr>cfg_spi := (cfg_spi config)\<lparr>filter_groups := []\<rparr>\<rparr> in
                              (case make_Pipeline (co_inet co) hash env rules dpi_rules config of
                                 None \<Rightarrow> Inl Aborted | Some p \<Rightarrow> Inr p)))))"

end
