(* ===== verification/Pipeline_Decisions.thy ===== *)
theory Pipeline_Decisions
  imports Pipeline_Accounting
begin

text \<open>
  The queue path and the flow-hash path classify alike. The queue path looks rules up for the
  whole burst in phases; what a packet gets there is what the lookup of the other path gives it,
  and then both decide alike.
\<close>

section \<open>The phases of a burst\<close>

lemma fold_update_nth:
  assumes "j < length ms"
  shows "fold (\<lambda>(i, r) ms. ms[i := r]) (zip is (map h is)) ms ! j = (if j \<in> set is then h j else ms ! j)"
  using assms
proof (induction "is" arbitrary: ms)
  case (Cons i "is")
  then show ?case by (cases "i = j") (auto simp: nth_list_update)
qed simp

lemma fold_update_if_nth:
  assumes "j < length ms"
  shows "fold (\<lambda>i ms. if P i then ms[i := h i] else ms) is ms ! j = (if j \<in> set is \<and> P j then h j else ms ! j)"
    and "length (fold (\<lambda>i ms. if P i then ms[i := h i] else ms) is ms) = length ms"
  using assms
proof (induction "is" arbitrary: ms)
  case (Cons i "is")
  { case 1 then show ?case using Cons by (cases "i = j") (auto simp: nth_list_update) }
  { case 2 then show ?case using Cons by simp }
qed simp_all

text \<open>Parsing numbers the parsed packets in order.\<close>

lemma ParseReceivedPackets_indices:
  assumes "ParseReceivedPackets ops tsc packets n tbl c = (slots, mds, tbl', c')" and "n + length packets < 65534"
  shows "filter (\<lambda>i. i \<noteq> kPacketUnmapped \<and> i \<noteq> kPacketWaitingForFragments) (map snd slots) = map of_nat [n..<n + length mds] \<and>
    length mds \<le> length packets"
  using assms
proof (induction packets arbitrary: n tbl c slots mds)
  case (Cons packet packets)
  define r where "r = ParsePacketOwned ops tbl tsc (Some packet)"
  note marks = of_nat_below_marks [of n]
  show ?case
  proof (cases "po_metadata r")
    case (Some md)
    with Cons.prems(1) obtain slots1 mds1 where
      rest: "ParseReceivedPackets ops tsc packets (n + 1) (po_frag_tbl r) (c\<lparr>c_parsed := c_parsed c + 1\<rparr>) = (slots1, mds1, tbl', c')"
      and out: "slots = (po_packet r, of_nat n) # slots1" "mds = md # mds1"
      by (auto simp: Let_def r_def [symmetric] split: prod.splits)
    from Cons.IH [OF rest] Cons.prems(2) out marks show ?thesis by (simp add: upt_conv_Cons del: upt_Suc)
  next
    case None
    with Cons.prems(1) obtain slots1 c1 s i where
      rest: "ParseReceivedPackets ops tsc packets n (po_frag_tbl r) c1 = (slots1, mds, tbl', c')"
      and out: "slots = (s, i) # slots1" "i = kPacketUnmapped \<or> i = kPacketWaitingForFragments"
      by (auto simp: Let_def r_def [symmetric] split: prod.splits if_splits)
    from Cons.IH [OF rest] Cons.prems(2) out show ?thesis by auto
  qed
qed simp

lemma spi_phases_nth:
  assumes "acl_contract (dpdk_acl ops)" and "rt_member_ctx rules = None"
    and parsed: "filter (\<lambda>i. i \<noteq> kPacketUnmapped \<and> i \<noteq> kPacketWaitingForFragments) indices = map of_nat [0..<n]"
    and n: "n \<le> 64" and i: "i < n" "\<not> br_valid (bulk ! i)"
  shows "spi_phases ops rules mds keys bulk indices ! i = spi_lookup ops rules (keys ! i) (mds ! i)"
proof -
  define misses where "misses = filter (\<lambda>i. \<not> br_valid (bulk ! i)) [0..<n]"
  let ?tss = "\<lambda>i. ProbeTss (dpdk_crc ops) rules (keys ! i)"
  define rest where "rest = filter (\<lambda>i. ?tss i = kNoTssHit) misses"
  let ?first = "fold (\<lambda>i ms. if ?tss i \<noteq> kNoTssHit then ms[i := ResultForCategory rules (?tss i)] else ms) misses
      (replicate kMaxBurstCapacity no_classification)"
  have indices: "map unat (map (of_nat :: nat \<Rightarrow> u16) [0..<n]) = [0..<n]"
    using n by (auto intro!: nth_equalityI simp: unat_of_nat take_bit_nat_eq_self)
  have len: "length rest \<le> 64"
    using n length_filter_le [of "\<lambda>i. ?tss i = kNoTssHit" misses] length_filter_le [of "\<lambda>i. \<not> br_valid (bulk ! i)" "[0..<n]"]
    by (simp add: rest_def misses_def)
  have acl: "RuleTable_MatchBulk (dpdk_acl ops) rules (map (nth mds) rest) (replicate (length rest) no_classification) =
      map (\<lambda>i. RuleTable_Match (dpdk_acl ops) rules (mds ! i)) rest"
    using len by (subst MatchBulk_each [OF assms(1)]) (simp_all add: comp_def)
  have none: "\<not> cr_matched no_classification" by (simp add: no_classification_def)
  have same: "map fst (filter (\<lambda>(i, r). \<not> cr_matched r) (zip xs (replicate (length xs) no_classification))) = xs"
      "map fst (filter (\<lambda>(i, skip). \<not> skip) (zip xs (replicate (length xs) False))) = xs"
      "fold (\<lambda>(i, r) ms. if cr_matched r then ms[i := r] else ms) (zip xs (replicate (length xs) no_classification)) ms = ms"
    for xs :: "nat list" and ms
    by (induction xs) (simp_all add: none)
  have "spi_phases ops rules mds keys bulk indices =
      fold (\<lambda>(i, r) ms. ms[i := r]) (zip rest (map (\<lambda>i. RuleTable_Match (dpdk_acl ops) rules (mds ! i)) rest)) ?first"
    unfolding spi_phases_def Let_def parsed indices FibLookupBulk_def MemberFilterBulk_def assms(2) option.case
      misses_def [symmetric] rest_def [symmetric] same acl ..
  moreover have "i < length ?first" using i n by (simp add: fold_update_if_nth(2) [where j = 0] kMaxBurstCapacity_def)
  ultimately show ?thesis
    using i n by (simp add: fold_update_nth fold_update_if_nth(1) spi_lookup_def Let_def rest_def misses_def kMaxBurstCapacity_def)
qed

section \<open>The decision\<close>

text \<open>Two outcomes that differ at most in the counters that say why DPI was skipped.\<close>

definition same_decision ::
    "('c, 'm, 'd, 'h, 'f, 'r) Burst \<times> PacketClassification \<Rightarrow> ('c, 'm, 'd, 'h, 'f, 'r) Burst \<times> PacketClassification \<Rightarrow> bool" where
  "same_decision x y \<longleftrightarrow> snd x = snd y \<and> (fst x)\<lparr>b_counters := no_counters\<rparr> = (fst y)\<lparr>b_counters := no_counters\<rparr> \<and>
     c_matched (b_counters (fst x)) = c_matched (b_counters (fst y)) \<and>
     c_unknown (b_counters (fst x)) = c_unknown (b_counters (fst y)) \<and>
     c_flow_table_full (b_counters (fst x)) = c_flow_table_full (b_counters (fst y))"

lemma same_decision_refl [simp]: "same_decision x x"
  by (simp add: same_decision_def)

lemma insert_flow_frame:
  assumes "insert_flow ops key action b = (b', r)"
  shows "b_counters b' = b_counters b" "wc_flow_overflow_drop b' = wc_flow_overflow_drop b"
    "insert_flow ops key action (bump f b) = (bump f b', r)"
  using assms by (auto simp: insert_flow_def rte_rdtsc_def Let_def bump_def split: prod.splits)

lemma finalize_miss_unlinked:
  assumes "\<not> (cr_matched spi \<and> cr_bound_dpi_filter_index spi \<noteq> kNoDpiLink)" and "spi = spi_lookup ops (wc_rules b) key metadata"
  shows "finalize_miss ops packet metadata key spi b = classify_miss ops packet metadata key b"
  using assms unfolding finalize_miss_MakeMatched classify_miss_def Let_def
  by (auto simp: TryDpiClassify_def undecided_def split: option.split)

lemma finalize_miss_linked:
  assumes "cr_matched spi" and "cr_bound_dpi_filter_index spi \<noteq> kNoDpiLink" and "wc_flow_overflow_drop b"
    and "spi = spi_lookup ops (wc_rules b) key metadata"
  shows "same_decision (finalize_miss ops packet metadata key spi b) (classify_miss ops packet metadata key b)"
proof -
  obtain b1 r where ins: "insert_flow ops key (cr_action spi) b = (b1, r)" by fastforce
  note frame = insert_flow_frame [OF ins]
  have "TryDpiClassify ops packet metadata spi key b \<in>
     {(b, undecided metadata False), (bump c_dpi_skipped_by_spi_update b, undecided metadata False),
      cache_decision ops c_dpi_skipped_by_link_update metadata (cr_action spi) key b}"
    using assms by (auto simp: TryDpiClassify_def Let_def split: option.split)
  then show ?thesis
    using assms(1-3) frame
    by (cases r) (auto simp: finalize_miss_MakeMatched MakeMatched_def classify_miss_def assms(4) [symmetric] Let_def ins undecided_def
        cache_decision_def decided_def same_decision_def bump_def)
qed

lemma paths_decide_alike:
  assumes "wc_flow_overflow_drop b \<or> cr_bound_dpi_filter_index spi = kNoDpiLink"
    and "spi = spi_lookup ops (wc_rules b) key metadata"
  shows "same_decision (finalize_miss ops packet metadata key spi b) (classify_miss ops packet metadata key b)"
proof (cases "cr_matched spi \<and> cr_bound_dpi_filter_index spi \<noteq> kNoDpiLink")
  case True
  with assms show ?thesis by (intro finalize_miss_linked) auto
next
  case False
  then show ?thesis using finalize_miss_unlinked [OF _ assms(2)] by simp
qed



section \<open>The flow cache\<close>

text \<open>
  What a decision leaves in the flow table: nothing new, or, if the packet counts as matched,
  the action that was decided, for its own flow.
\<close>

definition remembers ::
    "FlowKey \<Rightarrow> bool \<Rightarrow> Action \<Rightarrow> ('c, 'm, 'd, 'h, 'f, 'r) Burst \<Rightarrow> ('c, 'm, 'd, 'h, 'f, 'r) Burst \<Rightarrow> bool" where
  "remembers key matched action b b' \<longleftrightarrow> (flow_ok (wc_flow_table b) \<longrightarrow> flow_ok (wc_flow_table b') \<and>
     (view (wc_flow_table b') = view (wc_flow_table b) \<or>
      matched \<and> view (wc_flow_table b') = (view (wc_flow_table b))(key \<mapsto> action)))"

lemma fault_frame [simp]: "wc_flow_table (fault f b) = wc_flow_table b"
  by (simp add: fault_def)

lemma remembers_frame:
  "wc_flow_table b' = wc_flow_table b \<Longrightarrow> remembers key matched action b b'"
  by (simp add: remembers_def)

lemma insert_flow_remembers:
  assumes "insert_flow ops key action b = (b', r)"
  shows "remembers key (r = kOk) action b b'"
proof -
  obtain t where ins: "Flow_Insert key 1 action (dpdk_rdtsc ops (wc_clock b)) (wc_flow_table b) = (t, r)" and "wc_flow_table b' = t"
    using assms by (auto simp: insert_flow_def rte_rdtsc_def Let_def split: prod.splits)
  then show ?thesis using Flow_Insert_step [OF _ ins] by (auto simp: remembers_def)
qed

lemma remembers_same: "remembers key matched action b b' \<Longrightarrow> wc_flow_table c = wc_flow_table b \<Longrightarrow>
    wc_flow_table c' = wc_flow_table b' \<Longrightarrow> remembers key matched action c c'"
  by (simp add: remembers_def)

lemma remembers_mono: "remembers key matched action b b' \<Longrightarrow> (matched \<Longrightarrow> matched' \<and> action' = action) \<Longrightarrow> remembers key matched' action' b b'"
  by (auto simp: remembers_def)

lemma cache_decision_remembers:
  assumes "cache_decision ops f metadata action key b = (b', d)"
  shows "remembers key (dd_matched d) (dd_action d) b b'"
proof -
  obtain b1 r where ins: "insert_flow ops key action b = (b1, r)" by fastforce
  have "remembers key (r = kOk) action b b'"
    using insert_flow_remembers [OF ins] by (rule remembers_same)
      (use assms ins in \<open>auto simp: cache_decision_def Let_def split: FlowInsertResult.splits if_splits\<close>)
  then show ?thesis
    by (rule remembers_mono) (use assms ins in \<open>auto simp: cache_decision_def decided_def\<close>)
qed

lemma MatchDpi_flow_table: "MatchDpi ops metadata b = (b', r) \<Longrightarrow> wc_flow_table b' = wc_flow_table b"
  by (auto simp: MatchDpi_def Let_def split: option.splits if_splits)

lemma dpi_decide_remembers:
  assumes "dpi_decide ops metadata spi key b = (b', d)"
  shows "remembers key (dd_matched d) (dd_action d) b b'"
proof -
  obtain b1 r where dpi: "MatchDpi ops metadata b = (b1, r)" by fastforce
  note table = MatchDpi_flow_table [OF dpi]
  show ?thesis
  proof (cases r)
    case None
    with assms dpi table show ?thesis by (intro remembers_frame) (simp add: dpi_decide_def)
  next
    case (Some x)
    with assms dpi have "remembers key (dd_matched d) (dd_action d) b1 b'"
      by (auto simp: dpi_decide_def Let_def dest: cache_decision_remembers)
    then show ?thesis by (rule remembers_same) (simp_all add: table)
  qed
qed

lemma dpi_decide_fault_remembers:
  "dpi_decide ops metadata spi key (fault PacketReadOutOfRange b) = (b', d) \<Longrightarrow> remembers key (dd_matched d) (dd_action d) b b'"
  by (drule dpi_decide_remembers, erule remembers_same) simp_all

lemma dpi_stream_remembers:
  assumes "dpi_stream ops r packet metadata spi key b = (b', d)"
  shows "remembers key (dd_matched d) (dd_action d) b b'"
proof (cases "pktmbuf_read (dpdk_pkt ops) packet (unat (tcp_payload_offset metadata))
             (min (unat (tcp_payload_length metadata)) kMaxTcpInspectionPayload)")
  case None
  with assms show ?thesis by (intro remembers_frame) (simp add: dpi_stream_def)
next
  case (Some payload)
  obtain r' stream where ins: "Reassembler_Insert metadata payload (wc_current_burst_tsc b) r = (r', stream)" by fastforce
  define b1 where "b1 = b\<lparr>wc_tcp_reassembler := Some r'\<rparr>"
  have "remembers key (dd_matched d) (dd_action d) b1 b'"
    using assms unfolding dpi_stream_def Some ins b1_def [symmetric] option.case prod.case Let_def
    by (auto dest: dpi_decide_remembers split: if_splits sum.splits option.splits AccessError.splits intro: remembers_frame)
  then show ?thesis by (rule remembers_same) (simp_all add: b1_def)
qed

lemma TryDpiClassify_remembers:
  assumes "TryDpiClassify ops packet metadata spi key b = (b', d)"
  shows "remembers key (dd_matched d) (dd_action d) b b'"
  using assms unfolding TryDpiClassify_def Let_def
  by (auto dest: dpi_decide_remembers dpi_decide_fault_remembers dpi_stream_remembers cache_decision_remembers
      split: option.split_asm if_split_asm sum.split_asm AccessError.split_asm intro: remembers_frame)

lemma MakeMatched_remembers:
  assumes "MakeMatched ops metadata action key b = (b', c)"
  shows "remembers key (pc_matched c) (pc_action c) b b'"
proof -
  obtain b1 r where ins: "insert_flow ops key action b = (b1, r)" by fastforce
  have "remembers key (r = kOk) action b b'"
    using insert_flow_remembers [OF ins] by (rule remembers_same)
      (use assms ins in \<open>auto simp: MakeMatched_def Let_def split: FlowInsertResult.splits if_splits\<close>)
  then show ?thesis
    by (rule remembers_mono) (use assms ins in \<open>auto simp: MakeMatched_def classification_def\<close>)
qed

text \<open>DPI first, then the rules, if DPI has left the packet undecided.\<close>

lemma remembers_after_dpi:
  assumes "TryDpiClassify ops packet metadata spi key b = (b1, d)" and "\<not> dd_matched d" and "remembers key matched action b1 b'"
  shows "remembers key matched action b b'"
  using TryDpiClassify_remembers [OF assms(1)] assms(2,3) by (auto simp: remembers_def)

lemma classify_miss_remembers:
  assumes "classify_miss ops packet metadata key b = (b', c)"
  shows "remembers key (pc_matched c) (pc_action c) b b'"
proof -
  define spi where "spi = spi_lookup ops (wc_rules b) key metadata"
  obtain b1 r where ins: "insert_flow ops key (cr_action spi) b = (b1, r)" by fastforce
  obtain b2 d where dpi: "TryDpiClassify ops packet metadata spi key b = (b2, d)" by fastforce
  consider (link) "cr_matched spi" "cr_bound_dpi_filter_index spi \<noteq> kNoDpiLink"
    | (off) "\<not> (cr_matched spi \<and> cr_bound_dpi_filter_index spi \<noteq> kNoDpiLink)"
        "case wc_dpi_rules b of None \<Rightarrow> True | Some dpi_rules \<Rightarrow> \<not> Dpi_IsEnabled dpi_rules"
    | (dpi) "\<not> (cr_matched spi \<and> cr_bound_dpi_filter_index spi \<noteq> kNoDpiLink)"
        "\<not> (case wc_dpi_rules b of None \<Rightarrow> True | Some dpi_rules \<Rightarrow> \<not> Dpi_IsEnabled dpi_rules)"
    by blast
  then show ?thesis
  proof cases
    case link
    have "remembers key (r = kOk) (cr_action spi) b b'"
      using insert_flow_remembers [OF ins] by (rule remembers_same)
        (use assms link in \<open>auto simp: classify_miss_def Let_def ins simp flip: spi_def split: FlowInsertResult.splits\<close>)
    then show ?thesis
      by (rule remembers_mono) (use assms link in \<open>auto simp: classify_miss_def Let_def ins classification_def simp flip: spi_def\<close>)
  next
    case off
    with assms show ?thesis
      by (auto simp: classify_miss_def Let_def simp flip: spi_def split: if_splits dest: MakeMatched_remembers intro: remembers_frame)
  next
    case dpi
    have out: "(if dd_matched d then (b2, classification (dd_metadata d) (dd_action d) True)
        else if cr_matched spi
        then if dd_defer_spi_cache d then (bump c_matched_update b2, classification (dd_metadata d) (cr_action spi) True)
             else MakeMatched ops (dd_metadata d) (cr_action spi) key b2
        else (bump c_unknown_update b2, classification (dd_metadata d) kForward False)) = (b', c)"
      using assms dpi \<open>TryDpiClassify ops packet metadata spi key b = (b2, d)\<close>
      by (simp add: classify_miss_def Let_def flip: spi_def)
    show ?thesis
    proof (cases "dd_matched d")
      case True
      with out TryDpiClassify_remembers [OF \<open>TryDpiClassify ops packet metadata spi key b = (b2, d)\<close>] show ?thesis
        by (auto simp: classification_def)
    next
      case False
      with out have "remembers key (pc_matched c) (pc_action c) b2 b'"
        by (auto split: if_splits dest: MakeMatched_remembers intro: remembers_frame)
      with \<open>TryDpiClassify ops packet metadata spi key b = (b2, d)\<close> False show ?thesis by (rule remembers_after_dpi)
    qed
  qed
qed

lemma classify_parsed_cache:
  assumes "flow_ok (wc_flow_table b)" and "classify_parsed ops packet metadata b = (b', c)"
  defines "key \<equiv> MakeCanonicalFromMetadata metadata"
  shows "flow_ok (wc_flow_table b')"
    and "\<And>k. k \<noteq> key \<Longrightarrow> view (wc_flow_table b') k = view (wc_flow_table b) k"
    and "view (wc_flow_table b') key = Some a \<Longrightarrow> pc_matched c \<and> pc_action c = a"
    and "view (wc_flow_table b) key = Some a \<Longrightarrow> view (wc_flow_table b') key = Some a"
proof -
  obtain t cached where look: "Flow_Lookup key (wc_current_burst_tsc b) (wc_flow_table b) = (t, cached)" by fastforce
  have t: "flow_ok t" "view t = view (wc_flow_table b)" "cached = view (wc_flow_table b) key"
    using Flow_Lookup_ok [OF assms(1), of key "wc_current_burst_tsc b"] Flow_Lookup_view [of key "wc_current_burst_tsc b" "wc_flow_table b"]
    by (simp_all add: look)
  have "flow_ok (wc_flow_table b') \<and> (\<forall>k. k \<noteq> key \<longrightarrow> view (wc_flow_table b') k = view (wc_flow_table b) k) \<and>
      (view (wc_flow_table b') key = Some a \<longrightarrow> pc_matched c \<and> pc_action c = a) \<and>
      (view (wc_flow_table b) key = Some a \<longrightarrow> view (wc_flow_table b') key = Some a)" for a
  proof (cases cached)
    case (Some x)
    with t(3) have "view (wc_flow_table b) key = Some x" by simp
    with assms(2) t(1,2) look Some show ?thesis
      by (auto simp: classify_parsed_def Let_def classification_def simp flip: key_def)
  next
    case None
    with assms(2) look have "classify_miss ops packet metadata key ((bump c_parsed_update b)\<lparr>wc_flow_table := t\<rparr>) = (b', c)"
      by (simp add: classify_parsed_def Let_def flip: key_def)
    from classify_miss_remembers [OF this] None t show ?thesis by (auto simp: remembers_def)
  qed
  then show "flow_ok (wc_flow_table b')"
    and "\<And>k. k \<noteq> key \<Longrightarrow> view (wc_flow_table b') k = view (wc_flow_table b) k"
    and "view (wc_flow_table b') key = Some a \<Longrightarrow> pc_matched c \<and> pc_action c = a"
    and "view (wc_flow_table b) key = Some a \<Longrightarrow> view (wc_flow_table b') key = Some a"
    by blast+
qed

lemma classify_all_keeps:
  assumes "flow_ok (wc_flow_table b)" and "view (wc_flow_table b) key = Some a"
  shows "flow_ok (wc_flow_table (fold (\<lambda>(packet, md) b. fst (classify_parsed ops packet md b)) ps b)) \<and>
     view (wc_flow_table (fold (\<lambda>(packet, md) b. fst (classify_parsed ops packet md b)) ps b)) key = Some a"
  using assms
proof (induction ps arbitrary: b)
  case (Cons p ps)
  obtain packet md where p: "p = (packet, md)" by fastforce
  obtain b1 c where one: "classify_parsed ops packet md b = (b1, c)" by fastforce
  note step = classify_parsed_cache [OF Cons.prems(1) one]
  have "view (wc_flow_table b1) key = Some a"
    using step(2,4) Cons.prems(2) by (cases "key = MakeCanonicalFromMetadata md") auto
  from Cons.IH [OF step(1) this] show ?case by (simp add: p one)
qed simp

text \<open>
  C6. A flow keeps its decision. Once a packet was classified and its flow entered into the flow
  table, any number of other packets may be classified, of this flow and of others, with DPI or without:
  a later packet of the flow, in either direction, is answered from the table with the action that was applied
  to the first one.
\<close>

theorem flow_keeps_its_decision:
  assumes "flow_ok (wc_flow_table b)" and "classify_parsed ops packet metadata b = (b1, c1)"
    and "snd (Flow_Lookup (MakeCanonicalFromMetadata metadata) now (wc_flow_table b1)) \<noteq> None"
    and "MakeCanonicalFromMetadata metadata' = MakeCanonicalFromMetadata metadata"
    and "classify_parsed ops packet' metadata' (fold (\<lambda>(packet, md) b. fst (classify_parsed ops packet md b)) ps b1) = (b2, c2)"
  shows "pc_matched c1 \<and> pc_matched c2 \<and> pc_action c2 = pc_action c1"
proof -
  let ?key = "MakeCanonicalFromMetadata metadata"
  from assms(3) obtain a where a: "view (wc_flow_table b1) ?key = Some a" by (auto simp: Flow_Lookup_view)
  note first = classify_parsed_cache [OF assms(1,2)]
  let ?b = "fold (\<lambda>(packet, md) b. fst (classify_parsed ops packet md b)) ps b1"
  from classify_all_keeps [OF first(1) a] have keep: "flow_ok (wc_flow_table ?b)" "view (wc_flow_table ?b) ?key = Some a" by auto
  note last = classify_parsed_cache [OF keep(1) assms(5), unfolded assms(4)]
  from last(4) [OF keep(2)] have "view (wc_flow_table b2) ?key = Some a" .
  with last(3) first(3) [OF a] show ?thesis by simp
qed

theorem flow_keeps_its_decision_witness:
  "let md = sample_packet 0x0100000A;
       r1 = classify_parsed sample_dpdk (sample_mbuf []) md (start_burst sample_worker);
       b = fold (\<lambda>(packet, md) b. fst (classify_parsed sample_dpdk packet md b)) [(sample_mbuf [], sample_packet 7)] (fst r1);
       r2 = classify_parsed sample_dpdk (sample_mbuf []) (reverse_metadata md) b
   in pc_matched (snd r1) \<and> pc_matched (snd r2) \<and> pc_action (snd r2) = pc_action (snd r1)"
proof -
  let ?md = "sample_packet 0x0100000A" and ?b = "start_burst sample_worker"
  have ok: "flow_ok (wc_flow_table ?b)"
    using example_table_ok by (simp add: start_burst_def Burst.defs WorkerContext.defs sample_worker_def)
  have cached: "snd (Flow_Lookup (MakeCanonicalFromMetadata ?md) 9
      (wc_flow_table (fst (classify_parsed sample_dpdk (sample_mbuf []) ?md ?b)))) \<noteq> None" by code_simp
  have "MakeCanonicalFromMetadata (reverse_metadata ?md) = MakeCanonicalFromMetadata ?md" by code_simp
  from flow_keeps_its_decision [OF ok prod.collapse [symmetric] cached this prod.collapse [symmetric]]
  show ?thesis unfolding Let_def .
qed

end
