(* ===== verification/Rule_Prefilter_Correct.thy ===== *)
theory Rule_Prefilter_Correct
  imports Rule_Match_Correct
begin

text \<open>
  The shortcuts around the ACL: the membership pre-filter (sound as constructed, and what
  becomes of it when the table is moved), the tuple space, and the resolution of DPI links.
\<close>

section \<open>The membership pre-filter\<close>

text \<open>
  A set summary answers a bulk lookup key by key; an added key is found (under some set
  number other than zero) and stays found. That is what the library promises of hash-table
  summaries, up to false positives, as long as adding succeeds.
\<close>

definition member_contract :: "'m member_ops \<Rightarrow> bool" where
  "member_contract member \<longleftrightarrow> (\<exists>look.
     (\<forall>m ks. member_lookup_bulk member m ks = map (look m) ks) \<and>
     (\<forall>m k s m'. member_add member m k s = Some m' \<longrightarrow>
        (s \<noteq> RTE_MEMBER_NO_MATCH \<longrightarrow> look m' k \<noteq> RTE_MEMBER_NO_MATCH) \<and>
        (\<forall>k'. look m k' \<noteq> RTE_MEMBER_NO_MATCH \<longrightarrow> look m' k' \<noteq> RTE_MEMBER_NO_MATCH)))"

definition never_full :: "'m member_ops \<Rightarrow> bool" where
  "never_full member \<longleftrightarrow> (\<forall>m k s. s \<noteq> RTE_MEMBER_NO_MATCH \<longrightarrow> member_add member m k s \<noteq> None)"

text \<open>Every address of a block of the pre-filter is one of the keys entered for it.\<close>

lemma block_host:
  assumes "n \<le> 32" and "a AND PrefixMask n = network"
  shows "\<exists>host < 2 ^ (32 - unat n). a = network + of_nat host"
proof -
  let ?k = "32 - unat n"
  have "network = push_bit ?k (drop_bit ?k a)"
    using assms(2) unfolding PrefixMask_mask [OF assms(1)]
    by (intro bit_word_eqI) (auto simp: bit_simps)
  then have "network + take_bit ?k a = a" by (simp add: bits_ident)
  moreover have "take_bit ?k a = of_nat (unat (take_bit ?k a))" by simp
  moreover have "unat (take_bit ?k a) < 2 ^ ?k" by (simp add: unsigned_take_bit_eq)
  ultimately show ?thesis by metis
qed

lemma matching_packet_has_key:
  assumes "filter_ok f" and "filter_matches f p" and "\<not> needs_acl f" and "ip_version p = kIpv4"
  shows "packet_member_key p (destination_port_be p) \<in> set (filter_member_keys f) \<or>
         packet_member_key p 0 \<in> set (filter_member_keys f)"
proof -
  let ?dst = "rte_be_to_cpu_32 (destination_ip_be p)"
  have proto: "cf_protocol f = protocol p"
    and port: "match_destination_port f \<longrightarrow> cf_destination_port f = rte_be_to_cpu_16 (destination_port_be p)"
    and ip: "match_destination_ip f \<longrightarrow> ?dst = destination_ip_address f"
    and cidr: "match_destination_cidr f \<longrightarrow> ?dst AND destination_prefix_mask f = destination_network f"
    using assms(2,4)
    by (auto simp: filter_matches_def acl_input_of_def FilterMatchesPortProtocol_def Let_def split: if_splits)
  have key: "packet_member_key p (if match_destination_port f then destination_port_be p else 0) = member_key_for f ?dst"
    using proto port by (simp add: packet_member_key_def member_key_for_def)
  have "member_key_for f ?dst \<in> set (filter_member_keys f)"
  proof (cases "match_destination_ip f")
    case True
    with ip show ?thesis by (simp add: filter_member_keys_def)
  next
    case False
    with assms(3) have c: "match_destination_cidr f" "20 \<le> destination_prefix_length f"
      by (auto simp: needs_acl_def not_less)
    with assms(1) have l: "destination_prefix_length f \<le> 32"
      "destination_prefix_mask f = PrefixMask (ucast (destination_prefix_length f))" by (simp_all add: filter_ok_def)
    have n: "unat (ucast (destination_prefix_length f) :: u16) = unat (destination_prefix_length f)"
      using l(1) by (simp add: word_le_nat_alt unsigned_ucast_eq take_bit_nat_eq_self)
    have "(ucast (destination_prefix_length f) :: u16) \<le> 32" using l(1) n by (simp add: word_le_nat_alt)
    from block_host [OF this, of ?dst] cidr c(1) l(2) n obtain host where
      "host < 2 ^ (32 - unat (destination_prefix_length f))" "?dst = destination_network f + of_nat host" by auto
    with False c show ?thesis by (auto simp: filter_member_keys_def)
  qed
  with key show ?thesis by (cases "match_destination_port f") auto
qed

lemma build_member_finds:
  assumes "member_contract member" and "never_full member" and "build_member member groups = Some ctx"
    and "length groups < 65535"
  obtains look where "\<And>m ks. member_lookup_bulk member m ks = map (look m) ks"
    "\<And>g f k. g \<in> set groups \<Longrightarrow> f \<in> set (g_filters g) \<Longrightarrow> k \<in> set (filter_member_keys f) \<Longrightarrow>
       look ctx k \<noteq> RTE_MEMBER_NO_MATCH"
proof -
  from assms(1) obtain look where look: "\<And>m ks. member_lookup_bulk member m ks = map (look m) ks"
    and add: "\<And>m k s m'. member_add member m k s = Some m' \<Longrightarrow>
        (s \<noteq> RTE_MEMBER_NO_MATCH \<longrightarrow> look m' k \<noteq> RTE_MEMBER_NO_MATCH) \<and>
        (\<forall>k'. look m k' \<noteq> RTE_MEMBER_NO_MATCH \<longrightarrow> look m' k' \<noteq> RTE_MEMBER_NO_MATCH)"
    unfolding member_contract_def by metis
  let ?step = "\<lambda>(k, s) ctx. case member_add member ctx k s of Some ctx' \<Rightarrow> ctx' | None \<Rightarrow> ctx"
  have one: "(s \<noteq> RTE_MEMBER_NO_MATCH \<longrightarrow> look (?step (k, s) m) k \<noteq> RTE_MEMBER_NO_MATCH) \<and>
      (look m k' \<noteq> RTE_MEMBER_NO_MATCH \<longrightarrow> look (?step (k, s) m) k' \<noteq> RTE_MEMBER_NO_MATCH)" for m k s k'
  proof -
    from assms(2) have "s \<noteq> RTE_MEMBER_NO_MATCH \<Longrightarrow> member_add member m k s \<noteq> None"
      unfolding never_full_def by blast
    then show ?thesis using add [of m k s] by (cases "member_add member m k s") auto
  qed
  have all: "(\<forall>(k, s) \<in> set kss. s \<noteq> RTE_MEMBER_NO_MATCH \<longrightarrow> look (fold ?step kss m) k \<noteq> RTE_MEMBER_NO_MATCH) \<and>
      (\<forall>k'. look m k' \<noteq> RTE_MEMBER_NO_MATCH \<longrightarrow> look (fold ?step kss m) k' \<noteq> RTE_MEMBER_NO_MATCH)" for kss m
  proof (induction kss arbitrary: m)
    case (Cons ks kss)
    obtain k s where ks: "ks = (k, s)" by force
    from Cons [of "?step ks m"] one show ?case unfolding ks by fastforce
  qed simp
  from assms(3) obtain m0 where ctx: "ctx = fold ?step (all_member_keys groups) m0"
    by (auto simp: build_member_def Let_def split: if_splits)
  have "look ctx k \<noteq> RTE_MEMBER_NO_MATCH"
    if key: "g \<in> set groups" "f \<in> set (g_filters g)" "k \<in> set (filter_member_keys f)" for g f k
  proof -
    from key(1) obtain gi where gi: "gi < length groups" "g = groups ! gi" by (metis in_set_conv_nth)
    then have "(gi, g) \<in> set (List.enumerate 0 groups)" by (simp add: in_set_enumerate_eq)
    with key have "(k, of_nat (gi + 1)) \<in> set (all_member_keys groups)"
      unfolding all_member_keys_def by (force simp: image_iff)
    moreover have "of_nat (gi + 1) \<noteq> (0 :: u16)"
    proof -
      have "unat (of_nat (gi + 1) :: u16) = gi + 1"
        using gi(1) assms(4) by (simp only: unsigned_of_nat) (simp add: take_bit_nat_eq_self)
      then show ?thesis by (metis add_is_0 one_neq_zero unsigned_0)
    qed
    ultimately show ?thesis using all [of "all_member_keys groups" m0] unfolding ctx RTE_MEMBER_NO_MATCH_def by blast
  qed
  with look that show thesis by blast
qed

lemma fold_wild_ids:
  fixes h :: "nat \<Rightarrow> u16"
  assumes "j < length ids"
  shows "fold (\<lambda>(i, s) ids. if s \<noteq> RTE_MEMBER_NO_MATCH then ids[i := s] else ids) (zip idxs (map h idxs)) ids ! j =
     (if j \<in> set idxs \<and> h j \<noteq> RTE_MEMBER_NO_MATCH then h j else ids ! j)"
  using assms
proof (induction idxs arbitrary: ids)
  case (Cons i idxs)
  then show ?case by (cases "i = j") (auto simp: nth_list_update)
qed simp

text \<open>The burst loop, for one packet: it is marked only if both lookups miss.\<close>

lemma MemberFilterBulk_nth:
  assumes "\<And>m ks. member_lookup_bulk member m ks = map (look m) ks"
    and "rt_member_ctx t = Some ctx" and "\<not> rt_has_wildcard_ip_rules t"
    and "i < length packets" and "i < 64" and "i < length skip"
  shows "MemberFilterBulk member t packets skip ! i \<longleftrightarrow> skip ! i \<or>
     (look ctx (packet_member_key (packets ! i) (destination_port_be (packets ! i))) = RTE_MEMBER_NO_MATCH \<and>
      look ctx (packet_member_key (packets ! i) 0) = RTE_MEMBER_NO_MATCH)"
proof -
  let ?n = "min (length packets) 64"
  let ?burst = "take ?n packets"
  let ?ids = "map (\<lambda>p. look ctx (packet_member_key p (destination_port_be p))) ?burst"
  let ?wild = "filter (\<lambda>i. ?ids ! i = RTE_MEMBER_NO_MATCH) [0..<?n]"
  let ?h = "\<lambda>i. look ctx (packet_member_key (?burst ! i) 0)"
  have i: "i < ?n" "?burst ! i = packets ! i" using assms(4,5) by simp_all
  have "MemberFilterBulk member t packets skip ! i =
     (if fold (\<lambda>(i, s) ids. if s \<noteq> RTE_MEMBER_NO_MATCH then ids[i := s] else ids) (zip ?wild (map ?h ?wild)) ?ids ! i
           = RTE_MEMBER_NO_MATCH then True else skip ! i)"
    using assms(2,3,6) i(1) by (simp add: MemberFilterBulk_def assms(1) comp_def Let_def)
  also have "fold (\<lambda>(i, s) ids. if s \<noteq> RTE_MEMBER_NO_MATCH then ids[i := s] else ids) (zip ?wild (map ?h ?wild)) ?ids ! i =
      (if ?ids ! i = RTE_MEMBER_NO_MATCH \<and> ?h i \<noteq> RTE_MEMBER_NO_MATCH then ?h i else ?ids ! i)"
    using i(1) by (subst fold_wild_ids) auto
  finally show ?thesis using i by auto
qed


lemma list_member_contract: "member_contract list_member" "never_full list_member"
  unfolding member_contract_def never_full_def list_member_def
  by (auto intro!: exI [of _ "\<lambda>m k. case map_of m k of None \<Rightarrow> RTE_MEMBER_NO_MATCH | Some s \<Rightarrow> s"] split: if_splits)

text \<open>The host rule alone: nothing here names no destination.\<close>

definition host_filter :: CompiledFilter where
  "host_filter = \<lparr>cf_protocol = kTcp, source_ip_address = 0, destination_ip_address = 0x0A000001,
     destination_network = 0, destination_prefix_mask = 0, destination_prefix_length = 0, cf_source_port = 0,
     cf_destination_port = 443, match_source_ip = False, match_destination_ip = True,
     match_destination_cidr = False, match_source_port = False, match_destination_port = True, cf_label = ''host''\<rparr>"

definition host_group :: CompiledFilterGroup where
  "host_group = default_group\<lparr>g_filters := [host_filter]\<rparr>"



section \<open>The tuple space\<close>

text \<open>A table that was moved, as every compiled one is, never answers from the tuple space.\<close>

lemma moved_table_probe [simp]: "ProbeTss crc (RuleTable_move t) key = kNoTssHit"
  by (simp add: ProbeTss_def RuleTable_move_def)

section \<open>DPI links\<close>

lemma resolve_groups_spec:
  "case resolve_groups dpi gs of
     (gs', Inr u) \<Rightarrow> gs' = map (\<lambda>g. case Dpi_FindByFilterGroup dpi (g_bound_dpi_name g) of
         None \<Rightarrow> g | Some idx \<Rightarrow> g\<lparr>g_bound_dpi_filter_index := idx, g_bound_dpi_name := []\<rparr>) gs \<and>
       (\<forall>g \<in> set gs. g_bound_dpi_name g \<noteq> [] \<longrightarrow> Dpi_FindByFilterGroup dpi (g_bound_dpi_name g) \<noteq> None)
   | (gs', Inl e) \<Rightarrow> length gs' = length gs \<and> (\<exists>g \<in> set gs. g_bound_dpi_name g \<noteq> [] \<and>
       Dpi_FindByFilterGroup dpi (g_bound_dpi_name g) = None \<and> e = DpiGroupNotFound (g_name g) (g_bound_dpi_name g))"
proof (induction gs)
  case (Cons g gs)
  have none: "Dpi_FindByFilterGroup dpi [] = None" by (simp add: Dpi_FindByFilterGroup_None)
  show ?case
    using Cons by (auto simp: none split: prod.splits sum.splits option.splits)
qed simp

lemma compiled_links_resolve:
  assumes "\<And>g. g \<in> set (rt_groups t) \<Longrightarrow> g_bound_dpi_name g \<noteq> [] \<Longrightarrow>
      g_bound_dpi_name g \<in> cdf_filter_group ` set (dt_filters dpi)"
  shows "snd (ResolveDpiLinks dpi t) = Inr ()"
proof -
  obtain gs r where gr: "resolve_groups dpi (rt_groups t) = (gs, r)" by force
  have "r = Inr ()"
  proof (cases r)
    case (Inl e)
    with resolve_groups_spec [where dpi = dpi and gs = "rt_groups t"] gr obtain g where "g \<in> set (rt_groups t)"
      "g_bound_dpi_name g \<noteq> []" "Dpi_FindByFilterGroup dpi (g_bound_dpi_name g) = None" by auto
    with assms show ?thesis by (auto simp: Dpi_FindByFilterGroup_None)
  qed simp
  with gr show ?thesis by (simp add: ResolveDpiLinks_def)
qed

end
