(* ===== verification/Pipeline_Control_Correct.thy ===== *)
theory Pipeline_Control_Correct
  imports Pipeline_Control Pipeline_Decisions Rule_Prefilter_Correct
begin

text \<open>
  What holds of the life of a pipeline: the application never aborts over a configuration it has
  accepted, a reload takes place completely or not at all, and the statistics are exact.
\<close>

section \<open>Links between SPI and DPI\<close>

lemma compiled_group_links:
  assumes "CompileRuleTable inet acl member crc cpus affinity config = Inr t" and "g \<in> set (rt_groups t)"
  shows "g_bound_dpi_name g \<in> sgc_dpi_filter_group ` set (filter_groups config)"
proof -
  obtain parsed chunks algorithm max_size where
    len: "length parsed = length (filter_groups config)" and
    each: "\<forall>i < length (filter_groups config). compile_group inet i (filter_groups config ! i) = Inr (parsed ! i)" and
    t: "t = RuleTable_move (make_RuleTable crc (sort_groups parsed) chunks
           (map of_nat [0..<length (sort_groups parsed)]) (build_member member (sort_groups parsed)) max_size algorithm)"
    using CompileRuleTable_cases [OF assms(1)] by metis
  have "rt_groups t = sort_groups parsed"
    by (simp add: t RuleTable_move_def make_RuleTable_def BuildTssFromGroups_def Let_def split: prod.splits)
  with assms(2) obtain g0 where g0: "g0 \<in> set parsed" "g\<lparr>g_category_index := 0\<rparr> = g0\<lparr>g_category_index := 0\<rparr>"
    using sort_groups_twin(1) by metis
  have "g_bound_dpi_name g = g_bound_dpi_name g0" using arg_cong [OF g0(2), of g_bound_dpi_name] by simp
  moreover from g0(1) obtain i where "i < length (filter_groups config)" "g0 = parsed ! i" using len by (metis in_set_conv_nth)
  moreover from this each have "compile_group inet i (filter_groups config ! i) = Inr g0" by simp
  then have "g_bound_dpi_name g0 = sgc_dpi_filter_group (filter_groups config ! i)"
    by (auto elim: compile_group_fields)
  ultimately show ?thesis by auto
qed

lemma compiled_dpi_groups:
  assumes "CompileDpiRuleTable hs config = Inr t"
  shows "cdf_filter_group ` set (dt_filters t) = dfc_filter_group ` set (dpi_filters config)"
proof -
  have "set (dt_filters t) = CompileDpiFilter ` set (dpi_filters config)"
    by (simp add: compiled_cases(1) [OF assms])
  then show ?thesis by (auto simp: image_image CompileDpiFilter_def Let_def)
qed

lemma accepted_links_resolve:
  assumes "LoadConfig inet n reader path = Inr config"
    and "CompileRuleTable inet acl member crc cpus affinity (cfg_spi config) = Inr rules"
    and "CompileDpiRuleTable hs (cfg_dpi config) = Inr dpi"
  shows "snd (ResolveDpiLinks dpi rules) = Inr ()"
proof (rule compiled_links_resolve)
  fix g assume g: "g \<in> set (rt_groups rules)" "g_bound_dpi_name g \<noteq> []"
  have "\<exists>u. ValidateConfig inet n config = Inr u"
    using assms(1) by (auto simp: LoadConfig_def split: option.splits sum.splits if_splits)
  moreover from compiled_group_links [OF assms(2) g(1)] obtain c where
    "c \<in> set (filter_groups (cfg_spi config))" "g_bound_dpi_name g = sgc_dpi_filter_group c" by blast
  ultimately show "g_bound_dpi_name g \<in> cdf_filter_group ` set (dt_filters dpi)"
    using g(2) ValidateConfig_dpi_links unfolding compiled_dpi_groups [OF assms(3)] by metis
qed

lemma make_Pipeline_succeeds:
  assumes load: "LoadConfig inet n reader path = Inr config"
    and rules: "CompileRuleTable inet acl member crc cpus affinity (cfg_spi config) = Inr rules"
    and dpi: "CompileDpiRules hs (cfg_dpi config) = Inr dpi_rules"
  shows "make_Pipeline inet' hash env rules dpi_rules config' \<noteq> None"
proof (cases dpi_rules)
  case None
  then show ?thesis by (simp add: make_Pipeline_def Let_def active_table_def empty_manager_def)
next
  case (Some t)
  with dpi have "CompileDpiRuleTable hs (cfg_dpi config) = Inr t"
    by (auto simp: CompileDpiRules_def split: if_splits sum.splits)
  from accepted_links_resolve [OF load rules this] obtain rules' where "ResolveDpiLinks t rules = (rules', Inr ())"
    by (metis prod.collapse)
  with Some show ?thesis
    by (simp add: make_Pipeline_def Let_def active_table_def empty_manager_def allocate_def DpiRuleTableManager_Init_def)
qed

text \<open>
  C28. The application never aborts. Whatever the configuration file says, whatever EAL, the ACL library and Hyperscan
  answer, starting ends with an error that is reported or with a pipeline: the
  constructor, which calls \<^verbatim>\<open>std::abort\<close> on an unknown DPI group, finds every group that the accepted
  configuration names.
\<close>

theorem start_application_never_aborts:
  "start_application co hash eth handlers_installed config_path \<noteq> Inl Aborted"
  unfolding start_application_def Let_def
  by (auto split: sum.split prod.split option.split) (metis make_Pipeline_succeeds)

section \<open>Reloading\<close>

text \<open>Addresses are handed out in order, so a new table never takes the place of one still in use.\<close>

definition manager_below :: "addr \<Rightarrow> 't TableManager \<Rightarrow> bool" where
  "manager_below a m \<longleftrightarrow> (\<forall>x \<in> set_option (tm_active m) \<union> set_option (tm_retired m) \<union> set_option (tm_prev_retired m). x < a)"

definition pipeline_ok :: "('c, 'm, 'd, 'h, 'f, 'r) Pipeline \<Rightarrow> bool" where
  "pipeline_ok p \<longleftrightarrow> manager_below (pl_next_addr p) (pl_rule_manager p) \<and> manager_below (pl_next_addr p) (pl_dpi_rule_manager p) \<and>
     active_table (pl_rule_manager p) \<noteq> None"

lemma make_Pipeline_ok: "make_Pipeline inet hash env rules dpi config = Some p \<Longrightarrow> pipeline_ok p"
  by (auto simp: make_Pipeline_def Let_def pipeline_ok_def manager_below_def empty_manager_def allocate_def active_table_def
      RuleTableManager_Init_def DpiRuleTableManager_Init_def split: prod.splits sum.splits option.splits)

lemma Swap_publishes:
  assumes "manager_below a m"
  shows "active_table (RuleTableManager_Swap (Some a) (allocate a t m)) = Some t"
    and "manager_below (a + 2) (RuleTableManager_Swap (Some a) (allocate a t m))"
  using assms
  by (auto simp: active_table_def RuleTableManager_Swap_def allocate_def Let_def unique_delete_def manager_below_def split: option.split)

lemma DpiSwap_publishes:
  assumes "manager_below a m"
  shows "map_option DpiTableHeader.more (active_table (DpiRuleTableManager_Swap (Some (a + 1)) (allocate (a + 1) t m))) =
      Some (DpiTableHeader.more t)"
    and "manager_below (a + 2) (DpiRuleTableManager_Swap (Some (a + 1)) (allocate (a + 1) t m))"
    and "active_table (DpiRuleTableManager_Swap None m) = None" and "manager_below (a + 2) (DpiRuleTableManager_Swap None m)"
  using assms
  by (auto simp: active_table_def DpiRuleTableManager_Swap_def stamp_generation_def allocate_def Let_def unique_delete_def
      manager_below_def split: option.split)

lemma MaybeReloadFlowTable_frame [simp]:
  "pl_rule_manager (MaybeReloadFlowTable hash tsc config p) = pl_rule_manager p"
  "pl_dpi_rule_manager (MaybeReloadFlowTable hash tsc config p) = pl_dpi_rule_manager p"
  "pl_next_addr (MaybeReloadFlowTable hash tsc config p) = pl_next_addr p"
  by (simp_all add: MaybeReloadFlowTable_def Let_def)


subsection \<open>An example\<close>

definition sample_dpdk_config :: DpdkConfig where
  "sample_dpdk_config = default_DpdkConfig\<lparr>cfg_spi := sample_config sample_groups\<rparr>"

definition sample_compile :: "(AclRule list, (MemberKey \<times> u16) list, dpi_regex list) compile_ops" where
  "sample_compile = \<lparr>co_inet = sample_inet, co_hardware_concurrency = 4,
     co_reader = \<lparr>read_config_beve = (\<lambda>_. None), read_config_yaml = (\<lambda>_. Some sample_dpdk_config),
                  read_store_beve = (\<lambda>_. None), read_store_yaml = (\<lambda>_. None)\<rparr>,
     co_acl = linear_acl, co_member = list_member, co_crc = (\<lambda>_. 0), co_cpu_count = 4, co_affinity = True, co_hs = text_hs\<rparr>"

lemma sample_dpdk_config_fields:
  "cfg_spi sample_dpdk_config = sample_config sample_groups" "cfg_l3_forward sample_dpdk_config = default_L3ForwardConfig"
  "cfg_pcap_injector sample_dpdk_config = default_PcapInjectorConfig" "cfg_port sample_dpdk_config = default_PortConfig"
  "filter_groups (sample_config sample_groups) = sample_groups" "acl_build_max_size_mb (sample_config sample_groups) = 0"
  "\<not> dpi_enabled (cfg_dpi sample_dpdk_config)" "rule_path (sample_config sample_groups) = []"
  by (simp_all add: sample_dpdk_config_def default_DpdkConfig_def sample_config_def)

lemma sample_dpdk_config_accepted: "ValidateConfig sample_inet 4 sample_dpdk_config = Inr ()"
proof -
  have parts: "ValidateL3ForwardConfig sample_inet default_L3ForwardConfig = Inr ()"
      "validate_from (\<lambda>i g. ValidateFilterGroupConfig sample_inet g i) 0 sample_groups = Inr ()" "IsPowerOfTwo 8192"
    by code_simp+
  have groups: "\<forall>g \<in> set sample_groups. sgc_dpi_filter_group g = []" "sample_groups \<noteq> []"
    by (simp_all add: sample_groups_def sample_group_def)
  then have "ValidateDpiLinks sample_dpdk_config = Inr ()"
    unfolding ValidateDpiLinks_def sample_dpdk_config_fields Let_def by (simp add: validate_from_ok)
  with parts groups(2) show ?thesis
    unfolding ValidateConfig_def Let_def sample_dpdk_config_fields
    by (simp add: ValidateWorkerQueueConfig_def sample_dpdk_config_fields ValidatePcapInjectorConfig_def ValidateTcpReassemblyConfig_def Let_def)
      (simp add: sample_config_def example_reassembly_config_def default_PcapInjectorConfig_def default_PortConfig_def
        IsSupportedPacketDistribution_def IsSupportedFlowOverflowAction_def IsSupportedAclClassifyAlgorithm_def)
qed

lemma sample_compile_reload:
  "compile_reload sample_compile ''config.yaml'' =
     Inr (sample_dpdk_config\<lparr>cfg_spi := (sample_config sample_groups)\<lparr>filter_groups := []\<rparr>\<rparr>, sample_table, None)"
proof -
  have "\<not> is_binary_path ''config.yaml''" by code_simp
  then have "LoadConfig sample_inet 4 (co_reader sample_compile) ''config.yaml'' = Inr sample_dpdk_config"
    by (simp add: LoadConfig_def sample_compile_def sample_dpdk_config_fields sample_dpdk_config_accepted)
  then show ?thesis
    by (simp add: compile_reload_def sample_compile_def sample_table_compiled sample_dpdk_config_fields Let_def)
qed

definition sample_pipeline ::
    "(AclRule list, (MemberKey \<times> u16) list, dpi_regex list, hash_slot list, unit, Mbuf list) Pipeline" where
  "sample_pipeline = the (make_Pipeline sample_inet slot_hash_ops sample_environment sample_table None sample_dpdk_config)"

lemma sample_pipeline_made:
  "make_Pipeline sample_inet slot_hash_ops sample_environment sample_table None sample_dpdk_config = Some sample_pipeline"
  by (simp add: sample_pipeline_def make_Pipeline_def Let_def active_table_def empty_manager_def)


subsection \<open>Resizing the flow table\<close>

lemma MaybeReloadFlowTable_table:
  assumes "spi_max_concurrent_flows (cfg_spi config) \<noteq> pl_max_concurrent_flows p"
    and "Flow_IsValid (make_FlowTable hash (spi_max_concurrent_flows (cfg_spi config)))"
  shows "pl_flow_table (MaybeReloadFlowTable hash tsc config p) =
     fold (\<lambda>(i, key, count, action) t. fst (Flow_InsertRaw key count action (tsc i) t))
       (List.enumerate 0 (Flow_ForEachOccupied (pl_flow_table p))) (make_FlowTable hash (spi_max_concurrent_flows (cfg_spi config)))"
  using assms by (simp add: MaybeReloadFlowTable_def Let_def)

definition two_flows :: "hash_slot list FlowTable" where
  "two_flows = fst (Flow_Insert (example_key 11) 1 kForward 3 (fst (Flow_Insert (example_key 10) 1 kDrop 3 example_table)))"

definition resized_config :: DpdkConfig where
  "resized_config = sample_dpdk_config\<lparr>cfg_spi := (sample_config sample_groups)\<lparr>spi_max_concurrent_flows := 3\<rparr>\<rparr>"

text \<open>
  Resizing the flow table can exchange decisions. The migration walks over the entries by index and asks the hash for the
  key stored at the position of the same number, which belongs to another entry: here a flow to be dropped and
  a flow to be forwarded have changed places after the table has grown from two to three entries.
\<close>

theorem resize_exchanges_decisions:
  "let p = sample_pipeline\<lparr>pl_flow_table := two_flows, pl_max_concurrent_flows := 2\<rparr>;
       p' = MaybeReloadFlowTable slot_hash_ops (\<lambda>_. 9) resized_config p;
       decision = (\<lambda>key p. snd (Flow_Lookup key 9 (pl_flow_table p)))
   in decision (example_key 10) p = Some kDrop \<and> decision (example_key 11) p = Some kForward \<and>
      decision (example_key 10) p' = Some kForward \<and> decision (example_key 11) p' = Some kDrop"
proof -
  let ?p = "sample_pipeline\<lparr>pl_flow_table := two_flows, pl_max_concurrent_flows := 2\<rparr>"
  let ?new = "fold (\<lambda>(i, key, count, action) t. fst (Flow_InsertRaw key count action 9 t))
      (List.enumerate 0 (Flow_ForEachOccupied two_flows)) (make_FlowTable slot_hash_ops 3)"
  have "spi_max_concurrent_flows (cfg_spi resized_config) = 3" by (simp add: resized_config_def)
  moreover have "Flow_IsValid (make_FlowTable slot_hash_ops 3)" by code_simp
  ultimately have new: "pl_flow_table (MaybeReloadFlowTable slot_hash_ops (\<lambda>_. 9) resized_config ?p) = ?new"
    by (subst MaybeReloadFlowTable_table) simp_all
  have old: "pl_flow_table ?p = two_flows" by simp
  have "snd (Flow_Lookup (example_key 10) 9 two_flows) = Some kDrop" "snd (Flow_Lookup (example_key 11) 9 two_flows) = Some kForward"
    "snd (Flow_Lookup (example_key 10) 9 ?new) = Some kForward" "snd (Flow_Lookup (example_key 11) 9 ?new) = Some kDrop"
    by code_simp+
  then show ?thesis unfolding Let_def new old by blast
qed

section \<open>Statistics\<close>

text \<open>What the shared counters would show if every worker flushed now.\<close>

definition unflushed :: "('c, 'm, 'd, 'h, 'f, 'r) WorkerContext option \<Rightarrow> BurstCounters" where
  "unflushed context = (case context of None \<Rightarrow> no_counters | Some c \<Rightarrow> wc_pending_burst c)"

definition totals :: "('c, 'm, 'd, 'h, 'f, 'r) Pipeline \<Rightarrow> BurstCounters" where
  "totals p = foldr (\<lambda>c. add_counters (unflushed c)) (pl_worker_contexts p) (pl_counters p)"

lemma foldr_add_counters:
  "foldr (\<lambda>x. add_counters (f x)) xs (add_counters a b) = add_counters a (foldr (\<lambda>x. add_counters (f x)) xs b)"
  by (induction xs) (simp_all add: add_counters_left_commute)

lemma foldr_add_update:
  assumes "i < length xs"
  shows "add_counters (f (xs ! i)) (foldr (\<lambda>x. add_counters (f x)) (xs[i := y]) a) = add_counters (f y) (foldr (\<lambda>x. add_counters (f x)) xs a)"
  using assms
proof (induction xs arbitrary: i)
  case (Cons x xs)
  show ?case
  proof (cases i)
    case 0
    then show ?thesis by simp (rule add_counters_left_commute)
  next
    case (Suc j)
    with Cons have "add_counters (f (xs ! j)) (foldr (\<lambda>x. add_counters (f x)) (xs[j := y]) a) =
        add_counters (f y) (foldr (\<lambda>x. add_counters (f x)) xs a)" by simp
    then show ?thesis using Suc by simp (metis add_counters_left_commute)
  qed
qed simp

lemma add_counters_cancel: "add_counters a x = add_counters a y \<Longrightarrow> x = y"
  by (cases x; cases y) (simp add: add_counters_def)

text \<open>An iteration adds what it counted, whether it flushes or not.\<close>

lemma account_burst_total:
  assumes "account_burst FlushAtomicCounters burst (w, counters) = (w', counters')"
  shows "add_counters counters' (wc_pending_burst w') = add_counters burst (add_counters counters (wc_pending_burst w))"
  using assms
  by (auto simp: account_burst_def Let_def FlushAtomicCounters_def AddBurstCounters_def add_counters_ac split: if_splits)

lemma truncate_pending:
  fixes b :: "('c, 'm, 'd, 'h, 'f, 'r) Burst"
  shows "wc_pending_burst (WorkerContext.truncate b) = wc_pending_burst b"
  by (simp add: WorkerContext.truncate_def)

text \<open>The iteration itself leaves the pending counters alone.\<close>

definition keeps_pending :: "('c, 'm, 'd, 'h, 'f, 'r) Burst \<Rightarrow> ('c, 'm, 'd, 'h, 'f, 'r) Burst \<Rightarrow> bool" where
  "keeps_pending b b' \<longleftrightarrow> wc_pending_burst b' = wc_pending_burst b"

interpretation untouched: classification_steps "\<lambda>k. keeps_pending"
  by unfold_locales (auto simp: keeps_pending_def bump_def fault_def)

lemma ApplyForwardDecision_pending: "wc_pending_burst (ApplyForwardDecision ops ports packet port c b) = wc_pending_burst b"
  unfolding ApplyForwardDecision_def DropPacket_def
  by (auto simp: bump_def fault_def EnqueuePacket_def Let_def split: option.split sum.split prod.split bool.split AccessError.split)

lemma finalize_packet_pending:
  "wc_pending_burst (finalize_packet ops ports port mds keys bulk spi slot b) = wc_pending_burst b"
proof -
  have "wc_pending_burst b1 = wc_pending_burst b" if "finalize_miss ops packet md key spi b = (b1, c)" for packet md key spi b1 c
    using untouched.finalize_miss_R [OF that] by (simp add: keeps_pending_def)
  then show ?thesis
    by (auto simp: finalize_packet_def DropPacket_def bump_def Let_def ApplyForwardDecision_pending split: prod.split option.split)
qed

lemma fold_keeps: "(\<And>x b. f (g x b) = f b) \<Longrightarrow> f (fold g xs b) = f b"
  by (induction xs arbitrary: b) simp_all

lemma ProcessPortBurst_pending: "wc_pending_burst (ProcessPortBurst ops ports p packets b) = wc_pending_burst b"
  by (auto simp: ProcessPortBurst_def rte_rdtsc_def Let_def FinalizePackets_def split: prod.split
      intro!: trans [OF fold_keeps [where f = wc_pending_burst]] finalize_packet_pending)

lemma finish_pending:
  "wc_pending_burst (CleanupExpiredFragments ops b) = wc_pending_burst b"
  "wc_pending_burst (FlushTransmitBuffers ops b) = wc_pending_burst b"
  unfolding CleanupExpiredFragments_def FlushTransmitBuffers_def
  by (auto simp: Let_def flush_port_def split: option.split intro!: fold_keeps [where f = wc_pending_burst])

lemma iterate_ports_pending: "wc_pending_burst (iterate_ports ops rx b) = wc_pending_burst b"
  unfolding iterate_ports_def Let_def finish_pending by (rule fold_keeps) (rule ProcessPortBurst_pending)

lemma start_burst_pending: "wc_pending_burst (start_burst w) = wc_pending_burst w"
  by (simp add: start_burst_def Burst.defs WorkerContext.defs)

lemma ProcessWorkerIteration_total:
  assumes "ProcessWorkerIteration ops rx (w, counters) = (w', counters')"
  shows "add_counters counters' (wc_pending_burst w') =
     add_counters (b_counters (iterate_ports ops rx (start_burst w))) (add_counters counters (wc_pending_burst w))"
  using assms account_burst_total [of "b_counters (iterate_ports ops rx (start_burst w))"]
  by (fastforce simp: ProcessWorkerIteration_def Let_def truncate_pending iterate_ports_pending start_burst_pending)

text \<open>A sequence of turns, and what their iterations counted.\<close>

fun turns ::
    "('c, 'm, 'd, 'f, 'r) dpdk_ops \<Rightarrow> (nat \<times> (u16 \<Rightarrow> Mbuf list)) list \<Rightarrow> ('c, 'm, 'd, 'h, 'f, 'r) Pipeline \<Rightarrow>
       ('c, 'm, 'd, 'h, 'f, 'r) Pipeline \<times> BurstCounters" where
  "turns ops [] p = (p, no_counters)"
| "turns ops ((i, rx) # ts) p =
     (let (p', sum) = turns ops ts (WorkerLoop_turn ops rx i p);
          counted = (case pl_worker_contexts p ! i of None \<Rightarrow> no_counters
             | Some c \<Rightarrow> b_counters (iterate_ports ops rx (start_burst (attach p c))))
      in (p', add_counters counted sum))"

lemma turn_totals:
  assumes "i < length (pl_worker_contexts p)"
  shows "totals (WorkerLoop_turn ops rx i p) =
     add_counters (case pl_worker_contexts p ! i of None \<Rightarrow> no_counters
       | Some c \<Rightarrow> b_counters (iterate_ports ops rx (start_burst (attach p c)))) (totals p)"
    and "length (pl_worker_contexts (WorkerLoop_turn ops rx i p)) = length (pl_worker_contexts p)"
proof -
  let ?cs = "pl_worker_contexts p" and ?F = "\<lambda>cs. foldr (\<lambda>c. add_counters (unflushed c)) cs"
  show "totals (WorkerLoop_turn ops rx i p) =
     add_counters (case pl_worker_contexts p ! i of None \<Rightarrow> no_counters
       | Some c \<Rightarrow> b_counters (iterate_ports ops rx (start_burst (attach p c)))) (totals p)"
  proof (cases "?cs ! i")
    case None
    then show ?thesis by (simp add: WorkerLoop_turn_def)
  next
    case (Some c)
    obtain c' counters' where it: "ProcessWorkerIteration ops rx (attach p c, pl_counters p) = (c', counters')" by fastforce
    let ?burst = "b_counters (iterate_ports ops rx (start_burst (attach p c)))"
    have total: "add_counters counters' (wc_pending_burst c') = add_counters ?burst (add_counters (pl_counters p) (wc_pending_burst c))"
      using ProcessWorkerIteration_total [OF it] by (simp add: attach_def)
    have base: "?F cs a = add_counters a (?F cs no_counters)" for cs a
      using foldr_add_counters [of unflushed cs a no_counters] by simp
    have "add_counters (wc_pending_burst c) (?F (?cs[i := Some c']) no_counters) =
        add_counters (wc_pending_burst c') (?F ?cs no_counters)"
      using foldr_add_update [OF assms, of unflushed "Some c'" no_counters] Some by (simp add: unflushed_def)
    then have "add_counters (wc_pending_burst c) (?F (?cs[i := Some c']) counters') =
        add_counters (add_counters counters' (wc_pending_burst c')) (?F ?cs no_counters)"
      unfolding base [of "?cs[i := Some c']" counters'] by (metis add_counters_ac)
    also have "\<dots> = add_counters (wc_pending_burst c) (add_counters ?burst (?F ?cs (pl_counters p)))"
      unfolding total base [of ?cs "pl_counters p"] by (simp add: add_counters_ac)
    finally show ?thesis
      using Some it by (auto simp: totals_def WorkerLoop_turn_def detach_def dest: add_counters_cancel)
  qed
  show "length (pl_worker_contexts (WorkerLoop_turn ops rx i p)) = length ?cs"
    by (auto simp: WorkerLoop_turn_def detach_def split: option.split prod.split)
qed

lemma turns_totals:
  assumes "\<forall>(i, rx) \<in> set ts. i < length (pl_worker_contexts p)"
  shows "totals (fst (turns ops ts p)) = add_counters (snd (turns ops ts p)) (totals p) \<and>
    length (pl_worker_contexts (fst (turns ops ts p))) = length (pl_worker_contexts p)"
  using assms
proof (induction ts arbitrary: p)
  case (Cons t ts)
  obtain i rx where t: "t = (i, rx)" by fastforce
  have i: "i < length (pl_worker_contexts p)" using Cons.prems t by simp
  note turn = turn_totals [OF i, of ops rx]
  have "\<forall>(j, rx') \<in> set ts. j < length (pl_worker_contexts (WorkerLoop_turn ops rx i p))"
    using Cons.prems turn(2) by auto
  note IH = Cons.IH [OF this]
  define k where "k = (case pl_worker_contexts p ! i of None \<Rightarrow> no_counters
     | Some c \<Rightarrow> b_counters (iterate_ports ops rx (start_burst (attach p c))))"
  obtain p1 sum where rest: "turns ops ts (WorkerLoop_turn ops rx i p) = (p1, sum)" by fastforce
  have "totals p1 = add_counters sum (add_counters k (totals p))" "length (pl_worker_contexts p1) = length (pl_worker_contexts p)"
    using IH turn by (simp_all add: rest k_def)
  moreover have "turns ops (t # ts) p = (p1, add_counters k sum)" by (simp add: t rest k_def)
  moreover have "add_counters sum (add_counters k (totals p)) = add_counters (add_counters k sum) (totals p)"
    by (simp only: add_counters_assoc) (rule add_counters_left_commute)
  ultimately show ?case by simp
qed simp

text \<open>Draining moves what is pending into the shared counters.\<close>

lemma drain_step:
  assumes "i < length (pl_worker_contexts p)"
  shows "totals (drain FlushAtomicCounters i p) = totals p"
    and "pl_worker_contexts (drain FlushAtomicCounters i p) =
      (pl_worker_contexts p)[i := map_option (\<lambda>c. c\<lparr>wc_pending_burst := no_counters\<rparr>) (pl_worker_contexts p ! i)]"
proof -
  let ?cs = "pl_worker_contexts p" and ?F = "\<lambda>cs. foldr (\<lambda>c. add_counters (unflushed c)) cs"
  have base: "?F cs (add_counters a b) = add_counters a (?F cs b)" for cs a b by (rule foldr_add_counters)
  show "totals (drain FlushAtomicCounters i p) = totals p"
  proof (cases "?cs ! i")
    case (Some c)
    have "add_counters (wc_pending_burst c) (?F (?cs[i := Some (c\<lparr>wc_pending_burst := no_counters\<rparr>)]) (pl_counters p)) = ?F ?cs (pl_counters p)"
      using foldr_add_update [OF assms, of unflushed "Some (c\<lparr>wc_pending_burst := no_counters\<rparr>)" "pl_counters p"] Some
      by (simp add: unflushed_def)
    with Some show ?thesis
      by (simp add: totals_def drain_def FlushAtomicCounters_def add_counters_commute [of "pl_counters p"] base)
  qed (simp add: drain_def)
  show "pl_worker_contexts (drain FlushAtomicCounters i p) =
      ?cs[i := map_option (\<lambda>c. c\<lparr>wc_pending_burst := no_counters\<rparr>) (?cs ! i)]"
    by (cases "?cs ! i") (simp_all add: drain_def, metis list_update_id)
qed

lemma drain_all:
  assumes "n \<le> length (pl_worker_contexts p)"
  shows "totals (fold (drain FlushAtomicCounters) [0..<n] p) = totals p \<and>
    length (pl_worker_contexts (fold (drain FlushAtomicCounters) [0..<n] p)) = length (pl_worker_contexts p) \<and>
    (\<forall>i < n. unflushed (pl_worker_contexts (fold (drain FlushAtomicCounters) [0..<n] p) ! i) = no_counters)"
  using assms
proof (induction n)
  case (Suc n)
  let ?p = "fold (drain FlushAtomicCounters) [0..<n] p"
  from Suc have IH: "totals ?p = totals p" "length (pl_worker_contexts ?p) = length (pl_worker_contexts p)"
    "\<forall>i < n. unflushed (pl_worker_contexts ?p ! i) = no_counters" by auto
  then have n: "n < length (pl_worker_contexts ?p)" using Suc.prems by simp
  note step = drain_step [OF n]
  have "unflushed (map_option (\<lambda>c. c\<lparr>wc_pending_burst := no_counters\<rparr>) (pl_worker_contexts ?p ! n)) = no_counters"
    by (cases "pl_worker_contexts ?p ! n") (simp_all add: unflushed_def)
  with IH step n show ?case by (auto simp: nth_list_update less_Suc_eq)
qed simp

text \<open>
  C10. The statistics are exact. Over any sequence of iterations of any workers of a queue-mode pipeline, in
  whatever order, and after every worker has drained its pending counters at the end of its loop, the shared counters have
  grown by exactly what the iterations counted (and what was pending before), although each worker
  flushes only every 256 iterations.
\<close>

theorem statistics_exact:
  assumes "\<forall>(i, rx) \<in> set ts. i < length (pl_worker_contexts p)" and "turns ops ts p = (p', counted)"
  shows "CollectStats (pl_counters (fold (drain FlushAtomicCounters) [0..<length (pl_worker_contexts p')] p')) =
    add_counters counted (totals p)"
proof -
  let ?q = "fold (drain FlushAtomicCounters) [0..<length (pl_worker_contexts p')] p'"
  have "totals p' = add_counters counted (totals p)" using turns_totals [OF assms(1), of ops] assms(2) by simp
  moreover have q: "totals ?q = totals p'" "\<forall>i < length (pl_worker_contexts ?q). unflushed (pl_worker_contexts ?q ! i) = no_counters"
    using drain_all [of "length (pl_worker_contexts p')" p'] by auto
  moreover have "foldr (\<lambda>c. add_counters (unflushed c)) cs a = a" if "\<forall>c \<in> set cs. unflushed c = no_counters" for cs a
    using that by (induction cs) simp_all
  then have "totals ?q = pl_counters ?q" using q(2) by (simp add: totals_def in_set_conv_nth Ball_def) blast
  ultimately show ?thesis by (simp add: CollectStats_def)
qed

theorem statistics_exact_witness:
  "case turns sample_dpdk [(0, sample_rx), (0, sample_rx)] (sample_pipeline\<lparr>pl_worker_contexts := [Some sample_worker]\<rparr>) of
     (p', counted) \<Rightarrow>
       CollectStats (pl_counters (fold (drain FlushAtomicCounters) [0..<length (pl_worker_contexts p')] p')) =
         add_counters counted (totals (sample_pipeline\<lparr>pl_worker_contexts := [Some sample_worker]\<rparr>))"
proof -
  let ?p = "sample_pipeline\<lparr>pl_worker_contexts := [Some sample_worker]\<rparr>" and ?ts = "[(0, sample_rx), (0, sample_rx)]"
  obtain p' counted where r: "turns sample_dpdk ?ts ?p = (p', counted)" by fastforce
  have "\<forall>(i, rx) \<in> set ?ts. i < length (pl_worker_contexts ?p)" by simp
  from statistics_exact [OF this r] show ?thesis unfolding r prod.case .
qed

end
