(* ===== verification/Reload_Barrier.thy ===== *)
theory Reload_Barrier
  imports Dpdk_Prelude
begin

text \<open>
  The reload barrier (\<^verbatim>\<open>Pipeline::MaybeReload\<close>, \<^verbatim>\<open>WorkerLoop\<close> and \<^verbatim>\<open>DispatchWorkerLoop\<close> in
  \<^verbatim>\<open>spi/spi_pipeline.cpp\<close>): the main core raises a flag, waits until every worker has counted
  itself in, publishes new tables and lowers the flag. Each core runs its own statements in order; every
  access to a shared atomic is one step, and the steps of the cores interleave in any order.
  What a worker does within an iteration is one state, \<open>InIteration\<close>: there it reads the
  tables. The wait for 100 ms may end at any time.
\<close>

section \<open>The system\<close>

datatype WorkerPc =
  AtLoopHead | InIteration | AtBarrierCheck | AtQuitCheck | Pausing | Spinning | SpinQuitCheck | Unpausing | Stopped

datatype MainPc = MainLoop | WaitingForWorkers | WaitOver | Publishing | Joining | Finished

record Sys =
  reload_barrier :: bool
  workers_paused :: nat
  force_quit :: bool
  worker_force_quit :: bool
  workers :: "WorkerPc list"
  main_pc :: MainPc

definition initial :: "nat \<Rightarrow> Sys" where
  "initial n = \<lparr>reload_barrier = False, workers_paused = 0, force_quit = False, worker_force_quit = False,
     workers = replicate n AtLoopHead, main_pc = MainLoop\<rparr>"

text \<open>One step of a worker: the next statement of its loop.\<close>

definition next_pc :: "Sys \<Rightarrow> WorkerPc \<Rightarrow> WorkerPc" where
  "next_pc s pc = (case pc of
     AtLoopHead \<Rightarrow> if worker_force_quit s then Stopped else InIteration
   | InIteration \<Rightarrow> AtBarrierCheck
   | AtBarrierCheck \<Rightarrow> if reload_barrier s then AtQuitCheck else AtLoopHead
   | AtQuitCheck \<Rightarrow> if worker_force_quit s then AtLoopHead else Pausing
   | Pausing \<Rightarrow> Spinning
   | Spinning \<Rightarrow> if reload_barrier s then SpinQuitCheck else Unpausing
   | SpinQuitCheck \<Rightarrow> if worker_force_quit s then Unpausing else Spinning
   | Unpausing \<Rightarrow> AtLoopHead
   | Stopped \<Rightarrow> Stopped)"

definition worker_step :: "nat \<Rightarrow> Sys \<Rightarrow> Sys" where
  "worker_step i s =
     (let pc = workers s ! i
      in s\<lparr>workers := (workers s)[i := next_pc s pc],
           workers_paused := (if pc = Pausing then workers_paused s + 1
                              else if pc = Unpausing then workers_paused s - 1 else workers_paused s)\<rparr>)"

text \<open>
  The main core. A reload that fails before the barrier is raised changes nothing here. \<open>Raise\<close>: the
  barrier goes up; with a single worker there is no wait. \<open>AllPaused\<close>, \<open>SeeQuit\<close> and \<open>TimeOut\<close>: the three ways out of the
  wait. \<open>Decide\<close>: cancel or publish. \<open>Release\<close>: the tables are published, the barrier goes
  down. \<open>Stop\<close> and \<open>Join\<close>: \<^verbatim>\<open>StopWorkers\<close>. \<open>Signal\<close> is the signal handler.
\<close>

datatype Event = Worker nat | Signal | Raise | AllPaused | SeeQuit | TimeOut | Decide | Release | Stop | Join

definition enabled :: "Event \<Rightarrow> Sys \<Rightarrow> bool" where
  "enabled e s = (case e of
     Worker i \<Rightarrow> i < length (workers s) \<and> workers s ! i \<noteq> Stopped
   | Signal \<Rightarrow> True
   | Raise \<Rightarrow> main_pc s = MainLoop
   | AllPaused \<Rightarrow> main_pc s = WaitingForWorkers \<and> length (workers s) \<le> workers_paused s
   | SeeQuit \<Rightarrow> main_pc s = WaitingForWorkers \<and> force_quit s
   | TimeOut \<Rightarrow> main_pc s = WaitingForWorkers
   | Decide \<Rightarrow> main_pc s = WaitOver
   | Release \<Rightarrow> main_pc s = Publishing
   | Stop \<Rightarrow> main_pc s = MainLoop \<and> force_quit s
   | Join \<Rightarrow> main_pc s = Joining \<and> (\<forall>pc \<in> set (workers s). pc = Stopped))"

definition perform :: "Event \<Rightarrow> Sys \<Rightarrow> Sys" where
  "perform e s = (case e of
     Worker i \<Rightarrow> worker_step i s
   | Signal \<Rightarrow> s\<lparr>force_quit := True\<rparr>
   | Raise \<Rightarrow> s\<lparr>reload_barrier := True, main_pc := (if 1 < length (workers s) then WaitingForWorkers else WaitOver)\<rparr>
   | AllPaused \<Rightarrow> s\<lparr>main_pc := WaitOver\<rparr>
   | SeeQuit \<Rightarrow> s\<lparr>main_pc := WaitOver\<rparr>
   | TimeOut \<Rightarrow> s\<lparr>reload_barrier := False, main_pc := MainLoop\<rparr>
   | Decide \<Rightarrow> if force_quit s then s\<lparr>reload_barrier := False, main_pc := MainLoop\<rparr> else s\<lparr>main_pc := Publishing\<rparr>
   | Release \<Rightarrow> s\<lparr>reload_barrier := False, main_pc := MainLoop\<rparr>
   | Stop \<Rightarrow> s\<lparr>worker_force_quit := True, main_pc := Joining\<rparr>
   | Join \<Rightarrow> s\<lparr>main_pc := Finished\<rparr>)"

inductive sys_step :: "Event \<Rightarrow> Sys \<Rightarrow> Sys \<Rightarrow> bool" where
  "enabled e s \<Longrightarrow> sys_step e s (perform e s)"

text \<open>
  Runs. \<open>prompt\<close> tells whether every worker has counted itself out again before the next
  reload begins.
\<close>

inductive reachable :: "bool \<Rightarrow> nat \<Rightarrow> Sys \<Rightarrow> bool" for prompt n where
  start: "reachable prompt n (initial n)"
| step: "reachable prompt n s \<Longrightarrow> sys_step e s s' \<Longrightarrow> (prompt \<Longrightarrow> e = Raise \<Longrightarrow> workers_paused s = 0) \<Longrightarrow>
    reachable prompt n s'"

inductive_simps sys_step_iff: "sys_step e s s'"

section \<open>Counting\<close>

definition counted :: "WorkerPc \<Rightarrow> bool" where
  "counted pc \<longleftrightarrow> pc \<in> {Spinning, SpinQuitCheck, Unpausing}"

text \<open>The invariant of every run: the counter counts, and the quit flag of the workers goes up last.\<close>

definition sys_ok :: "nat \<Rightarrow> Sys \<Rightarrow> bool" where
  "sys_ok n s \<longleftrightarrow> length (workers s) = n \<and> workers_paused s = length (filter counted (workers s)) \<and>
     (worker_force_quit s \<longrightarrow> main_pc s \<in> {Joining, Finished}) \<and> (\<not> worker_force_quit s \<longrightarrow> Stopped \<notin> set (workers s)) \<and>
     (main_pc s \<in> {WaitingForWorkers, WaitOver, Publishing} \<longrightarrow> reload_barrier s)"

text \<open>The invariant of prompt runs: under the barrier nobody leaves, and when it is passed all are in.\<close>

definition quiet_ok :: "Sys \<Rightarrow> bool" where
  "quiet_ok s \<longleftrightarrow> (reload_barrier s \<and> \<not> worker_force_quit s \<longrightarrow> Unpausing \<notin> set (workers s)) \<and>
     (1 < length (workers s) \<and> (main_pc s = Publishing \<or> main_pc s = WaitOver \<and> \<not> force_quit s) \<longrightarrow>
        list_all counted (workers s))"

lemma filter_update_count:
  assumes "i < length xs"
  shows "length (filter P (xs[i := y])) + (if P (xs ! i) then 1 else 0) = length (filter P xs) + (if P y then 1 else 0)"
  using assms
proof (induction xs arbitrary: i)
  case (Cons x xs)
  then show ?case by (cases i) auto
qed simp

lemma counted_step:
  "counted (next_pc s pc) \<longleftrightarrow> (counted pc \<or> pc = Pausing) \<and> pc \<noteq> Unpausing"
  by (cases pc) (auto simp: counted_def next_pc_def)

lemma worker_step_ok:
  assumes "sys_ok n s" and "i < n"
  shows "sys_ok n (worker_step i s)"
proof -
  let ?pc = "workers s ! i"
  have len: "length (workers s) = n" and count: "workers_paused s = length (filter counted (workers s))"
    using assms(1) by (simp_all add: sys_ok_def)
  have "length (filter counted ((workers s)[i := next_pc s ?pc])) + (if counted ?pc then 1 else 0) =
      length (filter counted (workers s)) + (if counted (next_pc s ?pc) then 1 else 0)"
    using assms(2) len by (intro filter_update_count) simp
  moreover have "\<not> counted Pausing" "counted Unpausing" by (simp_all add: counted_def)
  ultimately have "workers_paused (worker_step i s) = length (filter counted (workers (worker_step i s)))"
    by (auto simp: worker_step_def Let_def count counted_step split: if_splits)
  moreover have "Stopped \<notin> set (workers (worker_step i s))" if "\<not> worker_force_quit s"
  proof -
    have old: "Stopped \<notin> set (workers s)" using assms(1) that by (simp add: sys_ok_def)
    then have "?pc \<noteq> Stopped" using assms(2) len nth_mem by metis
    then have "next_pc s ?pc \<noteq> Stopped" using that by (cases ?pc) (simp_all add: next_pc_def)
    then show ?thesis using old set_update_subset_insert [of "workers s" i "next_pc s ?pc"] by (auto simp: worker_step_def Let_def)
  qed
  ultimately show ?thesis using assms(1) by (simp add: sys_ok_def worker_step_def Let_def)
qed

lemma reachable_ok: "reachable prompt n s \<Longrightarrow> sys_ok n s"
proof (induction rule: reachable.induct)
  case start
  then show ?case by (simp add: sys_ok_def initial_def counted_def)
next
  case (step s e s')
  then have "enabled e s" "s' = perform e s" by (simp_all add: sys_step_iff)
  with step.IH show ?case
  proof (cases e)
    case (Worker i)
    with step.IH \<open>enabled e s\<close> \<open>s' = perform e s\<close> show ?thesis
      using worker_step_ok [of n s i] by (simp add: enabled_def perform_def sys_ok_def)
  qed (simp_all add: enabled_def perform_def sys_ok_def)
qed

lemma all_counted:
  assumes "sys_ok n s" and "n \<le> workers_paused s"
  shows "list_all counted (workers s)"
proof -
  have "length (filter counted (workers s)) = length (workers s)"
    using assms length_filter_le [of counted "workers s"] by (simp add: sys_ok_def)
  then show ?thesis by (metis Ball_set length_filter_less less_irrefl)
qed

lemma none_counted: "sys_ok n s \<Longrightarrow> workers_paused s = 0 \<Longrightarrow> Unpausing \<notin> set (workers s)"
  by (auto simp: sys_ok_def filter_empty_conv counted_def)

text \<open>Under the barrier, nobody who is in leaves.\<close>

lemma worker_step_quiet:
  assumes "reload_barrier s" and "\<not> worker_force_quit s" and "Unpausing \<notin> set (workers s)" and "i < length (workers s)"
  shows "Unpausing \<notin> set (workers (worker_step i s))"
    and "list_all counted (workers s) \<Longrightarrow> list_all counted (workers (worker_step i s))"
proof -
  let ?pc = "workers s ! i"
  have pc: "?pc \<noteq> Unpausing" using assms(3,4) nth_mem by metis
  then have "next_pc s ?pc \<noteq> Unpausing" using assms(1,2) by (cases ?pc) (simp_all add: next_pc_def)
  then show "Unpausing \<notin> set (workers (worker_step i s))"
    using assms(3) set_update_subset_insert [of "workers s" i "next_pc s ?pc"] by (auto simp: worker_step_def Let_def)
  show "list_all counted (workers (worker_step i s))" if "list_all counted (workers s)"
  proof -
    have "counted (next_pc s ?pc)" using that assms(4) pc by (simp add: counted_step list_all_length)
    then have "\<forall>pc \<in> set ((workers s)[i := next_pc s ?pc]). counted pc"
      using that set_update_subset_insert [of "workers s" i "next_pc s ?pc"] by (auto simp: list_all_iff)
    then show ?thesis by (simp add: worker_step_def Let_def list_all_iff)
  qed
qed

lemma reachable_quiet: "reachable True n s \<Longrightarrow> quiet_ok s"
proof (induction rule: reachable.induct)
  case start
  then show ?case by (simp add: quiet_ok_def initial_def)
next
  case (step s e s')
  then have e: "enabled e s" "s' = perform e s" by (simp_all add: sys_step_iff)
  have ok: "sys_ok n s" using step.hyps(1) by (rule reachable_ok)
  show ?case
  proof (cases e)
    case (Worker i)
    then have i: "i < length (workers s)" and s': "s' = worker_step i s" using e by (simp_all add: enabled_def perform_def)
    have same: "reload_barrier s' = reload_barrier s" "worker_force_quit s' = worker_force_quit s" "main_pc s' = main_pc s"
        "force_quit s' = force_quit s" "length (workers s') = length (workers s)"
      by (simp_all add: s' worker_step_def Let_def)
    have "main_pc s = Publishing \<or> main_pc s = WaitOver \<Longrightarrow> reload_barrier s \<and> \<not> worker_force_quit s"
      using ok by (auto simp: sys_ok_def)
    with step.IH worker_step_quiet [OF _ _ _ i] show ?thesis unfolding quiet_ok_def same unfolding s' by blast
  next
    case Raise
    then have "Unpausing \<notin> set (workers s)" using none_counted [OF ok] step.hyps(3) by simp
    then show ?thesis using Raise e by (simp add: quiet_ok_def perform_def)
  next
    case AllPaused
    with e have "list_all counted (workers s)" using ok by (intro all_counted [OF ok]) (simp add: enabled_def sys_ok_def)
    with AllPaused e step.IH show ?thesis by (simp add: quiet_ok_def perform_def)
  qed (use e step.IH in \<open>auto simp: quiet_ok_def perform_def enabled_def\<close>)
qed

text \<open>
  C7. Tables are published only while every worker waits. With at least two workers, and provided every
  worker has counted itself out of the previous reload when the next one begins, in every
  interleaving: while the main core publishes the new tables, each worker spins in its pause loop, and none is
  processing packets.
\<close>

theorem tables_published_under_quiescence:
  assumes "reachable True n s" and "1 < n" and "main_pc s = Publishing"
  shows "workers_paused s = n \<and> (\<forall>i < n. workers s ! i = Spinning \<or> workers s ! i = SpinQuitCheck)"
proof -
  have ok: "sys_ok n s" "quiet_ok s" using assms(1) by (rule reachable_ok, rule reachable_quiet)
  then have "list_all counted (workers s)" "Unpausing \<notin> set (workers s)"
    using assms(2,3) by (auto simp: quiet_ok_def sys_ok_def)
  moreover from this(1) have "length (filter counted (workers s)) = length (workers s)"
    by (metis filter_True Ball_set)
  ultimately show ?thesis using ok(1) by (auto simp: sys_ok_def list_all_length counted_def in_set_conv_nth)
qed

text \<open>Schedules, to follow a run step by step.\<close>

fun run :: "bool \<Rightarrow> Event list \<Rightarrow> Sys \<Rightarrow> Sys option" where
  "run prompt [] s = Some s"
| "run prompt (e # es) s =
     (if enabled e s \<and> (prompt \<and> e = Raise \<longrightarrow> workers_paused s = 0) then run prompt es (perform e s) else None)"

lemma run_reachable:
  assumes "reachable prompt n s" and "run prompt es s = Some s'"
  shows "reachable prompt n s'"
  using assms
proof (induction es arbitrary: s)
  case (Cons e es)
  then have e: "enabled e s" "prompt \<Longrightarrow> e = Raise \<Longrightarrow> workers_paused s = 0" "run prompt es (perform e s) = Some s'"
    by (auto split: if_splits)
  have "reachable prompt n (perform e s)"
    using Cons.prems(1) sys_step.intros [OF e(1)] e(2) by (rule reachable.step)
  with e(3) show ?case by (intro Cons.IH)
qed simp

definition pause_schedule :: "nat \<Rightarrow> Event list" where
  "pause_schedule i = replicate 6 (Worker i)"

theorem tables_published_under_quiescence_witness:
  "case run True ([Raise] @ pause_schedule 0 @ pause_schedule 1 @ [AllPaused, Decide]) (initial 2) of
     None \<Rightarrow> False | Some s \<Rightarrow> main_pc s = Publishing \<and> workers_paused s = 2"
proof -
  let ?r = "run True ([Raise] @ pause_schedule 0 @ pause_schedule 1 @ [AllPaused, Decide]) (initial 2)"
  have "map_option main_pc ?r = Some Publishing" by code_simp
  then obtain s where s: "?r = Some s" "main_pc s = Publishing" by auto
  have "reachable True 2 s" using reachable.start s(1) by (rule run_reachable)
  from tables_published_under_quiescence [OF this _ s(2)] s show ?thesis by simp
qed

text \<open>
  C35. The barrier can be passed too early. A worker that has seen the barrier lowered but has not yet counted
  itself out still counts as paused for the next reload, and with a single worker the main core does not wait at all: in
  both cases the tables are published while a worker is processing packets.
\<close>

theorem publish_during_iteration:
  "(\<exists>s. reachable False 2 s \<and> main_pc s = Publishing \<and> workers s ! 0 = InIteration) \<and>
   (\<exists>s. reachable True 1 s \<and> main_pc s = Publishing \<and> workers s ! 0 = InIteration)"
proof -
  let ?straggler = "[Raise] @ pause_schedule 0 @ pause_schedule 1 @ [AllPaused, Decide, Release, Worker 0, Worker 0, Raise,
      AllPaused, Decide, Worker 0, Worker 0]"
  have "map_option (\<lambda>s. (main_pc s, workers s ! 0)) (run False ?straggler (initial 2)) = Some (Publishing, InIteration)"
    by code_simp
  moreover have "map_option (\<lambda>s. (main_pc s, workers s ! 0)) (run True [Raise, Worker 0, Decide] (initial 1)) =
      Some (Publishing, InIteration)" by code_simp
  ultimately show ?thesis using run_reachable [OF reachable.start] by (fastforce)
qed

section \<open>Progress\<close>

text \<open>How many steps of its own a worker needs at most until it is paused, under the barrier.\<close>

definition pause_rank :: "WorkerPc \<Rightarrow> nat" where
  "pause_rank pc = (case pc of Unpausing \<Rightarrow> 6 | AtLoopHead \<Rightarrow> 5 | InIteration \<Rightarrow> 4 | AtBarrierCheck \<Rightarrow> 3 | AtQuitCheck \<Rightarrow> 2
     | Pausing \<Rightarrow> 1 | _ \<Rightarrow> 0)"

lemma worker_steps_pause:
  assumes "sys_ok n s" and "reload_barrier s" and "\<not> worker_force_quit s" and "set is \<subseteq> {..<n}" and "i < n"
  shows "sys_ok n (fold worker_step is s) \<and> \<not> worker_force_quit (fold worker_step is s) \<and>
     pause_rank (workers (fold worker_step is s) ! i) \<le> pause_rank (workers s ! i) - count_list is i"
  using assms
proof (induction "is" arbitrary: s)
  case (Cons j "is")
  let ?s = "worker_step j s"
  have j: "j < n" "length (workers s) = n" using Cons.prems(1,4) by (simp_all add: sys_ok_def)
  have "?s = s\<lparr>workers := workers ?s, workers_paused := workers_paused ?s\<rparr>" by (simp add: worker_step_def Let_def)
  then have flags: "reload_barrier ?s" "\<not> worker_force_quit ?s" using Cons.prems(2,3) by (metis Sys.simps(1,2,4) Sys.surjective Sys.update_convs)+
  have "pause_rank (workers ?s ! i) \<le> pause_rank (workers s ! i) - (if i = j then 1 else 0)"
  proof (cases "i = j")
    case True
    then show ?thesis using j Cons.prems(2,3)
      by (cases "workers s ! i") (simp_all add: worker_step_def Let_def pause_rank_def next_pc_def)
  qed (simp add: worker_step_def Let_def)
  moreover have "sys_ok n ?s" using Cons.prems(1) j(1) by (rule worker_step_ok)
  ultimately show ?case using Cons.IH [of ?s] Cons.prems(4,5) flags by auto
qed simp

text \<open>
  C11. The wait ends. Once the barrier is up and nobody is asked to quit, six steps of each worker suffice, in
  any interleaving, for the counter to reach the number of workers; so the main core times out only if some worker
  does not get to run that far.
\<close>

theorem barrier_quiesces:
  assumes "reachable prompt n s" and "reload_barrier s" and "\<not> worker_force_quit s"
    and "set is \<subseteq> {..<n}" and "\<forall>i < n. 6 \<le> count_list is i"
  shows "workers_paused (fold worker_step is s) = n"
proof -
  let ?s = "fold worker_step is s"
  have ok: "sys_ok n s" using assms(1) by (rule reachable_ok)
  show ?thesis
  proof (cases "n = 0")
    case True
    with ok assms(4) show ?thesis by (auto simp: sys_ok_def)
  next
    case False
    note each = worker_steps_pause [OF ok assms(2,3,4)]
    have s: "sys_ok n ?s" "\<not> worker_force_quit ?s" using each [of 0] False by simp_all
    have "counted (workers ?s ! i)" if "i < n" for i
    proof -
      have "pause_rank (workers s ! i) \<le> 6" by (cases "workers s ! i") (simp_all add: pause_rank_def)
      with each [OF that] assms(5) that have "pause_rank (workers ?s ! i) = 0" by fastforce
      moreover have "workers ?s ! i \<noteq> Stopped" using s that unfolding sys_ok_def by (metis nth_mem)
      ultimately show ?thesis by (cases "workers ?s ! i") (simp_all add: pause_rank_def counted_def)
    qed
    then have "filter counted (workers ?s) = workers ?s"
      using s(1) by (auto simp: sys_ok_def filter_id_conv in_set_conv_nth)
    with s(1) show ?thesis by (simp add: sys_ok_def)
  qed
qed

theorem barrier_quiesces_witness:
  "workers_paused (fold worker_step (concat (replicate 6 [1, 0])) (perform Raise (initial 2))) = 2"
proof (rule barrier_quiesces)
  show "reachable False 2 (perform Raise (initial 2))"
    by (rule run_reachable [OF reachable.start, of False "[Raise]"]) (simp add: enabled_def initial_def)
  show "\<forall>i < (2 :: nat). 6 \<le> count_list (concat (replicate 6 [1, 0])) i"
    by (auto simp: numeral_eq_Suc less_Suc_eq)
qed (auto simp: perform_def initial_def eval_nat_numeral)

text \<open>How many steps a worker takes at most until it stops, once it is asked to.\<close>

definition stop_rank :: "WorkerPc \<Rightarrow> nat" where
  "stop_rank pc = (case pc of Stopped \<Rightarrow> 0 | AtLoopHead \<Rightarrow> 1 | Unpausing \<Rightarrow> 2 | AtQuitCheck \<Rightarrow> 2 | SpinQuitCheck \<Rightarrow> 3
     | AtBarrierCheck \<Rightarrow> 3 | Spinning \<Rightarrow> 4 | InIteration \<Rightarrow> 4 | Pausing \<Rightarrow> 5)"

definition is_worker :: "Event \<Rightarrow> bool" where
  "is_worker e = (case e of Worker i \<Rightarrow> True | _ \<Rightarrow> False)"

lemma sum_list_update_less:
  fixes xs :: "nat list"
  shows "i < length xs \<Longrightarrow> y < xs ! i \<Longrightarrow> Suc (sum_list (xs[i := y])) \<le> sum_list xs"
  using elem_le_sum_list [of i xs] by (simp add: sum_list_update)

lemma perform_stop_rank:
  assumes "worker_force_quit s" and "enabled e s"
  shows "worker_force_quit (perform e s) \<and> sum_list (map stop_rank (workers (perform e s))) + (if is_worker e then 1 else 0)
     \<le> sum_list (map stop_rank (workers s))"
proof (cases e)
  case (Worker i)
  with assms(2) have i: "i < length (workers s)" "workers s ! i \<noteq> Stopped" by (simp_all add: enabled_def)
  then have "stop_rank (next_pc s (workers s ! i)) < map stop_rank (workers s) ! i"
    using assms(1) by (cases "workers s ! i") (simp_all add: stop_rank_def next_pc_def)
  with i sum_list_update_less [of i "map stop_rank (workers s)"] assms(1) Worker show ?thesis
    by (simp add: perform_def worker_step_def Let_def map_update is_worker_def)
qed (use assms in \<open>simp_all add: perform_def is_worker_def\<close>)

lemma run_stop_rank:
  assumes "worker_force_quit s" and "run prompt es s = Some s'"
  shows "sum_list (map stop_rank (workers s')) + length (filter is_worker es) \<le> sum_list (map stop_rank (workers s))"
  using assms
proof (induction es arbitrary: s)
  case (Cons e es)
  then have e: "enabled e s" "run prompt es (perform e s) = Some s'" by (auto split: if_splits)
  from perform_stop_rank [OF Cons.prems(1) e(1)] Cons.IH [OF _ e(2)] show ?case by (auto split: if_splits)
qed simp

text \<open>
  C12. The workers stop. Once they are asked to quit, no run contains more than five steps per worker, wherever
  they were, in the pause loop or out of it, and when none can take a step all have left
  their loops; so \<^verbatim>\<open>StopWorkers\<close> returns.
\<close>

theorem workers_stop:
  assumes "worker_force_quit s" and "run prompt es s = Some s'"
  shows "length (filter is_worker es) \<le> 5 * length (workers s) \<and>
    ((\<exists>i. enabled (Worker i) s') \<or> (\<forall>pc \<in> set (workers s'). pc = Stopped))"
proof -
  have "stop_rank pc \<le> 5" for pc by (cases pc) (simp_all add: stop_rank_def)
  then have "sum_list (map stop_rank (workers s)) \<le> sum_list (map (\<lambda>_. 5) (workers s))" by (intro sum_list_mono) simp
  then have "sum_list (map stop_rank (workers s)) \<le> 5 * length (workers s)" by (simp add: sum_list_triv)
  with run_stop_rank [OF assms] have "length (filter is_worker es) \<le> 5 * length (workers s)" by linarith
  moreover have "(\<exists>i. enabled (Worker i) s') \<or> (\<forall>pc \<in> set (workers s'). pc = Stopped)"
    by (auto simp: enabled_def in_set_conv_nth)
  ultimately show ?thesis by blast
qed

theorem workers_stop_witness:
  "let s = (initial 2)\<lparr>worker_force_quit := True, main_pc := Joining, reload_barrier := True, workers := [Pausing, InIteration]\<rparr>;
       es = replicate 5 (Worker 0) @ replicate 4 (Worker 1) @ [Join]
   in map_option main_pc (run False es s) = Some Finished \<and> length (filter is_worker es) \<le> 5 * length (workers s)"
proof -
  let ?s = "(initial 2)\<lparr>worker_force_quit := True, main_pc := Joining, reload_barrier := True, workers := [Pausing, InIteration]\<rparr>"
  let ?es = "replicate 5 (Worker 0) @ replicate 4 (Worker 1) @ [Join]"
  have fin: "map_option main_pc (run False ?es ?s) = Some Finished" by code_simp
  then obtain s' where "run False ?es ?s = Some s'" by auto
  from workers_stop [OF _ this] fin show ?thesis unfolding Let_def by simp
qed

end
