(* ===== verification/Pipeline_Dispatch.thy ===== *)
theory Pipeline_Dispatch
  imports Pipeline_Sample "HOL-Library.Sublist"
begin

text \<open>
  The dispatcher on the main core of a flow-hash pipeline (\<^verbatim>\<open>ProcessDispatchIteration\<close> in
  \<^verbatim>\<open>spi/spi_pipeline.cpp\<close>): what arrives in which ring, in which order, and that nothing is lost without being
  counted.
\<close>

section \<open>Rings\<close>

text \<open>
  \<^verbatim>\<open>rte_ring_enqueue\<close> puts a packet at the end of the ring or refuses it; \<open>contents\<close> is what a ring holds.
\<close>

definition ring_contract :: "('r \<Rightarrow> Mbuf \<Rightarrow> 'r option) \<Rightarrow> ('r \<Rightarrow> Mbuf list) \<Rightarrow> bool" where
  "ring_contract enqueue contents =
     (\<forall>ring m ring'. enqueue ring m = Some ring' \<longrightarrow> contents ring' = contents ring @ [m])"

definition queued :: "('r \<Rightarrow> Mbuf list) \<Rightarrow> 'r list \<Rightarrow> nat" where
  "queued contents rings = (\<Sum>ring\<leftarrow>rings. length (contents ring))"

lemma queued_update:
  assumes "w < length rings" and "contents ring = contents (rings ! w) @ [m]"
  shows "queued contents (rings[w := ring]) = Suc (queued contents rings)"
proof -
  have split: "rings = take w rings @ rings ! w # drop (Suc w) rings" using assms(1) by (rule id_take_nth_drop)
  have "queued contents (rings[w := ring]) =
      queued contents (take w rings) + length (contents ring) + queued contents (drop (Suc w) rings)"
    using assms(1) by (simp add: upd_conv_take_nth_drop queued_def)
  also have "\<dots> = Suc (queued contents (take w rings @ rings ! w # drop (Suc w) rings))"
    by (simp add: assms(2) queued_def)
  finally show ?thesis using split by simp
qed

section \<open>What a dispatcher does\<close>

text \<open>The packets that belong to a worker, each stamped with the port it was received on.\<close>

definition packets_for :: "'f pkt_ops \<Rightarrow> nat \<Rightarrow> nat \<Rightarrow> Mbuf list \<Rightarrow> Mbuf list" where
  "packets_for ops n w ms = filter (\<lambda>m. target_worker ops m (mb_port m) n = w) ms"

definition delivered ::
    "('c, 'm, 'd, 'f, 'r) dpdk_ops \<Rightarrow> ('r \<Rightarrow> Mbuf list) \<Rightarrow> Mbuf list \<Rightarrow> 'r list \<times> BurstCounters \<Rightarrow> 'r list \<times> BurstCounters \<Rightarrow> bool" where
  "delivered ops contents ms = (\<lambda>(rings, c) (rings', c').
     length rings' = length rings \<and>
     (\<forall>w < length rings. \<exists>new. contents (rings' ! w) = contents (rings ! w) @ new \<and>
        subseq new (packets_for (dpdk_pkt ops) (length rings) w ms)) \<and>
     of_nat (queued contents rings') + c_dropped c' = of_nat (queued contents rings) + c_dropped c + of_nat (length ms))"

lemma delivered_iff:
  "delivered ops contents ms (rings, c) (rings', c') \<longleftrightarrow> length rings' = length rings \<and>
     (\<forall>w < length rings. \<exists>new. contents (rings' ! w) = contents (rings ! w) @ new \<and>
        subseq new (packets_for (dpdk_pkt ops) (length rings) w ms)) \<and>
     of_nat (queued contents rings') + c_dropped c' = of_nat (queued contents rings) + c_dropped c + of_nat (length ms)"
  by (simp add: delivered_def)

lemma delivered_refl: "delivered ops contents [] s s"
  by (cases s) (simp add: delivered_def)

lemma delivered_trans:
  assumes "delivered ops contents ms s s'" and "delivered ops contents ms' s' s''"
  shows "delivered ops contents (ms @ ms') s s''"
proof -
  obtain rings c rings' c' rings'' c'' where s: "s = (rings, c)" "s' = (rings', c')" "s'' = (rings'', c'')"
    by (metis surj_pair)
  have len: "length rings' = length rings" using assms(1) by (simp add: s delivered_def)
  have "\<exists>new. contents (rings'' ! w) = contents (rings ! w) @ new \<and>
      subseq new (packets_for (dpdk_pkt ops) (length rings) w (ms @ ms'))" if w: "w < length rings" for w
  proof -
    obtain a where a: "contents (rings' ! w) = contents (rings ! w) @ a" "subseq a (packets_for (dpdk_pkt ops) (length rings) w ms)"
      using assms(1) w unfolding s delivered_iff by blast
    moreover obtain b where "contents (rings'' ! w) = contents (rings' ! w) @ b"
      "subseq b (packets_for (dpdk_pkt ops) (length rings) w ms')"
      using assms(2) w len unfolding s delivered_iff by metis
    ultimately show ?thesis by (intro exI [of _ "a @ b"]) (simp add: packets_for_def list_emb_append_mono)
  qed
  then show ?thesis using assms by (simp add: s delivered_def len algebra_simps)
qed

lemma DispatchPacketToWorker_delivers:
  assumes "ring_contract (dpdk_ring_enqueue ops) contents" and "rings \<noteq> []"
  shows "delivered ops contents [m\<lparr>mb_port := port\<rparr>] (rings, c) (DispatchPacketToWorker ops port m (rings, c))"
proof -
  let ?m = "m\<lparr>mb_port := port\<rparr>"
  let ?w = "target_worker (dpdk_pkt ops) ?m port (length rings)"
  have w: "?w < length rings" using assms(2) by (simp add: target_worker_def)
  show ?thesis
  proof (cases "dpdk_ring_enqueue ops (rings ! ?w) ?m")
    case None
    then show ?thesis by (simp add: DispatchPacketToWorker_def delivered_def Let_def)
  next
    case (Some ring)
    then have ring: "contents ring = contents (rings ! ?w) @ [?m]" using assms(1) by (auto simp: ring_contract_def)
    show ?thesis using Some w ring queued_update [of ?w rings contents ring ?m, OF w ring]
      by (auto simp: DispatchPacketToWorker_def delivered_def Let_def packets_for_def nth_list_update)
  qed
qed

lemma DispatchPacketToWorker_received [simp]:
  "c_received (snd (DispatchPacketToWorker ops port m s)) = c_received (snd s)"
  by (auto simp: DispatchPacketToWorker_def Let_def split: prod.splits option.splits)

lemma fold_DispatchPacketToWorker:
  assumes "ring_contract (dpdk_ring_enqueue ops) contents" and "fst s \<noteq> []"
  shows "delivered ops contents (map (mb_port_update (\<lambda>_. port)) ms) s (fold (DispatchPacketToWorker ops port) ms s) \<and>
    c_received (snd (fold (DispatchPacketToWorker ops port) ms s)) = c_received (snd s)"
  using assms(2)
proof (induction ms arbitrary: s)
  case Nil
  then show ?case by (simp add: delivered_refl)
next
  case (Cons m ms)
  let ?s = "DispatchPacketToWorker ops port m s"
  have step: "delivered ops contents [m\<lparr>mb_port := port\<rparr>] s ?s"
    using DispatchPacketToWorker_delivers [OF assms(1) Cons.prems, where c = "snd s"] by simp
  then have "fst ?s \<noteq> []" using Cons.prems by (cases s; cases ?s) (auto simp: delivered_def)
  from Cons.IH [OF this] delivered_trans [OF step] show ?case by auto
qed

text \<open>What arrives in one iteration, queue by queue.\<close>

definition arrivals :: "Environment \<Rightarrow> (u16 \<Rightarrow> nat \<Rightarrow> Mbuf list) \<Rightarrow> Mbuf list" where
  "arrivals environment rx = concat (map (\<lambda>(port_id, queue_id). map (mb_port_update (\<lambda>_. port_id)) (rx port_id queue_id))
     (List.product (env_active_ports environment) [0..<unat (GetReceiveQueueCount environment)]))"

lemma fold_DispatchPortQueueBurst:
  assumes "ring_contract (dpdk_ring_enqueue ops) contents" and "fst s \<noteq> []"
  shows "let s' = fold (\<lambda>(port_id, queue_id). DispatchPortQueueBurst ops port_id (rx port_id queue_id)) qs s;
             ms = concat (map (\<lambda>(port_id, queue_id). map (mb_port_update (\<lambda>_. port_id)) (rx port_id queue_id)) qs)
         in delivered ops contents ms s s' \<and> c_received (snd s') = c_received (snd s) + of_nat (length ms)"
  using assms(2)
proof (induction qs arbitrary: s)
  case Nil
  then show ?case by (simp add: delivered_refl)
next
  case (Cons q qs)
  obtain port queue where q: "q = (port, queue)" by fastforce
  obtain rings c where s: "s = (rings, c)" by fastforce
  let ?ms = "map (mb_port_update (\<lambda>_. port)) (rx port queue)"
  let ?c = "c\<lparr>c_received := c_received c + of_nat (length (rx port queue))\<rparr>"
  let ?s = "DispatchPortQueueBurst ops port (rx port queue) s"
  have eq: "?s = fold (DispatchPacketToWorker ops port) (rx port queue) (rings, ?c)"
    by (simp add: DispatchPortQueueBurst_def s)
  have "fst (rings, ?c) \<noteq> []" using Cons.prems by (simp add: s)
  from fold_DispatchPacketToWorker [OF assms(1) this, of port "rx port queue"]
  have burst: "delivered ops contents ?ms (rings, ?c) ?s" "c_received (snd ?s) = c_received ?c"
    unfolding eq by simp_all
  then have step: "delivered ops contents ?ms s ?s" by (simp add: s delivered_def split: prod.splits)
  then have "fst ?s \<noteq> []" using Cons.prems by (cases s; cases ?s) (auto simp: delivered_def)
  from Cons.IH [OF this] delivered_trans [OF step] burst(2) show ?case by (auto simp: q s Let_def algebra_simps)
qed

section \<open>One iteration\<close>

lemma no_counters_zero: "c_received no_counters = 0" "c_dropped no_counters = 0"
  by (simp_all add: no_counters_def)

text \<open>
  C27. The dispatcher keeps flows together and in order. In one iteration every packet that arrives on an active
  port goes to the ring of the worker that the hash of its flow chooses, behind the packets that came
  before it, or is dropped and counted when that ring is full; nothing else happens to the rings. So all packets
  with the same hash reach the same worker in the order of arrival.
\<close>

theorem dispatcher_keeps_flows_in_order:
  assumes "ring_contract (dpdk_ring_enqueue ops) contents" and "rings \<noteq> []"
    and "ProcessDispatchIteration ops environment rx rings counters = (rings', counters')"
  shows "length rings' = length rings \<and>
    (\<forall>w < length rings. \<exists>new. contents (rings' ! w) = contents (rings ! w) @ new \<and>
       subseq new (filter (\<lambda>m. target_worker (dpdk_pkt ops) m (mb_port m) (length rings) = w) (arrivals environment rx))) \<and>
    of_nat (queued contents rings') + c_dropped counters' =
      of_nat (queued contents rings) + c_dropped counters + of_nat (length (arrivals environment rx)) \<and>
    c_received counters' = c_received counters + of_nat (length (arrivals environment rx))"
proof -
  let ?qs = "List.product (env_active_ports environment) [0..<unat (GetReceiveQueueCount environment)]"
  let ?f = "\<lambda>(port_id, queue_id). DispatchPortQueueBurst ops port_id (rx port_id queue_id)"
  obtain c where run: "fold ?f ?qs (rings, no_counters) = (rings', c)" "counters' = add_counters counters c"
    using assms(3) by (auto simp: ProcessDispatchIteration_def AddBurstCounters_def split: prod.splits)
  have "delivered ops contents (arrivals environment rx) (rings, no_counters) (rings', c) \<and>
      c_received c = of_nat (length (arrivals environment rx))"
    using fold_DispatchPortQueueBurst [OF assms(1), of "(rings, no_counters)" rx ?qs] assms(2)
    by (simp add: run(1) arrivals_def Let_def no_counters_zero)
  then show ?thesis by (simp add: run(2) delivered_iff packets_for_def no_counters_zero algebra_simps)
qed

text \<open>Two rings of at most eight packets each, and the sample packets.\<close>

lemma sample_ring_contract: "ring_contract (dpdk_ring_enqueue sample_dpdk) (\<lambda>ring. ring)"
  by (simp add: ring_contract_def sample_dpdk_def)

theorem dispatcher_keeps_flows_in_order_witness:
  "length (fst (ProcessDispatchIteration sample_dpdk sample_environment (\<lambda>port _. sample_rx port) [[], []] no_counters)) = 2 \<and>
   c_received (snd (ProcessDispatchIteration sample_dpdk sample_environment (\<lambda>port _. sample_rx port) [[], []] no_counters)) =
     of_nat (length (arrivals sample_environment (\<lambda>port _. sample_rx port)))"
  using dispatcher_keeps_flows_in_order [OF sample_ring_contract _ surjective_pairing, of "[[], []]" sample_environment
      "\<lambda>port _. sample_rx port" no_counters]
  by (simp add: no_counters_zero)

end
