(* ===== verification/Pcap_Replay.thy ===== *)
theory Pcap_Replay
  imports Dpdk_Prelude
begin

text \<open>
  Replay of capture files (\<^verbatim>\<open>pcap/pcap_replay.hpp\<close>, \<^verbatim>\<open>pcap/pcap_replay.cpp\<close>): the reader, the
  replay loop, its rate limiter and its statistics. libpcap, the buffer allocator, the clock
  and the signal flag are the parameter \<open>replay_ops\<close>. The state \<open>World\<close> counts what the code opens,
  allocates and reads: handles and buffers are integers, so that a second close or free would show
  as a loss. Texts of error messages are left out.
\<close>

section \<open>What the code calls\<close>

text \<open>
  \<open>pcap_next_ex\<close> returns 1 with a header and the bytes, 0 on a timeout of a live capture, -2 at the end
  of the file and another negative number on an error. A handle is a value that each read replaces.
\<close>

record PcapPktHdr =
  ph_caplen :: u32
  ph_len :: u32

datatype NextEx = NextPacket PcapPktHdr bytes | NextTimeout | NextEof | NextFailed

text \<open>
  Opening is told how many opens came before, allocation how many allocations came before and how
  many buffers the replay holds; the clock and the flag are asked at their n-th reading.
\<close>

record 'h replay_ops =
  pcap_open_offline :: "nat \<Rightarrow> string \<Rightarrow> 'h option"
  pcap_next_ex :: "'h \<Rightarrow> NextEx \<times> 'h"
  pcap_datalink :: "'h \<Rightarrow> int"
  pktmbuf_alloc :: "nat \<Rightarrow> int \<Rightarrow> bool"
  pktmbuf_tailroom :: u16
  pktmbuf_append :: "u16 \<Rightarrow> bool"
  rdtsc :: "nat \<Rightarrow> u64"
  tsc_hz :: u64
  force_quit :: "nat \<Rightarrow> bool"

record World =
  w_opens :: nat
  w_handles :: int
  w_allocs :: nat
  w_mbufs :: int
  w_clock :: nat
  w_polls :: nat

definition close_handle :: "World \<Rightarrow> World" where
  "close_handle w = w\<lparr>w_handles := w_handles w - 1\<rparr>"

definition free_mbufs :: "nat \<Rightarrow> World \<Rightarrow> World" where
  "free_mbufs n w = w\<lparr>w_mbufs := w_mbufs w - int n\<rparr>"

definition read_clock :: "'h replay_ops \<Rightarrow> World \<Rightarrow> World \<times> u64" where
  "read_clock ops w = (w\<lparr>w_clock := Suc (w_clock w)\<rparr>, rdtsc ops (w_clock w))"

definition poll_quit :: "'h replay_ops \<Rightarrow> World \<Rightarrow> World \<times> bool" where
  "poll_quit ops w = (w\<lparr>w_polls := Suc (w_polls w)\<rparr>, force_quit ops (w_polls w))"

section \<open>The reader\<close>

datatype PcapError =
  NullMempool | OpenOfflineFailed | NextExFailed | UnsupportedLinkType int | ReadError
| AllocFailed | PacketTooLarge | AppendFailed | NoFilename

definition DLT_EN10MB :: int where
  "DLT_EN10MB = 1"

definition OpenPcapHandle :: "'h replay_ops \<Rightarrow> string \<Rightarrow> World \<Rightarrow> World \<times> (PcapError + 'h)" where
  "OpenPcapHandle ops file w =
     (case pcap_open_offline ops (w_opens w) file of
        None \<Rightarrow> (w\<lparr>w_opens := Suc (w_opens w)\<rparr>, Inl OpenOfflineFailed)
      | Some h \<Rightarrow> (w\<lparr>w_opens := Suc (w_opens w), w_handles := w_handles w + 1\<rparr>, Inr h))"

text \<open>The end of the file is a negative result here: an empty file is refused.\<close>

definition ValidatePcapFile :: "'h replay_ops \<Rightarrow> 'h \<Rightarrow> PcapError + unit" where
  "ValidatePcapFile ops h =
     (case pcap_next_ex ops h of
        (NextEof, _) \<Rightarrow> Inl NextExFailed
      | (NextFailed, _) \<Rightarrow> Inl NextExFailed
      | (_, h') \<Rightarrow> (if pcap_datalink ops h' \<noteq> DLT_EN10MB then Inl (UnsupportedLinkType (pcap_datalink ops h')) else Inr ()))"

partial_function (option) CountPcapPackets :: "'h replay_ops \<Rightarrow> 'h \<Rightarrow> u64 \<Rightarrow> u64 \<Rightarrow> (u64 \<times> u64) option" where
  "CountPcapPackets ops h total_pkts total_bytes =
     (case pcap_next_ex ops h of
        (NextPacket header data, h') \<Rightarrow> CountPcapPackets ops h' (total_pkts + 1) (total_bytes + ucast (ph_caplen header))
      | _ \<Rightarrow> Some (total_pkts, total_bytes))"

text \<open>The handle after the read, the flag for the end of the file, and the packet if there is one.\<close>

definition ReadNextRawPacket ::
  "'h replay_ops \<Rightarrow> 'h \<Rightarrow> bool \<Rightarrow> 'h \<times> bool \<times> (PcapError + (PcapPktHdr \<times> bytes) option)" where
  "ReadNextRawPacket ops h eof =
     (case pcap_next_ex ops h of
        (NextTimeout, h') \<Rightarrow> (h', eof, Inr None)
      | (NextEof, h') \<Rightarrow> (h', True, Inr None)
      | (NextFailed, h') \<Rightarrow> (h', eof, Inl ReadError)
      | (NextPacket header data, h') \<Rightarrow> (h', eof, Inr (Some (header, data))))"

record ReplayMbuf =
  rm_data :: bytes
  rm_pkt_len :: u32
  rm_data_len :: u16

definition CopyPacketToMbuf ::
  "'h replay_ops \<Rightarrow> PcapPktHdr \<Rightarrow> bytes \<Rightarrow> World \<Rightarrow> World \<times> (PcapError + ReplayMbuf)" where
  "CopyPacketToMbuf ops header data w =
     (let w1 = w\<lparr>w_allocs := Suc (w_allocs w)\<rparr>;
          w2 = w1\<lparr>w_mbufs := w_mbufs w + 1\<rparr>;
          caplen = ph_caplen header
      in if \<not> pktmbuf_alloc ops (w_allocs w) (w_mbufs w) then (w1, Inl AllocFailed)
         else if ucast (pktmbuf_tailroom ops) < caplen then (free_mbufs 1 w2, Inl PacketTooLarge)
         else if \<not> pktmbuf_append ops (ucast caplen) then (free_mbufs 1 w2, Inl AppendFailed)
         else (w2, Inr \<lparr>rm_data = take (unat caplen) data, rm_pkt_len = ph_len header, rm_data_len = ucast caplen\<rparr>))"

text \<open>The pool is the one given to \<^verbatim>\<open>Open\<close>, which is never null afterwards.\<close>

record 'h PcapReader =
  rd_handle :: "'h option"
  rd_total_packets :: u64
  rd_total_bytes :: u64
  rd_eof :: bool
  rd_filename :: string

definition PcapReader_destroy :: "'h PcapReader \<Rightarrow> World \<Rightarrow> World" where
  "PcapReader_destroy reader w = (if rd_handle reader \<noteq> None then close_handle w else w)"

text \<open>The new object and what is left of the old one.\<close>

definition PcapReader_move :: "'h PcapReader \<Rightarrow> 'h PcapReader \<times> 'h PcapReader" where
  "PcapReader_move other = (other, other\<lparr>rd_handle := None, rd_eof := True, rd_filename := []\<rparr>)"

text \<open>Assignment takes everything over but the name of the file.\<close>

definition PcapReader_assign ::
  "'h PcapReader \<Rightarrow> 'h PcapReader \<Rightarrow> World \<Rightarrow> 'h PcapReader \<times> 'h PcapReader \<times> World" where
  "PcapReader_assign this other w =
     (this\<lparr>rd_handle := rd_handle other, rd_total_packets := rd_total_packets other,
        rd_total_bytes := rd_total_bytes other, rd_eof := rd_eof other\<rparr>,
      other\<lparr>rd_handle := None, rd_eof := True\<rparr>, PcapReader_destroy this w)"

definition PcapReader_Open ::
  "'h replay_ops \<Rightarrow> string \<Rightarrow> bool \<Rightarrow> World \<Rightarrow> (World \<times> (PcapError + 'h PcapReader)) option" where
  "PcapReader_Open ops file has_mempool w =
     (if \<not> has_mempool then Some (w, Inl NullMempool)
      else case OpenPcapHandle ops file w of
        (w1, Inl e) \<Rightarrow> Some (w1, Inl e)
      | (w1, Inr handle1) \<Rightarrow>
          (case ValidatePcapFile ops handle1 of
             Inl e \<Rightarrow> Some (close_handle w1, Inl e)
           | Inr _ \<Rightarrow>
               (case OpenPcapHandle ops file (close_handle w1) of
                  (w2, Inl e) \<Rightarrow> Some (w2, Inl e)
                | (w2, Inr handle2) \<Rightarrow>
                    (case CountPcapPackets ops handle2 0 0 of
                       None \<Rightarrow> None
                     | Some (total_pkts, total_bytes) \<Rightarrow>
                         (case OpenPcapHandle ops file (close_handle w2) of
                            (w3, Inl e) \<Rightarrow> Some (w3, Inl e)
                          | (w3, Inr handle3) \<Rightarrow>
                              Some (w3, Inr \<lparr>rd_handle = Some handle3, rd_total_packets = total_pkts,
                                rd_total_bytes = total_bytes, rd_eof = False, rd_filename = file\<rparr>))))))"

definition ReadPacket ::
  "'h replay_ops \<Rightarrow> 'h PcapReader \<Rightarrow> World \<Rightarrow> 'h PcapReader \<times> World \<times> (PcapError + ReplayMbuf option)" where
  "ReadPacket ops reader w =
     (case rd_handle reader of
        None \<Rightarrow> (reader, w, Inr None)
      | Some h \<Rightarrow>
          if rd_eof reader then (reader, w, Inr None)
          else case ReadNextRawPacket ops h (rd_eof reader) of
            (h', eof, raw) \<Rightarrow>
              let reader' = reader\<lparr>rd_handle := Some h', rd_eof := eof\<rparr>
              in case raw of
                   Inl e \<Rightarrow> (reader', w, Inl e)
                 | Inr None \<Rightarrow> (reader', w, Inr None)
                 | Inr (Some (header, data)) \<Rightarrow>
                     (case CopyPacketToMbuf ops header data w of
                        (w', Inl e) \<Rightarrow> (reader', w', Inl e)
                      | (w', Inr mbuf) \<Rightarrow> (reader', w', Inr (Some mbuf))))"

text \<open>The loop of \<^verbatim>\<open>ReadBurst\<close>; \<open>n\<close> iterations are left and \<open>burst\<close> has been read.\<close>

primrec read_burst ::
  "'h replay_ops \<Rightarrow> nat \<Rightarrow> ReplayMbuf list \<Rightarrow> 'h PcapReader \<Rightarrow> World \<Rightarrow>
   'h PcapReader \<times> World \<times> (PcapError + ReplayMbuf list)" where
  "read_burst ops 0 burst reader w = (reader, w, Inr burst)"
| "read_burst ops (Suc n) burst reader w =
     (case ReadPacket ops reader w of
        (reader', w', Inl e) \<Rightarrow> (reader', free_mbufs (length burst) w', Inl e)
      | (reader', w', Inr None) \<Rightarrow> (reader', w', Inr burst)
      | (reader', w', Inr (Some mbuf)) \<Rightarrow> read_burst ops n (burst @ [mbuf]) reader' w')"

definition ReadBurst ::
  "'h replay_ops \<Rightarrow> u16 \<Rightarrow> 'h PcapReader \<Rightarrow> World \<Rightarrow> 'h PcapReader \<times> World \<times> (PcapError + ReplayMbuf list)" where
  "ReadBurst ops burst_size reader w = read_burst ops (unat burst_size) [] reader w"

definition PcapReader_Reset ::
  "'h replay_ops \<Rightarrow> 'h PcapReader \<Rightarrow> World \<Rightarrow> 'h PcapReader \<times> World \<times> (PcapError + unit)" where
  "PcapReader_Reset ops reader w =
     (if rd_filename reader = [] then (reader, w, Inl NoFilename)
      else case OpenPcapHandle ops (rd_filename reader) (PcapReader_destroy reader w) of
        (w', Inl e) \<Rightarrow> (reader\<lparr>rd_handle := None, rd_eof := True\<rparr>, w', Inl e)
      | (w', Inr h) \<Rightarrow> (reader\<lparr>rd_handle := Some h, rd_eof := False\<rparr>, w', Inr ()))"

section \<open>The replay\<close>

record PcapReplayConfig =
  prc_pcap_file :: string
  prc_loop_count :: u32
  prc_packets_per_second :: u64
  prc_max_packets :: u64

record PcapReplayState =
  rs_packets_read :: u64
  rs_packets_injected :: u64
  rs_bytes_read :: u64
  rs_total_latency :: u64
  rs_latency_count :: u64
  rs_min_latency :: u64
  rs_max_latency :: u64
  rs_loops_completed :: u32

definition initial_state :: PcapReplayState where
  "initial_state = \<lparr>rs_packets_read = 0, rs_packets_injected = 0, rs_bytes_read = 0, rs_total_latency = 0,
     rs_latency_count = 0, rs_min_latency = - 1, rs_max_latency = 0, rs_loops_completed = 0\<rparr>"

definition process_mbuf ::
  "'h replay_ops \<Rightarrow> u64 \<Rightarrow> ReplayMbuf \<Rightarrow> PcapReplayState \<times> World \<Rightarrow> PcapReplayState \<times> World" where
  "process_mbuf ops rx_tsc mbuf = (\<lambda>(state, w).
     case read_clock ops w of
       (w', classify_tsc) \<Rightarrow>
         let latency = classify_tsc - rx_tsc
         in (state\<lparr>rs_bytes_read := rs_bytes_read state + ucast (rm_pkt_len mbuf),
               rs_packets_injected := rs_packets_injected state + 1,
               rs_total_latency := rs_total_latency state + latency,
               rs_latency_count := rs_latency_count state + 1,
               rs_min_latency := min latency (rs_min_latency state),
               rs_max_latency := max latency (rs_max_latency state)\<rparr>,
             free_mbufs 1 w'))"

definition ProcessBurst ::
  "'h replay_ops \<Rightarrow> ReplayMbuf list \<Rightarrow> u64 \<Rightarrow> PcapReplayState \<times> World \<Rightarrow> PcapReplayState \<times> World" where
  "ProcessBurst ops burst rx_tsc = fold (process_mbuf ops rx_tsc) burst"

partial_function (option) spin :: "'h replay_ops \<Rightarrow> u64 \<Rightarrow> World \<Rightarrow> World option" where
  "spin ops expected_tsc w =
     (case read_clock ops w of
        (w', now) \<Rightarrow>
          if now < expected_tsc
          then (case poll_quit ops w' of
                  (w'', quit) \<Rightarrow> if quit then Some w'' else spin ops expected_tsc w'')
          else Some w')"

definition ApplyRateLimit :: "'h replay_ops \<Rightarrow> u64 \<Rightarrow> u64 \<Rightarrow> u64 \<Rightarrow> World \<Rightarrow> World option" where
  "ApplyRateLimit ops packets_injected tsc_start rate_pps w =
     (case read_clock ops w of
        (w', now) \<Rightarrow>
          let elapsed = now - tsc_start;
              expected_tsc = packets_injected * tsc_hz ops div rate_pps
          in if elapsed < expected_tsc then spin ops expected_tsc w' else Some w')"

definition kBurstSize :: u16 where
  "kBurstSize = 64"

definition max_loops_of :: "PcapReplayConfig \<Rightarrow> u32" where
  "max_loops_of config = (if prc_loop_count config = 0 then - 1 else prc_loop_count config)"

definition max_packets_of :: "PcapReplayConfig \<Rightarrow> u64" where
  "max_packets_of config = (if prc_max_packets config = 0 then - 1 else prc_max_packets config)"

text \<open>
  The rest of the loop of \<^verbatim>\<open>RunReplayLoop\<close>, from its test on. \<^verbatim>\<open>None\<close> is a loop that does not end.
\<close>

partial_function (option) replay_loop ::
  "'h replay_ops \<Rightarrow> PcapReplayConfig \<Rightarrow> u64 \<Rightarrow> 'h PcapReader \<Rightarrow> PcapReplayState \<Rightarrow> World \<Rightarrow>
   ('h PcapReader \<times> PcapReplayState \<times> World \<times> (PcapError + unit)) option" where
  "replay_loop ops config tsc_start reader state w =
     (case poll_quit ops w of
        (w0, quit) \<Rightarrow>
          if \<not> quit \<and> rs_loops_completed state < max_loops_of config \<and> rs_packets_injected state < max_packets_of config
          then case ReadBurst ops kBurstSize reader w0 of
            (reader1, w1, Inl e) \<Rightarrow> Some (reader1, state, w1, Inl e)
          | (reader1, w1, Inr burst) \<Rightarrow>
              if burst = []
              then (let state1 = state\<lparr>rs_loops_completed := rs_loops_completed state + 1\<rparr>
                    in if max_loops_of config \<le> rs_loops_completed state1 then Some (reader1, state1, w1, Inr ())
                       else case PcapReader_Reset ops reader1 w1 of
                         (reader2, w2, Inl e) \<Rightarrow> Some (reader2, state1, w2, Inr ())
                       | (reader2, w2, Inr _) \<Rightarrow> replay_loop ops config tsc_start reader2 state1 w2)
              else case read_clock ops w1 of
                (w2, rx_tsc) \<Rightarrow>
                  (case ProcessBurst ops burst rx_tsc
                      (state\<lparr>rs_packets_read := rs_packets_read state + of_nat (length burst)\<rparr>, w2) of
                     (state1, w3) \<Rightarrow>
                       Option.bind
                         (if 0 < prc_packets_per_second config
                          then ApplyRateLimit ops (rs_packets_injected state1) tsc_start (prc_packets_per_second config) w3
                          else Some w3)
                         (\<lambda>w4. replay_loop ops config tsc_start reader1 state1 w4))
          else Some (reader, state, w0, Inr ()))"

definition RunReplayLoop ::
  "'h replay_ops \<Rightarrow> PcapReplayConfig \<Rightarrow> 'h PcapReader \<Rightarrow> PcapReplayState \<Rightarrow> World \<Rightarrow>
   ('h PcapReader \<times> PcapReplayState \<times> World \<times> (PcapError + unit)) option" where
  "RunReplayLoop ops config reader state w =
     (case read_clock ops w of (w', tsc_start) \<Rightarrow> replay_loop ops config tsc_start reader state w')"

record PcapReplayStats =
  ps_packets_read :: u64
  ps_packets_injected :: u64
  ps_bytes_read :: u64
  ps_loops_completed :: u32
  ps_total_latency_tsc :: u64
  ps_min_latency_tsc :: u64
  ps_max_latency_tsc :: u64
  ps_latency_samples :: u64

definition ToStats :: "PcapReplayState \<Rightarrow> PcapReplayStats" where
  "ToStats state = \<lparr>ps_packets_read = rs_packets_read state, ps_packets_injected = rs_packets_injected state,
     ps_bytes_read = rs_bytes_read state, ps_loops_completed = rs_loops_completed state,
     ps_total_latency_tsc = rs_total_latency state,
     ps_min_latency_tsc = (if 0 < rs_latency_count state then rs_min_latency state else 0),
     ps_max_latency_tsc = rs_max_latency state, ps_latency_samples = rs_latency_count state\<rparr>"

text \<open>The reader is destroyed on every way out.\<close>

definition RunPcapReplay ::
  "'h replay_ops \<Rightarrow> PcapReplayConfig \<Rightarrow> bool \<Rightarrow> World \<Rightarrow> (World \<times> (PcapError + PcapReplayStats)) option" where
  "RunPcapReplay ops config has_mempool w =
     (case PcapReader_Open ops (prc_pcap_file config) has_mempool w of
        None \<Rightarrow> None
      | Some (w1, Inl e) \<Rightarrow> Some (w1, Inl e)
      | Some (w1, Inr reader) \<Rightarrow>
          (case RunReplayLoop ops config reader initial_state w1 of
             None \<Rightarrow> None
           | Some (reader', _, w2, Inl e) \<Rightarrow> Some (PcapReader_destroy reader' w2, Inl e)
           | Some (reader', state, w2, Inr _) \<Rightarrow> Some (PcapReader_destroy reader' w2, Inr (ToStats state))))"

end
