(* ===== verification/Pcap_Replay_Correct.thy ===== *)
theory Pcap_Replay_Correct
  imports Pcap_Replay
begin

text \<open>
  What the replay guarantees: it ends, it releases every buffer and every handle it took on every way out,
  it counts exactly what it was asked to replay, and it overshoots a packet limit by less than one burst. The last
  section shows that the rate limiter does not wait and that a reader that was assigned to
  rewinds to the wrong file.
\<close>

section \<open>Contracts\<close>

text \<open>
  A handle yields the given packets and then reports the end of the file or an error. A file is finite and reading
  it never times out, so every handle that can be opened yields some list of packets.
\<close>

primrec yields :: "'h replay_ops \<Rightarrow> 'h \<Rightarrow> (PcapPktHdr \<times> bytes) list \<Rightarrow> bool" where
  "yields ops h [] = (fst (pcap_next_ex ops h) = NextEof \<or> fst (pcap_next_ex ops h) = NextFailed)"
| "yields ops h (p # ps) = (\<exists>h'. pcap_next_ex ops h = (NextPacket (fst p) (snd p), h') \<and> yields ops h' ps)"

definition offline_contract :: "'h replay_ops \<Rightarrow> bool" where
  "offline_contract ops = (\<forall>n file h. pcap_open_offline ops n file = Some h \<longrightarrow> (\<exists>ps. yields ops h ps))"

text \<open>The cycle counter passes every value again and again: it counts up and wraps around.\<close>

definition clock_contract :: "'h replay_ops \<Rightarrow> bool" where
  "clock_contract ops = (\<forall>t x. \<exists>k \<ge> t. x \<le> rdtsc ops k)"

section \<open>Steps\<close>

definition left :: "'h replay_ops \<Rightarrow> 'h PcapReader \<Rightarrow> nat \<Rightarrow> bool" where
  "left ops reader n = (case rd_handle reader of
     None \<Rightarrow> n = 0
   | Some h \<Rightarrow> if rd_eof reader then n = 0 else \<exists>ps. yields ops h ps \<and> n = length ps)"

text \<open>The handles that are open besides the reader's.\<close>

definition others :: "'h PcapReader \<Rightarrow> World \<Rightarrow> int" where
  "others reader w = w_handles w - (if rd_handle reader = None then 0 else 1)"

lemma world_simps [simp]:
  "w_mbufs (close_handle w) = w_mbufs w" "w_handles (close_handle w) = w_handles w - 1"
  "w_mbufs (free_mbufs n w) = w_mbufs w - int n" "w_handles (free_mbufs n w) = w_handles w"
  "w_opens (close_handle w) = w_opens w"
  by (simp_all add: close_handle_def free_mbufs_def)

lemma destroy_others [simp]:
  "w_handles (PcapReader_destroy reader w) = others reader w" "w_mbufs (PcapReader_destroy reader w) = w_mbufs w"
  by (simp_all add: PcapReader_destroy_def others_def)

lemma CopyPacketToMbuf_held:
  "CopyPacketToMbuf ops header data w = (w', r) \<Longrightarrow>
   w_handles w' = w_handles w \<and> w_mbufs w' = w_mbufs w + (case r of Inl _ \<Rightarrow> 0 | Inr _ \<Rightarrow> 1)"
  by (auto simp: CopyPacketToMbuf_def Let_def split: if_splits)

lemma ReadPacket_held:
  assumes "ReadPacket ops reader w = (reader', w', r)"
  shows "w_handles w' = w_handles w \<and> rd_filename reader' = rd_filename reader \<and>
    (rd_handle reader' = None) = (rd_handle reader = None) \<and>
    w_mbufs w' = w_mbufs w + (case r of Inr (Some _) \<Rightarrow> 1 | _ \<Rightarrow> 0)"
  using assms
  by (auto simp: ReadPacket_def ReadNextRawPacket_def Let_def dest!: CopyPacketToMbuf_held
      split: option.splits if_splits NextEx.splits prod.splits sum.splits)

lemma ReadPacket_left:
  assumes "ReadPacket ops reader w = (reader', w', Inr r)" and "left ops reader n"
  shows "case r of None \<Rightarrow> left ops reader' 0 | Some _ \<Rightarrow> (\<exists>m < n. left ops reader' m)"
proof (cases "rd_handle reader = None \<or> rd_eof reader")
  case True
  then show ?thesis using assms by (auto simp: ReadPacket_def left_def split: option.splits)
next
  case False
  then obtain h ps where h: "rd_handle reader = Some h" "\<not> rd_eof reader" "yields ops h ps" "n = length ps"
    using assms(2) by (auto simp: left_def)
  show ?thesis
  proof (cases ps)
    case Nil
    then show ?thesis using assms(1) h
      by (auto simp: ReadPacket_def ReadNextRawPacket_def left_def Let_def split: prod.splits)
  next
    case (Cons p qs)
    then obtain h' mbuf where "reader' = reader\<lparr>rd_handle := Some h', rd_eof := False\<rparr>" "yields ops h' qs" "r = Some mbuf"
      using assms(1) h by (auto simp: ReadPacket_def ReadNextRawPacket_def Let_def split: prod.splits sum.splits)
    then have "left ops reader' (length qs)" "\<exists>mbuf. r = Some mbuf" by (auto simp: left_def)
    with Cons h(4) show ?thesis by auto
  qed
qed

lemma read_burst_held:
  "read_burst ops k burst reader w = (reader', w', r) \<Longrightarrow>
   others reader' w' = others reader w \<and> rd_filename reader' = rd_filename reader \<and>
   w_mbufs w' = w_mbufs w - int (length burst) + (case r of Inl _ \<Rightarrow> 0 | Inr burst' \<Rightarrow> int (length burst'))"
proof (induction k arbitrary: burst reader w)
  case 0
  then show ?case by auto
next
  case (Suc k)
  obtain reader1 w1 r1 where step: "ReadPacket ops reader w = (reader1, w1, r1)"
    by (metis prod_cases3)
  note held = ReadPacket_held [OF step]
  then have same: "others reader1 w1 = others reader w" by (simp add: others_def)
  show ?case
  proof (cases "\<exists>mbuf. r1 = Inr (Some mbuf)")
    case False
    then show ?thesis using Suc.prems held same by (auto simp: step others_def split: sum.splits option.splits)
  next
    case True
    then obtain mbuf where r1: "r1 = Inr (Some mbuf)" ..
    have "read_burst ops k (burst @ [mbuf]) reader1 w1 = (reader', w', r)"
      using Suc.prems by (simp add: step r1)
    from Suc.IH [OF this] held same show ?thesis by (simp add: r1)
  qed
qed

lemma read_burst_left:
  "read_burst ops k burst reader w = (reader', w', Inr burst') \<Longrightarrow> left ops reader n \<Longrightarrow>
   length burst \<le> length burst' \<and> length burst' \<le> length burst + k \<and>
   (\<exists>m \<le> n. left ops reader' m \<and> (burst' = burst \<or> m < n))"
proof (induction k arbitrary: burst reader w n)
  case 0
  then show ?case by auto
next
  case (Suc k)
  obtain reader1 w1 r1 where step: "ReadPacket ops reader w = (reader1, w1, r1)"
    by (metis prod_cases3)
  show ?case
  proof (cases "\<exists>mbuf. r1 = Inr (Some mbuf)")
    case False
    then have "r1 = Inr None" using Suc.prems(1) by (auto simp: step split: sum.splits option.splits)
    then show ?thesis using Suc.prems ReadPacket_left [of ops reader w reader1 w1 None n] by (auto simp: step)
  next
    case True
    then obtain mbuf where r1: "r1 = Inr (Some mbuf)" ..
    then obtain m where m: "m < n" "left ops reader1 m"
      using ReadPacket_left [of ops reader w reader1 w1 "Some mbuf"] step Suc.prems(2) by auto
    have this_burst: "read_burst ops k (burst @ [mbuf]) reader1 w1 = (reader', w', Inr burst')"
      using Suc.prems(1) by (simp add: step r1)
    from Suc.IH [OF this_burst m(2)] m(1) obtain m' where "m' < n" "left ops reader' m'" by (auto dest: le_less_trans)
    with Suc.IH [OF this_burst m(2)] show ?thesis by (auto intro!: exI [of _ m'])
  qed
qed

lemma process_mbuf_effect:
  "process_mbuf ops rx_tsc m (state, w) = (state', w') \<Longrightarrow>
   w_handles w' = w_handles w \<and> w_mbufs w' = w_mbufs w - 1 \<and> w_polls w' = w_polls w \<and>
   rs_loops_completed state' = rs_loops_completed state \<and> rs_packets_read state' = rs_packets_read state \<and>
   rs_packets_injected state' = rs_packets_injected state + 1 \<and>
   rs_bytes_read state' = rs_bytes_read state + ucast (rm_pkt_len m)"
  by (auto simp: process_mbuf_def read_clock_def Let_def free_mbufs_def)

lemma ProcessBurst_effect:
  "ProcessBurst ops burst rx_tsc (state, w) = (state', w') \<Longrightarrow>
   w_handles w' = w_handles w \<and> w_mbufs w' = w_mbufs w - int (length burst) \<and> w_polls w' = w_polls w \<and>
   rs_loops_completed state' = rs_loops_completed state \<and> rs_packets_read state' = rs_packets_read state \<and>
   rs_packets_injected state' = rs_packets_injected state + of_nat (length burst) \<and>
   rs_bytes_read state' = rs_bytes_read state + (\<Sum>m\<leftarrow>burst. ucast (rm_pkt_len m))"
  unfolding ProcessBurst_def
proof (induction burst arbitrary: state w)
  case (Cons m burst)
  obtain state1 w1 where step: "process_mbuf ops rx_tsc m (state, w) = (state1, w1)" by fastforce
  show ?case
    using Cons.prems Cons.IH [of state1 w1] process_mbuf_effect [OF step] by (simp add: step algebra_simps)
qed simp

lemma spin_ends:
  "x \<le> rdtsc ops (w_clock w + d) \<Longrightarrow>
   \<exists>w'. spin ops x w = Some w' \<and> w_mbufs w' = w_mbufs w \<and> w_handles w' = w_handles w"
proof (induction d arbitrary: w)
  case 0
  then show ?case by (simp add: spin.simps [of ops x w] read_clock_def not_less [symmetric])
next
  case (Suc d)
  show ?case
    using Suc.prems Suc.IH [of "w\<lparr>w_clock := Suc (w_clock w), w_polls := Suc (w_polls w)\<rparr>"]
    by (simp add: spin.simps [of ops x w] read_clock_def poll_quit_def)
qed

lemma ApplyRateLimit_ends:
  assumes "clock_contract ops"
  shows "\<exists>w'. ApplyRateLimit ops n start rate w = Some w' \<and> w_mbufs w' = w_mbufs w \<and> w_handles w' = w_handles w"
proof -
  obtain k where "Suc (w_clock w) \<le> k" "n * tsc_hz ops div rate \<le> rdtsc ops k"
    using assms unfolding clock_contract_def by blast
  then have "n * tsc_hz ops div rate \<le> rdtsc ops (Suc (w_clock w) + (k - Suc (w_clock w)))" by simp
  with spin_ends [of _ ops "w\<lparr>w_clock := Suc (w_clock w)\<rparr>" "k - Suc (w_clock w)"] show ?thesis
    by (simp add: ApplyRateLimit_def read_clock_def Let_def)
qed

section \<open>The loop\<close>

definition paced :: "'h replay_ops \<Rightarrow> PcapReplayConfig \<Rightarrow> bool" where
  "paced ops config = (prc_packets_per_second config = 0 \<or> clock_contract ops)"

definition booked :: "PcapReplayConfig \<Rightarrow> PcapReplayState \<Rightarrow> bool" where
  "booked config state = (rs_packets_injected state = rs_packets_read state \<and>
     rs_loops_completed state \<le> max_loops_of config \<and>
     unat (rs_packets_injected state) < unat (max_packets_of config) + 64)"

lemma rate_limit_frame:
  assumes "paced ops config"
  shows "\<exists>w'. (if 0 < prc_packets_per_second config then ApplyRateLimit ops n start (prc_packets_per_second config) w
      else Some w) = Some w' \<and> w_mbufs w' = w_mbufs w \<and> w_handles w' = w_handles w"
proof (cases "prc_packets_per_second config = 0")
  case False
  then have "clock_contract ops" using assms by (simp add: paced_def)
  from ApplyRateLimit_ends [OF this] show ?thesis using False by (simp add: word_gt_0)
qed simp

lemma Reset_held:
  "PcapReader_Reset ops reader w = (reader', w', r) \<Longrightarrow>
   others reader' w' = others reader w \<and> w_mbufs w' = w_mbufs w \<and> rd_filename reader' = rd_filename reader"
  by (auto simp: PcapReader_Reset_def OpenPcapHandle_def others_def PcapReader_destroy_def close_handle_def
      split: if_splits option.splits)

lemma left_opened:
  assumes "offline_contract ops" and "pcap_open_offline ops k path = Some h" and "rd_handle reader = Some h"
  shows "\<exists>n. left ops reader n"
proof -
  obtain ps where "yields ops h ps" using assms(1,2) unfolding offline_contract_def by blast
  then have "left ops reader (if rd_eof reader then 0 else length ps)" using assms(3) by (auto simp: left_def)
  then show ?thesis ..
qed

lemma Reset_left:
  "PcapReader_Reset ops reader w = (reader', w', Inr ()) \<Longrightarrow> offline_contract ops \<Longrightarrow> \<exists>n. left ops reader' n"
  by (auto simp: PcapReader_Reset_def OpenPcapHandle_def intro: left_opened split: if_splits option.splits)

lemma burst_booked:
  assumes "rs_packets_injected state < max_packets_of config" and "n \<le> 64"
  shows "unat (rs_packets_injected state + of_nat n) < unat (max_packets_of config) + 64"
proof -
  have "unat (of_nat n :: u64) \<le> n" by (simp add: unat_of_nat)
  moreover have "unat (rs_packets_injected state + of_nat n) \<le> unat (rs_packets_injected state) + unat (of_nat n :: u64)"
    by (simp add: unat_word_ariths)
  moreover have "unat (rs_packets_injected state) < unat (max_packets_of config)"
    using assms(1) by (simp add: word_less_nat_alt)
  ultimately show ?thesis using assms(2) by linarith
qed

text \<open>
  One pass through the body from a test that succeeds: the loop stops with everything accounted for, or
  it goes round again with fewer passes or packets left.
\<close>

lemma loop_counter:
  fixes l m :: "'a :: len word"
  assumes "l < m"
  shows "unat (l + 1) = Suc (unat l)" "l + 1 \<le> m" "unat m - unat (l + 1) < unat m - unat l"
proof -
  have lt: "unat l < unat m" using assms by (simp add: word_less_nat_alt)
  then have "Suc (unat l) < 2 ^ LENGTH('a)" using unsigned_less [of m, where ?'a = nat] by linarith
  then show eq: "unat (l + 1) = Suc (unat l)" by (simp add: unat_word_ariths)
  show "l + 1 \<le> m" using lt by (simp add: word_le_nat_alt eq)
  show "unat m - unat (l + 1) < unat m - unat l" using lt by (simp add: eq)
qed

lemma replay_loop_settles:
  assumes "offline_contract ops" and "paced ops config"
  shows "left ops reader n \<Longrightarrow> booked config state \<Longrightarrow>
    \<exists>reader' state' w' r. replay_loop ops config tsc_start reader state w = Some (reader', state', w', r) \<and>
      booked config state' \<and> others reader' w' = others reader w \<and> w_mbufs w' = w_mbufs w"
proof (induction "(unat (max_loops_of config) - unat (rs_loops_completed state), n)" arbitrary: reader state w n
    rule: wf_induct_rule [OF wf_lex_prod [OF wf_less_than wf_less_than]])
  case (1 state n reader w)
  note IH = 1(1) and left = 1(2) and booked = 1(3)
  let ?go = "\<not> force_quit ops (w_polls w) \<and> rs_loops_completed state < max_loops_of config \<and>
    rs_packets_injected state < max_packets_of config"
  let ?w0 = "w\<lparr>w_polls := Suc (w_polls w)\<rparr>"
  have poll: "poll_quit ops w = (?w0, force_quit ops (w_polls w))" by (simp add: poll_quit_def)
  have w0: "others r ?w0 = others r w" for r :: "'a PcapReader" by (simp add: others_def)
  obtain reader1 w1 r where read: "ReadBurst ops kBurstSize reader ?w0 = (reader1, w1, r)"
    by (metis prod_cases3)
  note held = read_burst_held [OF read [unfolded ReadBurst_def]]
  consider (stop) "\<not> ?go" | (failed) e where ?go "r = Inl e" | (pass) ?go "r = Inr []"
    | (burst) burst where ?go "r = Inr burst" "burst \<noteq> []"
    by (cases r) auto
  then show ?case
  proof cases
    case stop
    then show ?thesis using booked by (auto simp: replay_loop.simps [of _ _ _ reader state w] poll w0)
  next
    case failed
    then show ?thesis using booked held by (simp add: replay_loop.simps [of _ _ _ reader state w] poll read w0)
  next
    case pass
    let ?state1 = "state\<lparr>rs_loops_completed := rs_loops_completed state + 1\<rparr>"
    note counter = loop_counter [OF conjunct1 [OF conjunct2 [OF pass(1)]]]
    have booked1: "booked config ?state1" using booked counter(2) by (auto simp: booked_def)
    obtain reader2 w2 r2 where reset: "PcapReader_Reset ops reader1 w1 = (reader2, w2, r2)"
      by (metis prod_cases3)
    note held2 = Reset_held [OF reset]
    show ?thesis
    proof (cases "max_loops_of config \<le> rs_loops_completed state + 1 \<or> (\<exists>e. r2 = Inl e)")
      case True
      then show ?thesis using pass booked1 held held2
        by (auto simp: replay_loop.simps [of _ _ _ reader state w] poll read w0 reset Let_def)
    next
      case False
      then have r2: "r2 = Inr ()" by (cases r2) auto
      with Reset_left reset assms(1) obtain m where "left ops reader2 m" by metis
      from IH [OF _ this booked1, of w2] counter(3) obtain reader' state' w' r' where
        "replay_loop ops config tsc_start reader2 ?state1 w2 = Some (reader', state', w', r') \<and>
         booked config state' \<and> others reader' w' = others reader2 w2 \<and> w_mbufs w' = w_mbufs w2"
        by auto
      then show ?thesis using pass False held held2
        by (simp add: replay_loop.simps [of _ _ _ reader state w] poll read w0 reset r2 Let_def)
    qed
  next
    case burst
    let ?state1 = "state\<lparr>rs_packets_read := rs_packets_read state + of_nat (length burst)\<rparr>"
    let ?w2 = "w1\<lparr>w_clock := Suc (w_clock w1)\<rparr>"
    obtain state2 w3 where process: "ProcessBurst ops burst (rdtsc ops (w_clock w1)) (?state1, ?w2) = (state2, w3)"
      by fastforce
    note effect = ProcessBurst_effect [OF process]
    obtain w4 where w4: "(if 0 < prc_packets_per_second config
        then ApplyRateLimit ops (rs_packets_injected state2) tsc_start (prc_packets_per_second config) w3 else Some w3) = Some w4"
      "w_mbufs w4 = w_mbufs w3" "w_handles w4 = w_handles w3"
      using rate_limit_frame [OF assms(2)] by blast
    obtain m where m: "length burst \<le> 64" "m < n" "left ops reader1 m"
      using read_burst_left [OF read [unfolded ReadBurst_def burst(2)] left] burst(3) by (auto simp: kBurstSize_def)
    have booked2: "booked config state2"
      using booked effect burst_booked [OF conjunct2 [OF conjunct2 [OF burst(1)]] m(1)] by (simp add: booked_def)
    have "rs_loops_completed state2 = rs_loops_completed state" using effect by simp
    with IH [OF _ m(3) booked2, of w4] m(2) obtain reader' state' w' r' where
      "replay_loop ops config tsc_start reader1 state2 w4 = Some (reader', state', w', r') \<and>
       booked config state' \<and> others reader' w' = others reader1 w4 \<and> w_mbufs w' = w_mbufs w4"
      by auto
    then show ?thesis using burst held effect w4
      by (simp add: replay_loop.simps [of _ _ _ reader state w] poll read w0 read_clock_def process others_def)
  qed
qed

section \<open>The whole replay\<close>

lemma CountPcapPackets_ends: "yields ops h ps \<Longrightarrow> \<exists>total. CountPcapPackets ops h n b = Some total"
proof (induction ps arbitrary: h n b)
  case Nil
  then show ?case by (auto simp: CountPcapPackets.simps [of ops h] split: prod.splits NextEx.splits)
next
  case (Cons p ps)
  then show ?case by (auto simp: CountPcapPackets.simps [of ops h])
qed

lemma OpenPcapHandle_cases:
  obtains (failed) w' where "OpenPcapHandle ops file w = (w', Inl OpenOfflineFailed)" "w_handles w' = w_handles w"
      "w_mbufs w' = w_mbufs w"
  | (opened) w' h where "OpenPcapHandle ops file w = (w', Inr h)" "pcap_open_offline ops (w_opens w) file = Some h"
      "w_handles w' = w_handles w + 1" "w_mbufs w' = w_mbufs w"
  by (cases "pcap_open_offline ops (w_opens w) file") (auto simp: OpenPcapHandle_def)

lemma left_new_reader:
  "offline_contract ops \<Longrightarrow> pcap_open_offline ops k path = Some h \<Longrightarrow>
   \<exists>n. left ops \<lparr>rd_handle = Some h, rd_total_packets = t, rd_total_bytes = b, rd_eof = e, rd_filename = f\<rparr> n"
  by (rule left_opened) auto

lemma Open_settles:
  assumes "offline_contract ops"
  shows "\<exists>w' r. PcapReader_Open ops file has_mempool w = Some (w', r) \<and> w_mbufs w' = w_mbufs w \<and>
    (case r of Inl _ \<Rightarrow> w_handles w' = w_handles w
     | Inr reader \<Rightarrow> others reader w' = w_handles w \<and> (\<exists>n. left ops reader n) \<and> rd_filename reader = file)"
proof (cases "has_mempool \<and> (\<exists>w1 h1. OpenPcapHandle ops file w = (w1, Inr h1) \<and> ValidatePcapFile ops h1 = Inr ())")
  case False
  then show ?thesis
    by (cases rule: OpenPcapHandle_cases [of ops "file" w]; cases has_mempool)
      (auto simp: PcapReader_Open_def split: sum.splits)
next
  case True
  then obtain w1 h1 where first: "has_mempool" "OpenPcapHandle ops file w = (w1, Inr h1)" "ValidatePcapFile ops h1 = Inr ()"
    "w_handles w1 = w_handles w + 1" "w_mbufs w1 = w_mbufs w"
    by (cases rule: OpenPcapHandle_cases [of ops "file" w]) auto
  show ?thesis
  proof (cases rule: OpenPcapHandle_cases [of ops "file" "close_handle w1"])
    case (failed w2)
    with first show ?thesis by (simp add: PcapReader_Open_def)
  next
    case second: (opened w2 h2)
    then obtain t b where total: "CountPcapPackets ops h2 0 0 = Some (t, b)"
      using assms CountPcapPackets_ends unfolding offline_contract_def by (metis surj_pair)
    show ?thesis
      using first second left_new_reader [OF assms]
      by (cases rule: OpenPcapHandle_cases [of ops "file" "close_handle w2"])
        (simp_all add: PcapReader_Open_def total others_def)
  qed
qed

lemma initial_booked: "booked config initial_state"
  by (simp add: booked_def initial_state_def)

text \<open>
  C33. The replay ends and leaves nothing behind. For finite capture files, and a running clock if the
  rate is limited, it returns whatever fails on the way; every buffer it allocated has been freed
  exactly once and every handle it opened closed exactly once; and if it succeeds it has
  injected what it read, has made no more passes than configured, and exceeds the configured number
  of packets by less than one burst.
\<close>

theorem replay_returns_and_releases:
  assumes "offline_contract ops" and "prc_packets_per_second config = 0 \<or> clock_contract ops"
  shows "\<exists>w' r. RunPcapReplay ops config has_mempool w = Some (w', r) \<and>
    w_mbufs w' = w_mbufs w \<and> w_handles w' = w_handles w \<and>
    (case r of Inl _ \<Rightarrow> True
     | Inr stats \<Rightarrow> ps_packets_injected stats = ps_packets_read stats \<and>
         ps_loops_completed stats \<le> max_loops_of config \<and>
         unat (ps_packets_injected stats) < unat (max_packets_of config) + 64)"
proof -
  have paced: "paced ops config" using assms(2) by (simp add: paced_def)
  obtain w1 r1 where "open": "PcapReader_Open ops (prc_pcap_file config) has_mempool w = Some (w1, r1)"
    "w_mbufs w1 = w_mbufs w" "case r1 of Inl _ \<Rightarrow> w_handles w1 = w_handles w
     | Inr reader \<Rightarrow> others reader w1 = w_handles w \<and> (\<exists>n. left ops reader n) \<and> rd_filename reader = prc_pcap_file config"
    using Open_settles [OF assms(1)] by blast
  show ?thesis
  proof (cases r1)
    case (Inl e)
    then show ?thesis using "open" by (simp add: RunPcapReplay_def)
  next
    case (Inr reader)
    then obtain n where n: "left ops reader n" and reader: "others reader w1 = w_handles w" using "open"(3) by auto
    obtain reader' state w2 r2 where
      "replay_loop ops config (rdtsc ops (w_clock w1)) reader initial_state (w1\<lparr>w_clock := Suc (w_clock w1)\<rparr>) =
        Some (reader', state, w2, r2)"
      "booked config state" "others reader' w2 = others reader w1" "w_mbufs w2 = w_mbufs w1"
      using replay_loop_settles [OF assms(1) paced n initial_booked, where tsc_start = "rdtsc ops (w_clock w1)" and w = "w1\<lparr>w_clock := Suc (w_clock w1)\<rparr>"]
      by (auto simp: others_def)
    then show ?thesis using "open"(1,2) reader
      by (cases r2) (auto simp: RunPcapReplay_def RunReplayLoop_def read_clock_def Inr booked_def ToStats_def)
  qed
qed

section \<open>Exact replay\<close>

text \<open>
  The capture file at a path can be opened at every attempt, holds Ethernet frames and delivers the given packets;
  each fits a buffer; and the allocator serves the replay as long as it holds fewer than 64
  buffers more than at its start.
\<close>

primrec delivers :: "'h replay_ops \<Rightarrow> 'h \<Rightarrow> (PcapPktHdr \<times> bytes) list \<Rightarrow> bool" where
  "delivers ops h [] = (fst (pcap_next_ex ops h) = NextEof)"
| "delivers ops h (p # ps) = (\<exists>h'. pcap_next_ex ops h = (NextPacket (fst p) (snd p), h') \<and> delivers ops h' ps)"

definition serves :: "'h replay_ops \<Rightarrow> string \<Rightarrow> (PcapPktHdr \<times> bytes) list \<Rightarrow> bool" where
  "serves ops path ps = (\<forall>n. \<exists>h. pcap_open_offline ops n path = Some h \<and> delivers ops h ps \<and>
     pcap_datalink ops (snd (pcap_next_ex ops h)) = DLT_EN10MB)"

definition fits :: "'h replay_ops \<Rightarrow> PcapPktHdr \<times> bytes \<Rightarrow> bool" where
  "fits ops p = (ph_caplen (fst p) \<le> ucast (pktmbuf_tailroom ops) \<and> pktmbuf_append ops (ucast (ph_caplen (fst p))))"

definition room :: "'h replay_ops \<Rightarrow> int \<Rightarrow> bool" where
  "room ops base = (\<forall>k n. n < base + 64 \<longrightarrow> pktmbuf_alloc ops k n)"

definition mbuf_of :: "PcapPktHdr \<times> bytes \<Rightarrow> ReplayMbuf" where
  "mbuf_of p = \<lparr>rm_data = take (unat (ph_caplen (fst p))) (snd p), rm_pkt_len = ph_len (fst p),
     rm_data_len = ucast (ph_caplen (fst p))\<rparr>"

definition wire_bytes :: "(PcapPktHdr \<times> bytes) list \<Rightarrow> u64" where
  "wire_bytes ps = (\<Sum>p\<leftarrow>ps. ucast (ph_len (fst p)))"

definition stands_at :: "'h replay_ops \<Rightarrow> 'h PcapReader \<Rightarrow> (PcapPktHdr \<times> bytes) list \<Rightarrow> bool" where
  "stands_at ops reader rest = (\<exists>h. rd_handle reader = Some h \<and> (if rd_eof reader then rest = [] else delivers ops h rest))"

lemma delivers_yields: "delivers ops h ps \<Longrightarrow> yields ops h ps"
  by (induction ps arbitrary: h) auto

lemma ReadPacket_end:
  assumes "stands_at ops reader []"
  shows "\<exists>reader'. ReadPacket ops reader w = (reader', w, Inr None) \<and> stands_at ops reader' []"
  using assms
  by (auto simp: stands_at_def ReadPacket_def ReadNextRawPacket_def Let_def split: prod.splits if_splits)

lemma ReadPacket_next:
  assumes "stands_at ops reader (p # ps)" and "fits ops p" and "room ops base" and "w_mbufs w < base + 64"
  shows "\<exists>reader' w'. ReadPacket ops reader w = (reader', w', Inr (Some (mbuf_of p))) \<and> stands_at ops reader' ps \<and>
    w_mbufs w' = w_mbufs w + 1"
  using assms
  by (cases p) (auto simp: stands_at_def ReadPacket_def ReadNextRawPacket_def CopyPacketToMbuf_def mbuf_of_def Let_def
      fits_def room_def not_less [symmetric] split: if_splits)

lemma read_burst_exact:
  assumes "room ops base"
  shows "stands_at ops reader rest \<Longrightarrow> \<forall>p \<in> set rest. fits ops p \<Longrightarrow> w_mbufs w + int k \<le> base + 64 \<Longrightarrow>
    \<exists>reader' w'. read_burst ops k burst reader w = (reader', w', Inr (burst @ map mbuf_of (take k rest))) \<and>
      stands_at ops reader' (drop k rest)"
proof (induction k arbitrary: burst reader w rest)
  case 0
  then show ?case by simp
next
  case (Suc k)
  show ?case
  proof (cases rest)
    case Nil
    with Suc.prems ReadPacket_end [of ops reader w] show ?thesis by auto
  next
    case (Cons p qs)
    with Suc.prems assms ReadPacket_next [of ops reader p qs base w] obtain reader1 w1 where
      step: "ReadPacket ops reader w = (reader1, w1, Inr (Some (mbuf_of p)))" "stands_at ops reader1 qs"
        "w_mbufs w1 = w_mbufs w + 1" by auto
    with Suc.IH [of reader1 qs w1 "burst @ [mbuf_of p]"] Suc.prems(2,3) Cons show ?thesis by auto
  qed
qed

lemma Reset_serves:
  assumes "serves ops path ps" and "rd_filename reader = path" and "path \<noteq> []"
  shows "\<exists>reader' w'. PcapReader_Reset ops reader w = (reader', w', Inr ()) \<and> stands_at ops reader' ps"
proof -
  obtain h where "pcap_open_offline ops (w_opens (PcapReader_destroy reader w)) path = Some h" "delivers ops h ps"
    using assms(1) unfolding serves_def by blast
  then show ?thesis using assms(2,3) by (simp add: PcapReader_Reset_def OpenPcapHandle_def stands_at_def)
qed

text \<open>The state after \<open>l\<close> whole passes and the packets \<open>past\<close> of the next one.\<close>

definition replayed :: "(PcapPktHdr \<times> bytes) list \<Rightarrow> nat \<Rightarrow> (PcapPktHdr \<times> bytes) list \<Rightarrow> PcapReplayState \<Rightarrow> bool" where
  "replayed ps l past state = (rs_loops_completed state = of_nat l \<and> rs_packets_read state = rs_packets_injected state \<and>
     rs_packets_injected state = of_nat (l * length ps + length past) \<and>
     rs_bytes_read state = of_nat l * wire_bytes ps + wire_bytes past)"

lemma replayed_pass:
  "replayed ps l ps state \<Longrightarrow> replayed ps (Suc l) [] (state\<lparr>rs_loops_completed := rs_loops_completed state + 1\<rparr>)"
  by (simp add: replayed_def wire_bytes_def algebra_simps)

lemma replayed_burst:
  assumes "replayed ps l past state"
    and "ProcessBurst ops (map mbuf_of qs) rx (state\<lparr>rs_packets_read := rs_packets_read state + of_nat (length qs)\<rparr>, w) =
      (state', w')"
  shows "replayed ps l (past @ qs) state'"
  using assms(1) ProcessBurst_effect [OF assms(2)]
  by (simp add: replayed_def wire_bytes_def mbuf_of_def comp_def algebra_simps)

lemma unat_of_nat_below: "n < unat (x :: 'a :: len word) \<Longrightarrow> unat (of_nat n :: 'a word) = n"
  by (drule less_trans [OF _ unsigned_less]) (simp add: unat_of_nat)

lemma of_nat_below_max: "n < 2 ^ 64 - 1 \<Longrightarrow> (of_nat n :: u64) < - 1"
  by (simp add: word_less_nat_alt unat_of_nat unsigned_minus_1_eq_mask mask_eq_exp_minus_1)

lemma replay_loop_exact:
  assumes serves: "serves ops path ps" and path: "path \<noteq> []" and fits: "\<forall>p \<in> set ps. fits ops p"
    and room: "room ops base" and quit: "\<forall>n. \<not> force_quit ops n" and paced: "paced ops config"
    and loops: "prc_loop_count config \<noteq> 0" and all: "prc_max_packets config = 0"
    and bound: "unat (prc_loop_count config) * length ps < 2 ^ 64 - 1"
  shows "stands_at ops reader rest \<Longrightarrow> rd_filename reader = path \<Longrightarrow> ps = past @ rest \<Longrightarrow> w_mbufs w = base \<Longrightarrow>
    l < unat (prc_loop_count config) \<Longrightarrow> replayed ps l past state \<Longrightarrow>
    \<exists>reader' state' w'. replay_loop ops config tsc_start reader state w = Some (reader', state', w', Inr ()) \<and>
      replayed ps (unat (prc_loop_count config)) [] state'"
proof (induction "(unat (prc_loop_count config) - l, length rest)" arbitrary: l rest past reader state w
    rule: wf_induct_rule [OF wf_lex_prod [OF wf_less_than wf_less_than]])
  case (1 l rest past reader state w)
  note IH = 1(1)
  let ?L = "unat (prc_loop_count config)"
  let ?w0 = "w\<lparr>w_polls := Suc (w_polls w)\<rparr>"
  have poll: "poll_quit ops w = (?w0, False)" using quit by (simp add: poll_quit_def)
  obtain reader1 w1 where read: "ReadBurst ops kBurstSize reader ?w0 = (reader1, w1, Inr (map mbuf_of (take 64 rest)))"
    and at1: "stands_at ops reader1 (drop 64 rest)"
    using read_burst_exact [OF room 1(2), of ?w0 64 "[]"] fits 1(4,5) by (auto simp: ReadBurst_def kBurstSize_def)
  have held: "w_mbufs w1 = base + int (length (take 64 rest))" "rd_filename reader1 = path"
    using read_burst_held [OF read [unfolded ReadBurst_def]] 1(3,5) by simp_all
  have loops_max: "max_loops_of config = prc_loop_count config" using loops by (simp add: max_loops_of_def)
  have "rs_loops_completed state < prc_loop_count config"
    using 1(6,7) by (simp add: replayed_def word_less_nat_alt unat_of_nat_below)
  moreover have "rs_packets_injected state < max_packets_of config"
  proof -
    have "Suc l * length ps \<le> ?L * length ps" using 1(6) by (intro mult_le_mono1) simp
    then have "l * length ps + length past < 2 ^ 64 - 1" using bound 1(4) by simp
    then have "of_nat (l * length ps + length past) < (- 1 :: u64)" by (rule of_nat_below_max)
    then show ?thesis using 1(7) all by (simp add: replayed_def max_packets_of_def del: of_nat_add of_nat_mult)
  qed
  ultimately have go: "rs_loops_completed state < max_loops_of config \<and> rs_packets_injected state < max_packets_of config"
    by (simp add: loops_max)
  show ?case
  proof (cases "rest = []")
    case True
    let ?state1 = "state\<lparr>rs_loops_completed := rs_loops_completed state + 1\<rparr>"
    have done1: "replayed ps (Suc l) [] ?state1" using replayed_pass 1(4,7) True by simp
    obtain reader2 w2 where reset: "PcapReader_Reset ops reader1 w1 = (reader2, w2, Inr ())" "stands_at ops reader2 ps"
      using Reset_serves [OF serves held(2) path] by blast
    show ?thesis
    proof (cases "Suc l = ?L")
      case last: True
      then have "prc_loop_count config = rs_loops_completed ?state1" using done1
        by (simp add: replayed_def last del: of_nat_Suc)
      then show ?thesis using True last done1 go
        by (simp add: replay_loop.simps [of _ _ _ reader state w] poll read Let_def loops_max)
    next
      case False
      then have "Suc l < ?L" using 1(6) by simp
      then have more: "\<not> prc_loop_count config \<le> rs_loops_completed state + 1"
        using done1 by (simp add: replayed_def word_le_nat_alt unat_of_nat_below flip: of_nat_Suc)
      show ?thesis using IH [of "Suc l" ps reader2 "[]" w2 ?state1] reset Reset_held [OF reset(1)] held \<open>Suc l < ?L\<close> done1 True go more
        by (simp add: replay_loop.simps [of _ _ _ reader state w] poll read Let_def loops_max)
    qed
  next
    case False
    let ?qs = "take 64 rest"
    let ?state1 = "state\<lparr>rs_packets_read := rs_packets_read state + of_nat (length ?qs)\<rparr>"
    let ?w2 = "w1\<lparr>w_clock := Suc (w_clock w1)\<rparr>"
    obtain state2 w3 where process: "ProcessBurst ops (map mbuf_of ?qs) (rdtsc ops (w_clock w1)) (?state1, ?w2) = (state2, w3)"
      by fastforce
    obtain w4 where w4: "(if 0 < prc_packets_per_second config
        then ApplyRateLimit ops (rs_packets_injected state2) tsc_start (prc_packets_per_second config) w3 else Some w3) = Some w4"
      "w_mbufs w4 = w_mbufs w3"
      using rate_limit_frame [OF paced] by blast
    have "w_mbufs w4 = base" using ProcessBurst_effect [OF process] held w4 by simp
    with IH [of l "drop 64 rest" reader1 "past @ ?qs" w4 state2] at1 held 1(4,6) replayed_burst [OF 1(7) process] False w4 go
    show ?thesis
      by (simp add: replay_loop.simps [of _ _ _ reader state w] poll read read_clock_def process del: length_take)
  qed
qed

lemma Open_serves:
  assumes "serves ops path ps" and "ps \<noteq> []"
  shows "\<exists>w' reader. PcapReader_Open ops path True w = Some (w', Inr reader) \<and> stands_at ops reader ps \<and>
    rd_filename reader = path \<and> w_mbufs w' = w_mbufs w"
proof -
  have served: "\<exists>w' h. OpenPcapHandle ops path w = (w', Inr h) \<and> delivers ops h ps \<and> w_mbufs w' = w_mbufs w \<and>
    pcap_datalink ops (snd (pcap_next_ex ops h)) = DLT_EN10MB" for w
  proof -
    obtain h where "pcap_open_offline ops (w_opens w) path = Some h" "delivers ops h ps"
      "pcap_datalink ops (snd (pcap_next_ex ops h)) = DLT_EN10MB" using assms(1) unfolding serves_def by blast
    then show ?thesis by (simp add: OpenPcapHandle_def)
  qed
  obtain w1 h1 where first: "OpenPcapHandle ops path w = (w1, Inr h1)" "delivers ops h1 ps" "w_mbufs w1 = w_mbufs w"
    "pcap_datalink ops (snd (pcap_next_ex ops h1)) = DLT_EN10MB" using served by blast
  then have valid: "ValidatePcapFile ops h1 = Inr ()" using assms(2) by (cases ps) (auto simp: ValidatePcapFile_def)
  obtain w2 h2 where second: "OpenPcapHandle ops path (close_handle w1) = (w2, Inr h2)" "delivers ops h2 ps"
    "w_mbufs w2 = w_mbufs w1" using served [of "close_handle w1"] by auto
  obtain t b where total: "CountPcapPackets ops h2 0 0 = Some (t, b)"
    using CountPcapPackets_ends [OF delivers_yields [OF second(2)]] by (metis surj_pair)
  obtain w3 h3 where "OpenPcapHandle ops path (close_handle w2) = (w3, Inr h3)" "delivers ops h3 ps"
    "w_mbufs w3 = w_mbufs w2" using served [of "close_handle w2"] by auto
  then show ?thesis using first second by (simp add: PcapReader_Open_def valid total stands_at_def)
qed

text \<open>
  The replay is exact. A capture file that can be read and whose packets fit the buffers is replayed
  completely in each of the configured passes, and the statistics say so: the number of packets and of
  bytes on the wire are those of the file times the number of passes, and every pass
  is counted. The rate limit changes nothing of it.
\<close>

theorem replay_is_exact:
  assumes "serves ops (prc_pcap_file config) ps" and "prc_pcap_file config \<noteq> []" and "ps \<noteq> []"
    and "\<forall>p \<in> set ps. fits ops p" and "room ops (w_mbufs w)" and "\<forall>n. \<not> force_quit ops n"
    and "prc_packets_per_second config = 0 \<or> clock_contract ops"
    and "prc_loop_count config \<noteq> 0" and "prc_max_packets config = 0"
    and "unat (prc_loop_count config) * length ps < 2 ^ 64 - 1"
  shows "\<exists>w' stats. RunPcapReplay ops config True w = Some (w', Inr stats) \<and>
    ps_packets_read stats = of_nat (unat (prc_loop_count config) * length ps) \<and>
    ps_packets_injected stats = ps_packets_read stats \<and>
    ps_bytes_read stats = ucast (prc_loop_count config) * wire_bytes ps \<and>
    ps_loops_completed stats = prc_loop_count config"
proof -
  have paced: "paced ops config" using assms(7) by (simp add: paced_def)
  obtain w1 reader where "open": "PcapReader_Open ops (prc_pcap_file config) True w = Some (w1, Inr reader)"
    "stands_at ops reader ps" "rd_filename reader = prc_pcap_file config" "w_mbufs w1 = w_mbufs w"
    using Open_serves [OF assms(1,3)] by blast
  have start: "replayed ps 0 [] initial_state" by (simp add: replayed_def initial_state_def wire_bytes_def)
  have "0 < unat (prc_loop_count config)" using assms(8) by (simp add: unat_gt_0)
  from replay_loop_exact [OF assms(1,2,4,5,6) paced assms(8,9,10) "open"(2,3) _ _ this start,
      where w = "w1\<lparr>w_clock := Suc (w_clock w1)\<rparr>" and tsc_start = "rdtsc ops (w_clock w1)"] "open"(4)
  obtain reader' state w2 where
    loop: "replay_loop ops config (rdtsc ops (w_clock w1)) reader initial_state (w1\<lparr>w_clock := Suc (w_clock w1)\<rparr>) =
      Some (reader', state, w2, Inr ())" "replayed ps (unat (prc_loop_count config)) [] state"
    by auto
  then show ?thesis using "open"(1)
    by (simp add: RunPcapReplay_def RunReplayLoop_def read_clock_def ToStats_def replayed_def wire_bytes_def
        unsigned_of_nat)
qed

section \<open>A capture file\<close>

text \<open>A handle is the list of the packets that are left; every open gives the whole file.\<close>

definition list_pcap :: "(PcapPktHdr \<times> bytes) list \<Rightarrow> (PcapPktHdr \<times> bytes) list replay_ops" where
  "list_pcap ps = \<lparr>pcap_open_offline = (\<lambda>_ _. Some ps),
     pcap_next_ex = (\<lambda>h. case h of [] \<Rightarrow> (NextEof, []) | p # h' \<Rightarrow> (NextPacket (fst p) (snd p), h')),
     pcap_datalink = (\<lambda>_. DLT_EN10MB), pktmbuf_alloc = (\<lambda>_ held. held < 100), pktmbuf_tailroom = 2048,
     pktmbuf_append = (\<lambda>n. n \<le> 2048), rdtsc = (\<lambda>n. 1000000 + of_nat n), tsc_hz = 1000,
     force_quit = (\<lambda>_. False)\<rparr>"

definition sample_packets :: "(PcapPktHdr \<times> bytes) list" where
  "sample_packets = replicate 70 (\<lparr>ph_caplen = 2, ph_len = 60\<rparr>, [1, 2])"

definition sample_replay :: PcapReplayConfig where
  "sample_replay = \<lparr>prc_pcap_file = ''a.pcap'', prc_loop_count = 3, prc_packets_per_second = 0, prc_max_packets = 0\<rparr>"

definition quiet_world :: World where
  "quiet_world = \<lparr>w_opens = 0, w_handles = 0, w_allocs = 0, w_mbufs = 0, w_clock = 0, w_polls = 0\<rparr>"

lemma list_pcap_delivers: "delivers (list_pcap ps) h h"
  by (induction h) (auto simp: list_pcap_def)

lemma list_pcap_serves: "serves (list_pcap ps) path ps"
  using list_pcap_delivers [of ps ps] by (simp add: serves_def) (simp add: list_pcap_def)

lemma list_pcap_offline: "offline_contract (list_pcap ps)"
  using delivers_yields [OF list_pcap_delivers] unfolding offline_contract_def by blast

theorem replay_returns_and_releases_witness:
  "\<exists>w' r. RunPcapReplay (list_pcap sample_packets) sample_replay True quiet_world = Some (w', r) \<and>
    w_mbufs w' = w_mbufs quiet_world \<and> w_handles w' = w_handles quiet_world \<and>
    (case r of Inl _ \<Rightarrow> True
     | Inr stats \<Rightarrow> ps_packets_injected stats = ps_packets_read stats \<and>
         ps_loops_completed stats \<le> max_loops_of sample_replay \<and>
         unat (ps_packets_injected stats) < unat (max_packets_of sample_replay) + 64)"
  by (rule replay_returns_and_releases [OF list_pcap_offline]) (simp add: sample_replay_def)

theorem replay_is_exact_witness:
  "\<exists>w' stats. RunPcapReplay (list_pcap sample_packets) sample_replay True quiet_world = Some (w', Inr stats) \<and>
    ps_packets_read stats = of_nat (unat (prc_loop_count sample_replay) * length sample_packets) \<and>
    ps_packets_injected stats = ps_packets_read stats \<and>
    ps_bytes_read stats = ucast (prc_loop_count sample_replay) * wire_bytes sample_packets \<and>
    ps_loops_completed stats = prc_loop_count sample_replay"
  by (rule replay_is_exact [OF list_pcap_serves])
    (simp_all add: sample_replay_def sample_packets_def fits_def room_def list_pcap_def quiet_world_def)

section \<open>Defects\<close>

text \<open>
  The rate limiter compares the cycle counter, which counts from the start of the machine, with the number of
  cycles the replay should have taken. Once the counter is beyond that number, which it is from the start
  when the machine has been up for longer than the replay takes, it reads the clock at most twice and goes on.
\<close>

theorem rate_limiter_does_not_wait:
  assumes "n * tsc_hz ops div rate \<le> rdtsc ops (Suc (w_clock w))"
  shows "\<exists>w'. ApplyRateLimit ops n tsc_start rate w = Some w' \<and> w_clock w' \<le> w_clock w + 2 \<and> w_polls w' = w_polls w"
  using assms
  by (auto simp: ApplyRateLimit_def read_clock_def Let_def spin.simps [of ops "n * tsc_hz ops div rate"] not_less [symmetric])

text \<open>
  One hundred packets at ten a second should take ten thousand ticks of this clock; the limiter lets them pass
  after two.
\<close>

theorem rate_limiter_does_not_wait_witness:
  "\<exists>w'. ApplyRateLimit (list_pcap sample_packets) 100 (rdtsc (list_pcap sample_packets) 0) 10 quiet_world = Some w' \<and>
    w_clock w' \<le> w_clock quiet_world + 2 \<and> w_polls w' = w_polls quiet_world"
  by (rule rate_limiter_does_not_wait) code_simp

text \<open>
  Move assignment leaves the name of the file behind: the reader that was assigned to rewinds to the file it was
  opened for itself.
\<close>

theorem assigned_reader_rewinds_to_old_file:
  assumes "PcapReader_assign this other w = (this', other', w')" and "rd_filename this \<noteq> []"
    and "pcap_open_offline ops (w_opens w') (rd_filename this) = Some h"
  shows "rd_handle this' = rd_handle other \<and> rd_handle (fst (PcapReader_Reset ops this' w')) = Some h"
proof -
  have "w_opens (PcapReader_destroy this' w') = w_opens w'" by (simp add: PcapReader_destroy_def)
  then show ?thesis using assms by (auto simp: PcapReader_assign_def PcapReader_Reset_def OpenPcapHandle_def)
qed

end
