(* ===== verification/App_Signal.thy ===== *)
theory App_Signal
  imports Dpdk_Prelude
begin

text \<open>
  The signal handlers (\<^verbatim>\<open>app_signal.hpp\<close>, \<^verbatim>\<open>app_signal.cpp\<close>): two flags that the handler sets and the loops poll.
  \<^verbatim>\<open>std::signal\<close> is a parameter that says whether a handler could be registered.
\<close>

definition SIGINT :: int where "SIGINT = 2"

definition SIGUSR1 :: int where "SIGUSR1 = 10"

definition SIGTERM :: int where "SIGTERM = 15"

record SignalFlags =
  sf_force_quit :: int
  sf_reload_requested :: int

definition HandleSignal :: "int \<Rightarrow> SignalFlags \<Rightarrow> SignalFlags" where
  "HandleSignal sig flags =
     (if sig = SIGINT \<or> sig = SIGTERM then flags\<lparr>sf_force_quit := 1\<rparr>
      else if sig = SIGUSR1 then flags\<lparr>sf_reload_requested := 1\<rparr>
      else flags)"

text \<open>The signals whose handler is in place, and the result: the first failure ends the registration.\<close>

definition InstallSignalHandlers :: "(int \<Rightarrow> bool) \<Rightarrow> int list \<times> bool" where
  "InstallSignalHandlers register_handler =
     (let installed = takeWhile register_handler [SIGINT, SIGTERM, SIGUSR1] in (installed, length installed = 3))"

text \<open>
  Whatever signals arrive, in whatever order, a request is never lost and never made up: the quit flag
  is up exactly if it was or an interrupt or termination signal came, the reload flag
  exactly if it was or a user signal came.
\<close>

lemma signals_recorded:
  "sf_force_quit (fold HandleSignal sigs flags) = (if SIGINT \<in> set sigs \<or> SIGTERM \<in> set sigs then 1 else sf_force_quit flags)"
  "sf_reload_requested (fold HandleSignal sigs flags) = (if SIGUSR1 \<in> set sigs then 1 else sf_reload_requested flags)"
  by (induction sigs arbitrary: flags)
    (auto simp: HandleSignal_def SIGINT_def SIGTERM_def SIGUSR1_def)

lemma InstallSignalHandlers_all:
  "snd (InstallSignalHandlers register_handler) \<longleftrightarrow> register_handler SIGINT \<and> register_handler SIGTERM \<and> register_handler SIGUSR1"
  by (simp add: InstallSignalHandlers_def)

end
