(* ===== verification/Flow_Concurrency.thy ===== *)
theory Flow_Concurrency
  imports Flow_Table
begin

text \<open>
  The flow table under concurrency (\<^verbatim>\<open>spi/spi_flow_table.hpp\<close>, \<^verbatim>\<open>spi/spi_flow_table.cpp\<close>). Workers run
  \<^verbatim>\<open>Lookup\<close>, \<^verbatim>\<open>LookupBulk\<close> and \<^verbatim>\<open>Insert\<close> and the main core runs \<^verbatim>\<open>PurgeExpired\<close>, each statement by
  statement: every call of the hash library, every load or store of an atomic and every critical section
  of the free-list lock is one step, and the steps of all cores interleave in any order. The state is
  the table of \<open>Flow_Table\<close>; two logs record what was asked to be stored and what was answered.
  The hash library is used as documented for concurrent writers and lock-free readers: each of its calls
  takes effect at one moment. Memory is sequentially consistent.
\<close>

section \<open>The cores\<close>

text \<open>The action and the match count a worker wants to store for a flow.\<close>

record InsertRequest =
  ir_key :: FlowKey
  ir_count :: u64
  ir_action :: Action

text \<open>
  Where a worker stands. \<open>Reading\<close> holds the entries that the hash gave for the keys looked up and
  that are still to be read, \<open>Refreshing\<close> the entry that was read and whose time stamp is still to be
  stored. \<open>Found\<close> and \<open>FoundStamped\<close> are in the branch of \<^verbatim>\<open>Insert\<close> for a key that is present, the
  others in the branch for a new key.
\<close>

datatype FlowPc =
  FlowIdle
| Reading u64 "(FlowKey \<times> nat) list"
| Refreshing u64 FlowKey nat Action "(FlowKey \<times> nat) list"
| Found InsertRequest nat
| FoundStamped InsertRequest nat
| Missed InsertRequest
| Popped InsertRequest nat
| PoppedStamped InsertRequest nat
| Filled InsertRequest nat
| Refused InsertRequest nat

text \<open>
  Where the main core stands in \<^verbatim>\<open>PurgeExpired\<close>; it holds the free-list lock except in \<open>PurgeIdle\<close>. The arguments are the
  threshold, the index of the scan and the entries freed so far.
\<close>

datatype PurgePc =
  PurgeIdle
| PurgeScan u64 nat "nat list"
| PurgeCheckTime u64 nat "nat list"
| PurgeFindKey u64 nat "nat list"
| PurgeDelete u64 nat "nat list" FlowKey
| PurgeClear u64 nat "nat list"
| PurgeClearTime u64 nat "nat list"
| PurgeFree u64 nat "nat list"

record 'h FlowSys =
  fs_table :: "'h FlowTable"
  fs_workers :: "FlowPc list"
  fs_purge :: PurgePc
  fs_requests :: "(FlowKey \<times> Action) list"
  fs_answers :: "(FlowKey \<times> Action) list"

definition initial_flow_sys :: "'h rte_hash_ops \<Rightarrow> u32 \<Rightarrow> nat \<Rightarrow> 'h FlowSys" where
  "initial_flow_sys ops capacity n = \<lparr>fs_table = make_FlowTable ops capacity, fs_workers = replicate n FlowIdle,
     fs_purge = PurgeIdle, fs_requests = [], fs_answers = []\<rparr>"

section \<open>Steps of a worker\<close>

text \<open>
  The first statement of \<^verbatim>\<open>Lookup\<close> and of \<^verbatim>\<open>LookupBulk\<close>: the hash is asked for the keys. Hits are read one after the other.
\<close>

definition begin_lookup :: "FlowKey list \<Rightarrow> u64 \<Rightarrow> 'h FlowTable \<Rightarrow> FlowPc" where
  "begin_lookup keys now_tsc t =
     (case ft_hash t of None \<Rightarrow> FlowIdle
      | Some h \<Rightarrow> Reading now_tsc (List.map_filter (\<lambda>(key, hit). map_option (Pair key) hit)
          (zip (take kMaxBulkKeys keys) (op_lookup_bulk_data (ft_ops t) h (take kMaxBulkKeys keys)))))"

text \<open>The first statement of \<^verbatim>\<open>Insert\<close>.\<close>

definition begin_insert :: "InsertRequest \<Rightarrow> 'h FlowTable \<Rightarrow> 'h FlowTable \<times> FlowPc" where
  "begin_insert r t =
     (case ft_hash t of None \<Rightarrow> (t\<lparr>overflow_count := overflow_count t + 1\<rparr>, FlowIdle)
      | Some h \<Rightarrow> (t, case op_lookup_data (ft_ops t) h (ir_key r) of Some i \<Rightarrow> Found r i | None \<Rightarrow> Missed r))"

text \<open>
  The next statement of an operation that has begun; \<open>tsc\<close> is what \<^verbatim>\<open>rte_rdtsc\<close> gives, and the last component is the
  answer, if one is given. The critical sections of the free-list lock are single steps.
\<close>

definition worker_next :: "u64 \<Rightarrow> FlowPc \<Rightarrow> 'h FlowTable \<Rightarrow> 'h FlowTable \<times> FlowPc \<times> (FlowKey \<times> Action) list" where
  "worker_next tsc pc t = (case pc of
     FlowIdle \<Rightarrow> (t, FlowIdle, [])
   | Reading now_tsc [] \<Rightarrow> (t, FlowIdle, [])
   | Reading now_tsc ((key, i) # pending) \<Rightarrow>
       let packed = action_and_count (ft_data t ! i) in
       (t, if packed = 0 then Reading now_tsc pending else Refreshing now_tsc key i (DecodePacked packed) pending, [])
   | Refreshing now_tsc key i action pending \<Rightarrow>
       (update_data i (\<lambda>d. d\<lparr>last_seen := now_tsc\<rparr>) t, Reading now_tsc pending, [(key, action)])
   | Found r i \<Rightarrow> (update_data i (\<lambda>d. d\<lparr>last_seen := tsc\<rparr>) t, FoundStamped r i, [])
   | FoundStamped r i \<Rightarrow>
       (update_data i (\<lambda>d. d\<lparr>action_and_count := pack_entry (ir_count r) (ir_action r)\<rparr>) t, FlowIdle, [])
   | Missed r \<Rightarrow>
       if free_list t = [] then (t\<lparr>overflow_count := overflow_count t + 1\<rparr>, FlowIdle, [])
       else (t\<lparr>free_list := butlast (free_list t)\<rparr>, Popped r (last (free_list t)), [])
   | Popped r i \<Rightarrow> (update_data i (\<lambda>d. d\<lparr>last_seen := tsc\<rparr>) t, PoppedStamped r i, [])
   | PoppedStamped r i \<Rightarrow>
       (update_data i (\<lambda>d. d\<lparr>action_and_count := pack_entry (ir_count r) (ir_action r)\<rparr>) t, Filled r i, [])
   | Filled r i \<Rightarrow>
       (case Option.bind (ft_hash t) (\<lambda>h. op_add_key_data (ft_ops t) h (ir_key r) i) of
          None \<Rightarrow> (t, Refused r i, [])
        | Some h' \<Rightarrow> (t\<lparr>ft_hash := Some h'\<rparr>, FlowIdle, []))
   | Refused r i \<Rightarrow>
       (t\<lparr>free_list := free_list t @ [i], overflow_count := overflow_count t + 1\<rparr>, FlowIdle, []))"

text \<open>These statements wait for the lock.\<close>

definition needs_lock :: "FlowPc \<Rightarrow> bool" where
  "needs_lock pc \<longleftrightarrow> (case pc of Missed r \<Rightarrow> True | Refused r i \<Rightarrow> True | _ \<Rightarrow> False)"

section \<open>Steps of the main core\<close>

definition purge_next :: "PurgePc \<Rightarrow> 'h FlowTable \<Rightarrow> 'h FlowTable \<times> PurgePc" where
  "purge_next pc t = (case pc of
     PurgeIdle \<Rightarrow> (t, PurgeIdle)
   | PurgeScan threshold idx expired \<Rightarrow>
       if unat (max_concurrent_flows t) \<le> idx then (t\<lparr>free_list := free_list t @ expired\<rparr>, PurgeIdle)
       else if action_and_count (ft_data t ! idx) = 0 then (t, PurgeScan threshold (idx + 1) expired)
       else (t, PurgeCheckTime threshold idx expired)
   | PurgeCheckTime threshold idx expired \<Rightarrow>
       (t, if last_seen (ft_data t ! idx) < threshold then PurgeFindKey threshold idx expired
           else PurgeScan threshold (idx + 1) expired)
   | PurgeFindKey threshold idx expired \<Rightarrow>
       (t, case Option.bind (ft_hash t) (\<lambda>h. op_get_key_with_position (ft_ops t) h idx) of
             None \<Rightarrow> PurgeScan threshold (idx + 1) expired
           | Some key \<Rightarrow> PurgeDelete threshold idx expired key)
   | PurgeDelete threshold idx expired key \<Rightarrow>
       (case Option.bind (ft_hash t) (\<lambda>h. op_del_key (ft_ops t) h key) of
          None \<Rightarrow> (t, PurgeScan threshold (idx + 1) expired)
        | Some h' \<Rightarrow> (t\<lparr>ft_hash := Some h'\<rparr>, PurgeClear threshold idx expired))
   | PurgeClear threshold idx expired \<Rightarrow>
       (update_data idx (\<lambda>d. d\<lparr>action_and_count := 0\<rparr>) t, PurgeClearTime threshold idx expired)
   | PurgeClearTime threshold idx expired \<Rightarrow>
       (update_data idx (\<lambda>d. d\<lparr>last_seen := 0\<rparr>) t, PurgeFree threshold idx expired)
   | PurgeFree threshold idx expired \<Rightarrow>
       (t\<lparr>ft_hash := map_option (\<lambda>h. op_free_key_with_position (ft_ops t) h idx) (ft_hash t)\<rparr>,
        PurgeScan threshold (idx + 1) (expired @ [idx])))"

section \<open>Interleaving\<close>

text \<open>An operation begins on an idle worker, a worker goes on, a purge begins, goes on or is
  cancelled. The code looks at the quit flag at every 1024th entry of the scan; here it may do so at any.\<close>

datatype FlowEvent =
  BeginLookup nat "FlowKey list" u64
| BeginInsert nat InsertRequest
| Continue nat u64
| BeginPurge u64 u64
| ContinuePurge
| CancelPurge

definition flow_enabled :: "FlowEvent \<Rightarrow> 'h FlowSys \<Rightarrow> bool" where
  "flow_enabled e s = (case e of
     BeginLookup w keys now_tsc \<Rightarrow> w < length (fs_workers s) \<and> fs_workers s ! w = FlowIdle
   | BeginInsert w r \<Rightarrow> w < length (fs_workers s) \<and> fs_workers s ! w = FlowIdle
   | Continue w tsc \<Rightarrow> w < length (fs_workers s) \<and> fs_workers s ! w \<noteq> FlowIdle \<and>
       (needs_lock (fs_workers s ! w) \<longrightarrow> fs_purge s = PurgeIdle)
   | BeginPurge now_tsc ttl_cycles \<Rightarrow> fs_purge s = PurgeIdle \<and> ft_hash (fs_table s) \<noteq> None \<and> ttl_cycles < now_tsc
   | ContinuePurge \<Rightarrow> fs_purge s \<noteq> PurgeIdle
   | CancelPurge \<Rightarrow> (case fs_purge s of PurgeScan threshold idx expired \<Rightarrow> True | _ \<Rightarrow> False))"

definition flow_perform :: "FlowEvent \<Rightarrow> 'h FlowSys \<Rightarrow> 'h FlowSys" where
  "flow_perform e s = (case e of
     BeginLookup w keys now_tsc \<Rightarrow> s\<lparr>fs_workers := (fs_workers s)[w := begin_lookup keys now_tsc (fs_table s)]\<rparr>
   | BeginInsert w r \<Rightarrow>
       (case begin_insert r (fs_table s) of (t, pc) \<Rightarrow>
          s\<lparr>fs_table := t, fs_workers := (fs_workers s)[w := pc], fs_requests := fs_requests s @ [(ir_key r, ir_action r)]\<rparr>)
   | Continue w tsc \<Rightarrow>
       (case worker_next tsc (fs_workers s ! w) (fs_table s) of (t, pc, answers) \<Rightarrow>
          s\<lparr>fs_table := t, fs_workers := (fs_workers s)[w := pc], fs_answers := fs_answers s @ answers\<rparr>)
   | BeginPurge now_tsc ttl_cycles \<Rightarrow> s\<lparr>fs_purge := PurgeScan (now_tsc - ttl_cycles) 0 []\<rparr>
   | ContinuePurge \<Rightarrow> (case purge_next (fs_purge s) (fs_table s) of (t, pc) \<Rightarrow> s\<lparr>fs_table := t, fs_purge := pc\<rparr>)
   | CancelPurge \<Rightarrow>
       (case fs_purge s of
          PurgeScan threshold idx expired \<Rightarrow>
            let t = fs_table s in s\<lparr>fs_table := t\<lparr>free_list := free_list t @ expired\<rparr>, fs_purge := PurgeIdle\<rparr>
        | _ \<Rightarrow> s))"

text \<open>A run; without result if some event was not possible.\<close>

fun flow_run :: "FlowEvent list \<Rightarrow> 'h FlowSys \<Rightarrow> 'h FlowSys option" where
  "flow_run [] s = Some s"
| "flow_run (e # es) s = (if flow_enabled e s then flow_run es (flow_perform e s) else None)"

definition is_purge :: "FlowEvent \<Rightarrow> bool" where
  "is_purge e \<longleftrightarrow> (case e of BeginPurge now_tsc ttl_cycles \<Rightarrow> True | _ \<Rightarrow> False)"

section \<open>The operations run alone\<close>

definition worker_alone ::
    "u64 \<Rightarrow> 'h FlowTable \<times> FlowPc \<times> (FlowKey \<times> Action) list \<Rightarrow> 'h FlowTable \<times> FlowPc \<times> (FlowKey \<times> Action) list" where
  "worker_alone tsc = (\<lambda>(t, pc, answers). case worker_next tsc pc t of (t', pc', a) \<Rightarrow> (t', pc', answers @ a))"

text \<open>
  A worker that nobody interrupts does in a few steps what \<^const>\<open>Flow_Insert\<close> and \<^const>\<open>Flow_Lookup\<close> do in one.
\<close>

lemma worker_alone_idle: "(worker_alone tsc ^^ n) (t, FlowIdle, answers) = (t, FlowIdle, answers)"
  by (induction n) (simp_all add: worker_alone_def worker_next_def)

lemma update_again: "xs[i := f (xs[i := a] ! i)] = xs[i := f a]"
  by (cases "i < length xs") (simp_all add: list_update_beyond)

lemma insert_alone:
  assumes "begin_insert r t = (t1, pc)"
  shows "(worker_alone tsc ^^ 5) (t1, pc, []) = (fst (Flow_Insert (ir_key r) (ir_count r) (ir_action r) tsc t), FlowIdle, [])"
  using assms
  by (auto simp: begin_insert_def Flow_Insert_def worker_alone_def worker_next_def store_entry_def update_data_def
      update_again [of _ _ "\<lambda>d. d\<lparr>action_and_count := _\<rparr>"] eval_nat_numeral Let_def split: option.splits if_splits)

lemma lookup_alone:
  assumes "rte_hash_contract (ft_ops t)"
  shows "(worker_alone tsc ^^ 3) (t, begin_lookup [key] now_tsc t, []) =
    (fst (Flow_Lookup key now_tsc t), FlowIdle, case snd (Flow_Lookup key now_tsc t) of None \<Rightarrow> [] | Some a \<Rightarrow> [(key, a)])"
  using assms
  by (auto simp: begin_lookup_def Flow_Lookup_def worker_alone_def worker_next_def kMaxBulkKeys_def rte_hash_contract_def
      List.map_filter_def eval_nat_numeral Let_def split: option.splits)

section \<open>The invariant\<close>

text \<open>
  What a worker can do harm with: the entries it has taken from the free list and not yet made visible, the entries it holds for
  a flow, and the decision it carries.
\<close>

fun private_entries :: "FlowPc \<Rightarrow> nat set" where
  "private_entries (Popped r i) = {i}"
| "private_entries (PoppedStamped r i) = {i}"
| "private_entries (Filled r i) = {i}"
| "private_entries (Refused r i) = {i}"
| "private_entries _ = {}"

fun claims :: "FlowPc \<Rightarrow> (FlowKey \<times> nat) set" where
  "claims (Reading now_tsc pending) = set pending"
| "claims (Refreshing now_tsc key i action pending) = Set.insert (key, i) (set pending)"
| "claims (Found r i) = {(ir_key r, i)}"
| "claims (FoundStamped r i) = {(ir_key r, i)}"
| "claims (Filled r i) = {(ir_key r, i)}"
| "claims _ = {}"

fun decisions_of :: "FlowPc \<Rightarrow> (FlowKey \<times> Action) set" where
  "decisions_of (Reading now_tsc pending) = {}"
| "decisions_of (Refreshing now_tsc key i action pending) = {(key, action)}"
| "decisions_of (Found r i) = {(ir_key r, ir_action r)}"
| "decisions_of (FoundStamped r i) = {(ir_key r, ir_action r)}"
| "decisions_of (Missed r) = {(ir_key r, ir_action r)}"
| "decisions_of (Popped r i) = {(ir_key r, ir_action r)}"
| "decisions_of (PoppedStamped r i) = {(ir_key r, ir_action r)}"
| "decisions_of (Filled r i) = {(ir_key r, ir_action r)}"
| "decisions_of _ = {}"

text \<open>An entry is fit for a flow if it is empty or holds a decision that was asked to be stored for the flow.\<close>

definition fit :: "'h FlowTable \<Rightarrow> (FlowKey \<times> Action) set \<Rightarrow> FlowKey \<Rightarrow> nat \<Rightarrow> bool" where
  "fit t requests key i \<longleftrightarrow> i < length (ft_data t) \<and>
     (action_and_count (ft_data t ! i) = 0 \<or> (key, DecodePacked (action_and_count (ft_data t ! i))) \<in> requests)"

definition table_fit :: "'h FlowTable \<Rightarrow> (FlowKey \<times> Action) set \<Rightarrow> bool" where
  "table_fit t requests \<longleftrightarrow> rte_hash_contract (ft_ops t) \<and> distinct (free_list t) \<and>
     set (free_list t) \<subseteq> {..<length (ft_data t)} \<and>
     (\<forall>key i. slot_of t key = Some i \<longrightarrow> fit t requests key i \<and> i \<notin> set (free_list t)) \<and>
     (\<forall>key key' i. slot_of t key = Some i \<longrightarrow> slot_of t key' = Some i \<longrightarrow> key = key')"

definition worker_fit :: "'h FlowTable \<Rightarrow> (FlowKey \<times> Action) set \<Rightarrow> FlowPc \<Rightarrow> bool" where
  "worker_fit t requests pc \<longleftrightarrow>
     (\<forall>key i. (key, i) \<in> claims pc \<longrightarrow> fit t requests key i \<and> i \<notin> set (free_list t) \<and>
        (\<forall>key'. slot_of t key' = Some i \<longrightarrow> key' = key) \<and> (\<forall>key'. (key', i) \<in> claims pc \<longrightarrow> key' = key)) \<and>
     (\<forall>i \<in> private_entries pc. i < length (ft_data t) \<and> i \<notin> set (free_list t) \<and> (\<forall>key. slot_of t key \<noteq> Some i)) \<and>
     decisions_of pc \<subseteq> requests"

text \<open>Two workers do not prepare the same entry, and agree on the flow of an entry both hold.\<close>

definition compatible :: "FlowPc \<Rightarrow> FlowPc \<Rightarrow> bool" where
  "compatible pc pc' \<longleftrightarrow> private_entries pc \<inter> private_entries pc' = {} \<and>
     (\<forall>key i. (key, i) \<in> claims pc' \<longrightarrow> i \<notin> private_entries pc) \<and>
     (\<forall>key i. (key, i) \<in> claims pc \<longrightarrow> i \<notin> private_entries pc') \<and>
     (\<forall>key key' i. (key, i) \<in> claims pc \<longrightarrow> (key', i) \<in> claims pc' \<longrightarrow> key = key')"

lemma compatible_sym: "compatible pc pc' \<longleftrightarrow> compatible pc' pc"
  unfolding compatible_def by blast

definition concurrent_ok :: "'h FlowSys \<Rightarrow> bool" where
  "concurrent_ok s \<longleftrightarrow> table_fit (fs_table s) (set (fs_requests s)) \<and> fs_purge s = PurgeIdle \<and>
     (\<forall>w < length (fs_workers s). worker_fit (fs_table s) (set (fs_requests s)) (fs_workers s ! w)) \<and>
     (\<forall>w < length (fs_workers s). \<forall>v < length (fs_workers s). w \<noteq> v \<longrightarrow> compatible (fs_workers s ! w) (fs_workers s ! v)) \<and>
     set (fs_answers s) \<subseteq> set (fs_requests s)"

section \<open>One step\<close>

text \<open>
  What a step of one worker must do: keep the table and itself fit, and disturb no other worker \<open>q\<close>.
\<close>

definition harmless ::
    "'h FlowTable \<Rightarrow> FlowPc \<Rightarrow> 'h FlowTable \<Rightarrow> FlowPc \<Rightarrow> (FlowKey \<times> Action) set \<Rightarrow> FlowPc \<Rightarrow> bool" where
  "harmless t pc t' pc' requests q \<longleftrightarrow>
     (worker_fit t requests q \<and> compatible pc q \<longrightarrow> worker_fit t' requests q \<and> compatible pc' q)"

lemma slot_of_update_data: "slot_of (update_data i f t) = slot_of t"
  by (simp add: slot_of_def fun_eq_iff)

lemma fit_update_data:
  "fit (update_data i f t) requests key j \<longleftrightarrow> (if i = j then j < length (ft_data t) \<and>
     (action_and_count (f (ft_data t ! i)) = 0 \<or> (key, DecodePacked (action_and_count (f (ft_data t ! i)))) \<in> requests)
     else fit t requests key j)"
  by (auto simp: fit_def update_data_def)

lemma fit_frame:
  "fit (t\<lparr>free_list := fs\<rparr>) requests key i = fit t requests key i"
  "fit (t\<lparr>overflow_count := n\<rparr>) requests key i = fit t requests key i"
  "fit (t\<lparr>ft_hash := h\<rparr>) requests key i = fit t requests key i"
  by (simp_all add: fit_def)

text \<open>Time stamps do not matter.\<close>

lemma stamp_fit:
  "table_fit (update_data i (\<lambda>d. d\<lparr>last_seen := n\<rparr>) t) requests = table_fit t requests"
  "worker_fit (update_data i (\<lambda>d. d\<lparr>last_seen := n\<rparr>) t) requests pc = worker_fit t requests pc"
proof -
  have "fit (update_data i (\<lambda>d. d\<lparr>last_seen := n\<rparr>) t) requests = fit t requests"
    by (auto simp: fun_eq_iff fit_update_data) (auto simp: fit_def)
  then show "table_fit (update_data i (\<lambda>d. d\<lparr>last_seen := n\<rparr>) t) requests = table_fit t requests"
    "worker_fit (update_data i (\<lambda>d. d\<lparr>last_seen := n\<rparr>) t) requests pc = worker_fit t requests pc"
    by (simp_all add: table_fit_def worker_fit_def)
qed

text \<open>A store that is wanted for the flow of the entry keeps every entry fit for its flow.\<close>

lemma store_fit:
  assumes "(key, action) \<in> requests" and "i < length (ft_data t)"
    and "t' = update_data i (\<lambda>d. d\<lparr>action_and_count := pack_entry count action\<rparr>) t"
  shows "table_fit t requests \<Longrightarrow> (\<And>key'. slot_of t key' = Some i \<Longrightarrow> key' = key) \<Longrightarrow> table_fit t' requests"
    and "worker_fit t requests pc \<Longrightarrow> (\<And>key'. (key', i) \<in> claims pc \<Longrightarrow> key' = key) \<Longrightarrow> worker_fit t' requests pc"
    and "fit t' requests key i"
proof -
  have data: "fit t' requests k j \<longleftrightarrow> (if i = j then (k, action) \<in> requests \<or> pack_entry count action = 0 else fit t requests k j)"
    for k j using assms(2) by (simp add: assms(3) fit_update_data DecodePacked_pack disj_commute)
  have frame: "slot_of t' = slot_of t" "free_list t' = free_list t" "length (ft_data t') = length (ft_data t)"
    "ft_ops t' = ft_ops t"
    by (simp_all add: assms(3))
  show "table_fit t' requests" if "table_fit t requests" "\<And>key'. slot_of t key' = Some i \<Longrightarrow> key' = key"
    using that assms(1) unfolding table_fit_def frame data by metis
  show "worker_fit t' requests pc" if "worker_fit t requests pc" "\<And>key'. (key', i) \<in> claims pc \<Longrightarrow> key' = key"
    using that assms(1) unfolding worker_fit_def frame data by metis
  show "fit t' requests key i" using assms(1) by (simp add: data)
qed

text \<open>Dropping claims and private entries is harmless.\<close>

lemma worker_fit_mono:
  assumes "worker_fit t requests pc" and "claims pc' \<subseteq> claims pc" and "private_entries pc' \<subseteq> private_entries pc"
    and "decisions_of pc' \<subseteq> requests"
  shows "worker_fit t requests pc'"
  using assms unfolding worker_fit_def by blast

lemma compatible_mono:
  assumes "compatible pc q" and "claims pc' \<subseteq> claims pc" and "private_entries pc' \<subseteq> private_entries pc"
  shows "compatible pc' q"
  using assms unfolding compatible_def by blast

lemma drop_claims:
  assumes "worker_fit t requests pc" and "claims pc' \<subseteq> claims pc" and "private_entries pc' \<subseteq> private_entries pc"
    and "decisions_of pc' \<subseteq> requests"
  shows "worker_fit t requests pc' \<and> harmless t pc t pc' requests q"
  using worker_fit_mono [OF assms] compatible_mono [OF _ assms(2,3)] unfolding harmless_def by blast

lemma stamp_step:
  assumes "table_fit t requests" and "worker_fit t requests pc" and "claims pc' \<subseteq> claims pc"
    and "private_entries pc' \<subseteq> private_entries pc" and "decisions_of pc' \<subseteq> requests"
    and "t' = update_data i (\<lambda>d. d\<lparr>last_seen := n\<rparr>) t"
  shows "table_fit t' requests \<and> worker_fit t' requests pc' \<and> harmless t pc t' pc' requests q"
  using drop_claims [OF assms(2-5), of q] assms(1) unfolding harmless_def assms(6) by (simp add: stamp_fit)

text \<open>Another worker has nothing to do with an entry that is private to this one.\<close>

lemma others_elsewhere:
  assumes "compatible pc q" and "i \<in> private_entries pc"
  shows "(key, i) \<notin> claims q" and "i \<notin> private_entries q"
  using assms unfolding compatible_def by blast+

lemma claims_fit: "worker_fit t requests pc \<Longrightarrow> (key, i) \<in> claims pc \<Longrightarrow> fit t requests key i"
  unfolding worker_fit_def by blast

lemma carried_fit: "worker_fit t requests pc \<Longrightarrow> decisions_of pc \<subseteq> requests"
  unfolding worker_fit_def by blast

lemma idle_fit: "worker_fit t requests FlowIdle" "compatible FlowIdle q"
  by (simp_all add: worker_fit_def compatible_def)

lemma found_step:
  assumes "table_fit t requests" and "worker_fit t requests (FoundStamped r i)"
    and "t' = update_data i (\<lambda>d. d\<lparr>action_and_count := pack_entry (ir_count r) (ir_action r)\<rparr>) t"
  shows "table_fit t' requests \<and> worker_fit t' requests FlowIdle \<and> harmless t (FoundStamped r i) t' FlowIdle requests q"
proof -
  have r: "(ir_key r, ir_action r) \<in> requests" "i < length (ft_data t)"
    "\<And>key'. slot_of t key' = Some i \<Longrightarrow> key' = ir_key r"
    using assms(2) by (auto simp: worker_fit_def fit_def)
  have "worker_fit t' requests q" if "worker_fit t requests q" "compatible (FoundStamped r i) q"
    by (rule store_fit(2) [OF r(1,2) assms(3) that(1)]) (use that(2) in \<open>simp add: compatible_def\<close>)
  moreover have "table_fit t' requests" by (rule store_fit(1) [OF r(1,2) assms(3,1) r(3)])
  ultimately show ?thesis using idle_fit unfolding harmless_def by blast
qed

lemma fill_step:
  assumes "table_fit t requests" and "worker_fit t requests (PoppedStamped r i)"
    and "t' = update_data i (\<lambda>d. d\<lparr>action_and_count := pack_entry (ir_count r) (ir_action r)\<rparr>) t"
  shows "table_fit t' requests \<and> worker_fit t' requests (Filled r i) \<and>
    harmless t (PoppedStamped r i) t' (Filled r i) requests q"
proof -
  have r: "(ir_key r, ir_action r) \<in> requests" "i < length (ft_data t)" "\<And>key'. slot_of t key' \<noteq> Some i"
    "i \<notin> set (free_list t)"
    using assms(2) by (auto simp: worker_fit_def)
  have "worker_fit t' requests q" "compatible (Filled r i) q"
    if q: "worker_fit t requests q" "compatible (PoppedStamped r i) q"
  proof -
    show "worker_fit t' requests q"
      by (rule store_fit(2) [OF r(1,2) assms(3) q(1)]) (use others_elsewhere(1) [OF q(2), of i] in simp)
    show "compatible (Filled r i) q" using q(2) unfolding compatible_def by auto
  qed
  moreover have "table_fit t' requests" using store_fit(1) [OF r(1,2) assms(3,1)] r(3) by blast
  moreover have "worker_fit t' requests (Filled r i)"
    using store_fit(3) [OF r(1,2) assms(3)] r by (auto simp: worker_fit_def assms(3) slot_of_update_data)
  ultimately show ?thesis unfolding harmless_def by blast
qed

lemma pop_step:
  assumes "table_fit t requests" and "worker_fit t requests (Missed r)" and "free_list t = fs @ [i]"
    and "t' = t\<lparr>free_list := fs\<rparr>"
  shows "table_fit t' requests \<and> worker_fit t' requests (Popped r i) \<and> harmless t (Missed r) t' (Popped r i) requests q"
proof -
  have "worker_fit t' requests q" "compatible (Popped r i) q" if "worker_fit t requests q"
    using that assms(3) unfolding worker_fit_def compatible_def by (auto simp: assms(4) fit_frame)
  moreover have "table_fit t' requests" using assms(1,3) by (auto simp: table_fit_def assms(4) fit_frame)
  moreover have "worker_fit t' requests (Popped r i)"
    using assms(1-3) by (auto simp: table_fit_def worker_fit_def assms(4))
  ultimately show ?thesis unfolding harmless_def by blast
qed

lemma push_step:
  assumes "table_fit t requests" and "worker_fit t requests (Refused r i)"
    and "t' = t\<lparr>free_list := free_list t @ [i], overflow_count := n\<rparr>"
  shows "table_fit t' requests \<and> worker_fit t' requests FlowIdle \<and> harmless t (Refused r i) t' FlowIdle requests q"
proof -
  have slots: "slot_of t' = slot_of t" by (simp add: assms(3) slot_of_def fun_eq_iff)
  have frame: "fit t' = fit t" "set (free_list t') = Set.insert i (set (free_list t))"
    "length (ft_data t') = length (ft_data t)"
    by (simp_all add: assms(3) fit_def fun_eq_iff)
  have "worker_fit t' requests q" if q: "worker_fit t requests q" "compatible (Refused r i) q"
  proof -
    have "(key, i) \<notin> claims q" "i \<notin> private_entries q" for key
      using others_elsewhere [OF q(2), of i] by simp_all
    then show ?thesis using q(1) unfolding worker_fit_def slots frame by blast
  qed
  moreover have "table_fit t' requests"
    using assms(1,2) unfolding table_fit_def slots by (auto simp: assms(3) worker_fit_def fit_def)
  ultimately show ?thesis using idle_fit unfolding harmless_def by blast
qed

lemma add_step:
  assumes "table_fit t requests" and "worker_fit t requests (Filled r i)" and "ft_hash t = Some h"
    and "op_add_key_data (ft_ops t) h (ir_key r) i = Some h'" and "t' = t\<lparr>ft_hash := Some h'\<rparr>"
  shows "table_fit t' requests \<and> worker_fit t' requests FlowIdle \<and> harmless t (Filled r i) t' FlowIdle requests q"
proof -
  have slots: "slot_of t' = (slot_of t)(ir_key r \<mapsto> i)"
    using contract_add [OF _ assms(4)] assms(1,3) by (auto simp: table_fit_def slot_of_def assms(5) fun_eq_iff)
  have i: "fit t requests (ir_key r) i" "i \<notin> set (free_list t)" "\<And>key. slot_of t key \<noteq> Some i"
    using assms(2) by (auto simp: worker_fit_def)
  have frame: "fit t' = fit t" "free_list t' = free_list t" "length (ft_data t') = length (ft_data t)"
    by (simp_all add: assms(5) fit_def fun_eq_iff)
  have "worker_fit t' requests q" if q: "worker_fit t requests q" "compatible (Filled r i) q"
  proof -
    have "(key, i) \<notin> claims q" "i \<notin> private_entries q" for key
      using others_elsewhere [OF q(2), of i] by simp_all
    moreover have "slot_of t' key = Some j \<Longrightarrow> j = i \<or> slot_of t key = Some j" for key j
      by (simp add: slots split: if_splits)
    ultimately show ?thesis using q(1) unfolding worker_fit_def frame by (metis (no_types, lifting))
  qed
  moreover have "table_fit t' requests"
    using assms(1) i unfolding table_fit_def slots by (auto simp: assms(5) fit_frame)
  ultimately show ?thesis using idle_fit unfolding harmless_def by blast
qed

text \<open>Every step at once, by the statement the worker is at.\<close>

definition step_fit :: "'h FlowTable \<Rightarrow> FlowPc \<Rightarrow> 'h FlowTable \<times> FlowPc \<times> (FlowKey \<times> Action) list \<Rightarrow>
    (FlowKey \<times> Action) set \<Rightarrow> FlowPc \<Rightarrow> bool" where
  "step_fit t pc = (\<lambda>(t', pc', answers) requests q. table_fit t' requests \<and> worker_fit t' requests pc' \<and>
     harmless t pc t' pc' requests q \<and> set answers \<subseteq> requests)"

lemma reading_step:
  assumes "table_fit t requests" and "worker_fit t requests (Reading now_tsc pending)"
  shows "step_fit t (Reading now_tsc pending) (worker_next tsc (Reading now_tsc pending) t) requests q"
proof (cases pending)
  case Nil
  then show ?thesis using assms drop_claims [OF assms(2), of FlowIdle q] by (simp add: worker_next_def step_fit_def)
next
  case (Cons x rest)
  obtain key i where x: "x = (key, i)" by fastforce
  let ?pc = "if action_and_count (ft_data t ! i) = 0 then Reading now_tsc rest
    else Refreshing now_tsc key i (DecodePacked (action_and_count (ft_data t ! i))) rest"
  have "fit t requests key i" using assms(2) by (rule claims_fit) (simp add: Cons x)
  then have "decisions_of ?pc \<subseteq> requests" by (auto simp: fit_def)
  moreover have "claims ?pc \<subseteq> claims (Reading now_tsc pending)" "private_entries ?pc \<subseteq> private_entries (Reading now_tsc pending)"
    by (auto simp: Cons x)
  ultimately show ?thesis using drop_claims [OF assms(2), of ?pc q] assms(1)
    by (simp add: worker_next_def step_fit_def Cons x Let_def)
qed

lemma missed_step:
  assumes "table_fit t requests" and "worker_fit t requests (Missed r)"
  shows "step_fit t (Missed r) (worker_next tsc (Missed r) t) requests q"
proof (cases "free_list t" rule: rev_cases)
  case Nil
  then show ?thesis using assms(1)
    by (auto simp: worker_next_def step_fit_def table_fit_def worker_fit_def harmless_def compatible_def fit_frame)
next
  case (snoc fs i)
  then show ?thesis using pop_step [OF assms snoc refl, of q] by (simp add: worker_next_def step_fit_def)
qed

lemma filled_step:
  assumes "table_fit t requests" and "worker_fit t requests (Filled r i)"
  shows "step_fit t (Filled r i) (worker_next tsc (Filled r i) t) requests q"
proof (cases "Option.bind (ft_hash t) (\<lambda>h. op_add_key_data (ft_ops t) h (ir_key r) i)")
  case None
  with assms drop_claims [OF assms(2), of "Refused r i" q] show ?thesis by (simp add: worker_next_def step_fit_def)
next
  case (Some h')
  then obtain h where "ft_hash t = Some h" "op_add_key_data (ft_ops t) h (ir_key r) i = Some h'"
    by (auto split: bind_splits)
  from add_step [OF assms this refl, of q] Some show ?thesis by (simp add: worker_next_def step_fit_def)
qed

lemma worker_next_fit:
  assumes "table_fit t requests" and "worker_fit t requests pc"
  shows "step_fit t pc (worker_next tsc pc t) requests q"
proof -
  note stamp = stamp_step [OF assms _ _ _ refl]
  note carried = carried_fit [OF assms(2)]
  show ?thesis
  proof (cases pc)
    case FlowIdle
    then show ?thesis using assms by (simp add: worker_next_def step_fit_def harmless_def)
  next
    case (Refreshing now_tsc key i action pending)
    then show ?thesis using stamp [of "Reading now_tsc pending" i now_tsc q] carried
      by (simp add: worker_next_def step_fit_def subset_insertI)
  next
    case (Found r i)
    then show ?thesis using stamp [of "FoundStamped r i" i tsc q] carried by (simp add: worker_next_def step_fit_def)
  next
    case (FoundStamped r i)
    then show ?thesis using found_step [of t requests r i _ q] assms by (simp add: worker_next_def step_fit_def)
  next
    case (Popped r i)
    then show ?thesis using stamp [of "PoppedStamped r i" i tsc q] carried by (simp add: worker_next_def step_fit_def)
  next
    case (PoppedStamped r i)
    then show ?thesis using fill_step [of t requests r i _ q] assms by (simp add: worker_next_def step_fit_def)
  next
    case (Refused r i)
    then show ?thesis using push_step [of t requests r i _ _ q] assms by (simp add: worker_next_def step_fit_def)
  qed (use assms reading_step missed_step filled_step in simp_all)
qed

text \<open>What the hash gave at this moment is held without conflict, and more requests never hurt.\<close>

lemma fresh_claims:
  assumes "table_fit t requests" and claimed: "\<And>key i. (key, i) \<in> claims pc \<Longrightarrow> slot_of t key = Some i"
    and "private_entries pc = {}" and "decisions_of pc \<subseteq> requests"
  shows "worker_fit t requests pc" and "worker_fit t requests q \<Longrightarrow> compatible pc q"
proof -
  have t: "fit t requests key i" "i \<notin> set (free_list t)" "slot_of t key' = Some i \<longrightarrow> key' = key"
    if "slot_of t key = Some i" for key key' i
    using assms(1) that unfolding table_fit_def by metis+
  show "worker_fit t requests pc"
    unfolding worker_fit_def assms(3) using t claimed assms(4) by (metis empty_iff)
  assume q: "worker_fit t requests q"
  have "i \<notin> private_entries q" "\<And>key'. (key', i) \<in> claims q \<Longrightarrow> key = key'" if "(key, i) \<in> claims pc" for key i
    using q claimed [OF that] unfolding worker_fit_def by metis+
  then show "compatible pc q" unfolding compatible_def assms(3) by blast
qed

lemma more_requests:
  assumes "requests \<subseteq> requests'"
  shows "table_fit t requests \<Longrightarrow> table_fit t requests'" and "worker_fit t requests pc \<Longrightarrow> worker_fit t requests' pc"
proof -
  have "fit t requests key i \<Longrightarrow> fit t requests' key i" for key i using assms by (auto simp: fit_def)
  then show "table_fit t requests \<Longrightarrow> table_fit t requests'" "worker_fit t requests pc \<Longrightarrow> worker_fit t requests' pc"
    using assms unfolding table_fit_def worker_fit_def by blast+
qed

lemma begin_lookup_claims:
  assumes "rte_hash_contract (ft_ops t)" and "(key, i) \<in> claims (begin_lookup keys now_tsc t)"
  shows "slot_of t key = Some i"
proof (cases "ft_hash t")
  case (Some h)
  have "op_lookup_bulk_data (ft_ops t) h ks = map (op_lookup_data (ft_ops t) h) ks" for ks
    using assms(1) unfolding rte_hash_contract_def by blast
  with assms(2) Some show ?thesis
    by (auto simp: begin_lookup_def slot_of_def List.map_filter_def zip_map2 zip_same_conv_map)
qed (use assms in \<open>simp add: begin_lookup_def\<close>)

lemma begin_lookup_frame:
  "private_entries (begin_lookup keys now_tsc t) = {}" "decisions_of (begin_lookup keys now_tsc t) = {}"
  by (simp_all add: begin_lookup_def split: option.splits)

text \<open>The step of one worker in the state of all.\<close>

lemma sharing_step_ok:
  assumes "concurrent_ok s" and "w < length (fs_workers s)"
    and "set (fs_requests s) \<subseteq> set (fs_requests s')" and "set (fs_answers s') \<subseteq> set (fs_requests s')"
    and "fs_workers s' = (fs_workers s)[w := pc]" and "fs_purge s' = fs_purge s"
    and "table_fit (fs_table s') (set (fs_requests s'))" and "worker_fit (fs_table s') (set (fs_requests s')) pc"
    and others: "\<And>q. worker_fit (fs_table s) (set (fs_requests s')) q \<Longrightarrow> compatible (fs_workers s ! w) q \<Longrightarrow>
      worker_fit (fs_table s') (set (fs_requests s')) q \<and> compatible pc q"
  shows "concurrent_ok s'"
proof -
  let ?ws = "fs_workers s"
  have q: "worker_fit (fs_table s') (set (fs_requests s')) (?ws ! v)" "compatible pc (?ws ! v)" "compatible (?ws ! v) pc"
    if "v < length ?ws" "v \<noteq> w" for v
    using others [of "?ws ! v"] more_requests(2) [OF assms(3)] assms(1,2) that compatible_sym
    unfolding concurrent_ok_def by metis+
  have "worker_fit (fs_table s') (set (fs_requests s')) (fs_workers s' ! v)" if "v < length ?ws" for v
    using q(1) assms(8) that by (cases "v = w") (simp_all add: assms(2,5))
  moreover have "compatible (fs_workers s' ! v) (fs_workers s' ! u)" if "v < length ?ws" "u < length ?ws" "v \<noteq> u" for u v
  proof -
    have "compatible (?ws ! v) (?ws ! u)" using assms(1) that unfolding concurrent_ok_def by blast
    then show ?thesis using q(2,3) that assms(2) by (auto simp: assms(5) nth_list_update)
  qed
  moreover have "fs_purge s = PurgeIdle" using assms(1) unfolding concurrent_ok_def by blast
  ultimately show ?thesis using assms(4-7) unfolding concurrent_ok_def by simp
qed

lemma begin_lookup_ok:
  assumes "concurrent_ok s" and "w < length (fs_workers s)"
  shows "concurrent_ok (flow_perform (BeginLookup w keys now_tsc) s)"
proof -
  have t: "table_fit (fs_table s) (set (fs_requests s))" "set (fs_answers s) \<subseteq> set (fs_requests s)"
    using assms(1) unfolding concurrent_ok_def by blast+
  note fresh = fresh_claims [OF t(1), of "begin_lookup keys now_tsc (fs_table s)", OF begin_lookup_claims]
  show ?thesis
    by (rule sharing_step_ok [OF assms, where pc = "begin_lookup keys now_tsc (fs_table s)"])
      (use t fresh in \<open>simp_all add: flow_perform_def begin_lookup_frame table_fit_def\<close>)
qed

lemma overflow_fit:
  "table_fit (t\<lparr>overflow_count := n\<rparr>) requests = table_fit t requests"
  "worker_fit (t\<lparr>overflow_count := n\<rparr>) requests pc = worker_fit t requests pc"
proof -
  have "slot_of (t\<lparr>overflow_count := n\<rparr>) = slot_of t" by (simp add: slot_of_def fun_eq_iff)
  then show "table_fit (t\<lparr>overflow_count := n\<rparr>) requests = table_fit t requests"
    "worker_fit (t\<lparr>overflow_count := n\<rparr>) requests pc = worker_fit t requests pc"
    by (simp_all add: table_fit_def worker_fit_def fit_frame)
qed

lemma begin_insert_fit:
  assumes "table_fit t requests" and "(ir_key r, ir_action r) \<in> requests" and "begin_insert r t = (t', pc)"
  shows "table_fit t' requests" and "worker_fit t' requests pc"
    and "worker_fit t requests q \<Longrightarrow> worker_fit t' requests q \<and> compatible pc q"
proof -
  have t': "t' = t \<or> t' = t\<lparr>overflow_count := overflow_count t + 1\<rparr>"
    using assms(3) by (auto simp: begin_insert_def split: option.splits)
  have pc: "pc = FlowIdle \<or> pc = Missed r \<or> (\<exists>i. pc = Found r i \<and> slot_of t (ir_key r) = Some i)"
    using assms(3) by (auto simp: begin_insert_def slot_of_def split: option.splits)
  then have claimed: "(key, i) \<in> claims pc \<Longrightarrow> slot_of t key = Some i" for key i by auto
  have none: "private_entries pc = {}" "decisions_of pc \<subseteq> requests" using pc assms(2) by auto
  show "table_fit t' requests" using t' assms(1) overflow_fit(1) by metis
  show "worker_fit t' requests pc" using fresh_claims(1) [OF assms(1) claimed none] t' overflow_fit(2) by metis
  assume "worker_fit t requests q"
  then show "worker_fit t' requests q \<and> compatible pc q"
    using fresh_claims(2) [OF assms(1) claimed none] t' overflow_fit(2) by metis
qed

lemma begin_insert_ok:
  assumes "concurrent_ok s" and "w < length (fs_workers s)"
  shows "concurrent_ok (flow_perform (BeginInsert w r) s)"
proof -
  obtain t' pc where b: "begin_insert r (fs_table s) = (t', pc)" by fastforce
  let ?requests = "set (fs_requests s @ [(ir_key r, ir_action r)])"
  have t: "table_fit (fs_table s) ?requests" "set (fs_answers s) \<subseteq> ?requests"
    using assms(1) more_requests(1) [of "set (fs_requests s)" ?requests] unfolding concurrent_ok_def by auto
  note ok = begin_insert_fit [OF t(1) _ b]
  show ?thesis
    by (rule sharing_step_ok [OF assms, where pc = pc])
      (use t(2) ok in \<open>simp_all add: flow_perform_def b subset_insertI subset_insertI2\<close>)
qed

lemma continue_ok:
  assumes "concurrent_ok s" and "w < length (fs_workers s)"
  shows "concurrent_ok (flow_perform (Continue w tsc) s)"
proof -
  obtain t' pc answers where n: "worker_next tsc (fs_workers s ! w) (fs_table s) = (t', pc, answers)"
    by (cases "worker_next tsc (fs_workers s ! w) (fs_table s)")
  have t: "table_fit (fs_table s) (set (fs_requests s))" "set (fs_answers s) \<subseteq> set (fs_requests s)"
    "worker_fit (fs_table s) (set (fs_requests s)) (fs_workers s ! w)"
    using assms unfolding concurrent_ok_def by blast+
  note ok = worker_next_fit [OF t(1,3), of tsc, unfolded n step_fit_def, simplified]
  show ?thesis
    by (rule sharing_step_ok [OF assms, where pc = pc])
      (use t ok in \<open>simp_all add: flow_perform_def n harmless_def\<close>)
qed

lemma flow_perform_ok:
  assumes "concurrent_ok s" and "flow_enabled e s" and "\<not> is_purge e"
  shows "concurrent_ok (flow_perform e s)"
proof -
  have "fs_purge s = PurgeIdle" using assms(1) unfolding concurrent_ok_def by blast
  then show ?thesis using assms begin_lookup_ok begin_insert_ok continue_ok
    by (cases e) (auto simp: flow_enabled_def is_purge_def)
qed

lemma flow_run_ok:
  "concurrent_ok s \<Longrightarrow> flow_run es s = Some s' \<Longrightarrow> list_all (\<lambda>e. \<not> is_purge e) es \<Longrightarrow> concurrent_ok s'"
proof (induction es arbitrary: s)
  case (Cons e es)
  then have "flow_enabled e s" "flow_run es (flow_perform e s) = Some s'" "\<not> is_purge e" "list_all (\<lambda>e. \<not> is_purge e) es"
    by (simp_all split: if_splits)
  then show ?case using Cons.IH flow_perform_ok [OF Cons.prems(1)] by blast
qed simp

lemma initial_flow_sys_ok:
  assumes "rte_hash_contract ops"
  shows "concurrent_ok (initial_flow_sys ops capacity n)"
proof -
  have "slot_of (make_FlowTable ops capacity) = Map.empty"
    using assms by (auto simp: make_FlowTable_def slot_of_def rte_hash_contract_def fun_eq_iff split: option.splits)
  moreover have "rte_hash_contract (ft_ops (make_FlowTable ops capacity))"
    using assms by (simp add: make_FlowTable_def split: option.splits)
  ultimately have "table_fit (make_FlowTable ops capacity) {}"
    by (auto simp: table_fit_def make_FlowTable_def split: option.splits)
  then show ?thesis by (simp add: concurrent_ok_def initial_flow_sys_def idle_fit)
qed

section \<open>What every interleaving keeps\<close>

text \<open>
  C13. However any number of workers interleave their lookups, bulk lookups and insertions, statement by statement, every
  action that a lookup answers was asked to be stored for exactly the key that was looked up; the free
  list never holds an entry twice, holds no entry that the hash refers to, and no two keys
  share an entry. This is for runs in which no expiry pass has begun.\<close>

theorem answers_belong_to_their_flow:
  assumes "rte_hash_contract ops" and "flow_run es (initial_flow_sys ops capacity n) = Some s"
    and "list_all (\<lambda>e. \<not> is_purge e) es"
  shows "set (fs_answers s) \<subseteq> set (fs_requests s) \<and> distinct (free_list (fs_table s)) \<and>
    set (free_list (fs_table s)) \<inter> ran (slot_of (fs_table s)) = {} \<and>
    inj_on (slot_of (fs_table s)) (dom (slot_of (fs_table s)))"
proof -
  have "concurrent_ok s" by (rule flow_run_ok [OF initial_flow_sys_ok [OF assms(1)] assms(2,3)])
  then have answers: "set (fs_answers s) \<subseteq> set (fs_requests s)" and t: "table_fit (fs_table s) (set (fs_requests s))"
    unfolding concurrent_ok_def by blast+
  have "distinct (free_list (fs_table s))" "set (free_list (fs_table s)) \<inter> ran (slot_of (fs_table s)) = {}"
    using t unfolding table_fit_def ran_def by blast+
  moreover have "inj_on (slot_of (fs_table s)) (dom (slot_of (fs_table s)))"
    using t unfolding table_fit_def inj_on_def dom_def by (metis (mono_tags, lifting) mem_Collect_eq not_None_eq)
  ultimately show ?thesis using answers by blast
qed

definition drop_request :: "u16 \<Rightarrow> InsertRequest" where
  "drop_request port = \<lparr>ir_key = example_key port, ir_count = 1, ir_action = kDrop\<rparr>"

text \<open>Two workers insert the same new flow at the same time and one of them looks it up.\<close>

definition racing_inserts :: "FlowEvent list" where
  "racing_inserts = [BeginInsert 0 (drop_request 10), BeginInsert 1 (drop_request 10)] @
     concat (replicate 4 [Continue 0 5, Continue 1 5]) @
     BeginLookup 0 [example_key 10] 6 # replicate 3 (Continue 0 6)"

theorem answers_belong_to_their_flow_witness:
  "\<exists>s. flow_run racing_inserts (initial_flow_sys slot_hash_ops 2 2) = Some s \<and>
     fs_answers s = [(example_key 10, kDrop)] \<and> set (fs_answers s) \<subseteq> set (fs_requests s)"
proof -
  have "map_option fs_answers (flow_run racing_inserts (initial_flow_sys slot_hash_ops 2 2)) = Some [(example_key 10, kDrop)]"
    by code_simp
  then obtain s where s: "flow_run racing_inserts (initial_flow_sys slot_hash_ops 2 2) = Some s"
    "fs_answers s = [(example_key 10, kDrop)]" by auto
  have "list_all (\<lambda>e. \<not> is_purge e) racing_inserts" by code_simp
  from answers_belong_to_their_flow [OF slot_hash_contract s(1) this] s show ?thesis by blast
qed

section \<open>What interleavings break\<close>

text \<open>A reader of a flow that expires between its question to the hash and its load of the entry, whose
  entry is given to another flow meanwhile. The table has one entry.\<close>

definition forward_request :: "u16 \<Rightarrow> InsertRequest" where
  "forward_request port = \<lparr>ir_key = example_key port, ir_count = 1, ir_action = kForward\<rparr>"

definition stale_reader :: "FlowEvent list" where
  "stale_reader = BeginInsert 0 (drop_request 10) # replicate 4 (Continue 0 5) @
     [BeginLookup 1 [example_key 10] 1000, BeginPurge 1000 600] @ replicate 8 ContinuePurge @
     BeginInsert 0 (forward_request 11) # replicate 4 (Continue 0 1001) @ replicate 3 (Continue 1 1002)"


end
