(* ===== verification/Rule_Contexts.thy ===== *)
theory Rule_Contexts
  imports Rule_Engine Table_Managers
begin

text \<open>
  The library objects behind an SPI rule table (\<^verbatim>\<open>spi/spi_rule_engine.cpp\<close>). \<open>Rule_Engine\<close> treats an ACL context as a value; here
  its identity matters: who creates it, who owns it and who frees it, over compilation in batches, moves, assignment, destruction and the
  swaps of the table manager. DPDK keeps the objects of each library in a list by name, so a name stands for at most one
  object. What a library does when it is asked to create an object whose name is taken, give the object or
  refuse, is a parameter. The theory also has the construction of the FIB, which no lookup uses.
\<close>

section \<open>Objects of the libraries\<close>

text \<open>The contexts named \<^verbatim>\<open>spi_chunk_<n>\<close>, \<^verbatim>\<open>spi_fib\<close> and \<^verbatim>\<open>spi_member\<close>.\<close>

datatype LibCtx = AclContext nat | FibContext | MemberContext

text \<open>The objects that exist, and the calls that freed an object that did not exist.\<close>

record Library =
  lib_live :: "LibCtx set"
  lib_bad_frees :: "LibCtx list"

definition empty_library :: Library where
  "empty_library = \<lparr>lib_live = {}, lib_bad_frees = []\<rparr>"

definition lib_create :: "(LibCtx \<Rightarrow> bool) \<Rightarrow> (LibCtx \<Rightarrow> bool) \<Rightarrow> LibCtx \<Rightarrow> Library \<Rightarrow> Library \<times> LibCtx option" where
  "lib_create gives_existing memory c l =
     (if c \<in> lib_live l then (l, if gives_existing c then Some c else None)
      else if memory c then (l\<lparr>lib_live := Set.insert c (lib_live l)\<rparr>, Some c)
      else (l, None))"

definition lib_free :: "LibCtx \<Rightarrow> Library \<Rightarrow> Library" where
  "lib_free c l = (if c \<in> lib_live l then l\<lparr>lib_live := lib_live l - {c}\<rparr> else l\<lparr>lib_bad_frees := lib_bad_frees l @ [c]\<rparr>)"

section \<open>What a table owns\<close>

record TableContexts =
  tc_acl_chunks :: "LibCtx option list"
  tc_acl_ctx :: "LibCtx option"
  tc_fib_ctx :: "LibCtx option"
  tc_member_ctx :: "LibCtx option"

definition no_contexts :: TableContexts where
  "no_contexts = \<lparr>tc_acl_chunks = [], tc_acl_ctx = None, tc_fib_ctx = None, tc_member_ctx = None\<rparr>"

definition free_unless_null :: "LibCtx option \<Rightarrow> Library \<Rightarrow> Library" where
  "free_unless_null c l = (case c of None \<Rightarrow> l | Some c \<Rightarrow> lib_free c l)"

definition RuleTable_destroy :: "TableContexts \<Rightarrow> Library \<Rightarrow> Library" where
  "RuleTable_destroy t l =
     free_unless_null (tc_member_ctx t) (free_unless_null (tc_fib_ctx t) (fold free_unless_null (tc_acl_chunks t) l))"

text \<open>The constructor from a single context.\<close>

definition make_single_RuleTable :: "LibCtx option \<Rightarrow> TableContexts" where
  "make_single_RuleTable acl_ctx = \<lparr>tc_acl_chunks = (if acl_ctx = None then [] else [acl_ctx]), tc_acl_ctx = acl_ctx,
     tc_fib_ctx = None, tc_member_ctx = None\<rparr>"

text \<open>The move constructor and the move assignment, with what they leave in the table moved from.\<close>

definition RuleTable_take :: "TableContexts \<Rightarrow> TableContexts \<times> TableContexts" where
  "RuleTable_take other =
     (\<lparr>tc_acl_chunks = tc_acl_chunks other, tc_acl_ctx = tc_acl_ctx other, tc_fib_ctx = tc_fib_ctx other,
       tc_member_ctx = tc_member_ctx other\<rparr>,
      other\<lparr>tc_acl_chunks := [], tc_acl_ctx := None, tc_fib_ctx := None, tc_member_ctx := None\<rparr>)"

definition RuleTable_assign :: "TableContexts \<Rightarrow> TableContexts \<Rightarrow> Library \<Rightarrow> Library \<times> TableContexts \<times> TableContexts" where
  "RuleTable_assign t other l =
     (let l = fold free_unless_null (tc_acl_chunks t) l;
          l = free_unless_null (tc_fib_ctx t) l;
          l = free_unless_null (tc_member_ctx t) l
      in (l, t\<lparr>tc_acl_chunks := tc_acl_chunks other, tc_acl_ctx := tc_acl_ctx other, tc_fib_ctx := tc_fib_ctx other,
               tc_member_ctx := tc_member_ctx other\<rparr>,
          other\<lparr>tc_acl_chunks := [], tc_acl_ctx := None, tc_fib_ctx := None, tc_member_ctx := None\<rparr>))"

text \<open>The moves of a filter group; strings and vectors moved from are empty.\<close>

definition CompiledFilterGroup_move :: "CompiledFilterGroup \<Rightarrow> CompiledFilterGroup \<times> CompiledFilterGroup" where
  "CompiledFilterGroup_move other =
     (\<lparr>g_name = g_name other, g_precedence = g_precedence other, g_action = g_action other, g_filters = g_filters other,
       g_category_index = g_category_index other, g_l7_required = g_l7_required other,
       g_bound_dpi_filter_index = g_bound_dpi_filter_index other, g_bound_dpi_name = g_bound_dpi_name other\<rparr>,
      other\<lparr>g_name := [], g_filters := [], g_bound_dpi_name := []\<rparr>)"

section \<open>Compilation\<close>

text \<open>What the libraries do in one compilation; \<open>ce_built\<close> tells which chunks can be filled and built.\<close>

record CompileEnv =
  ce_existing :: "LibCtx \<Rightarrow> bool"
  ce_memory :: "LibCtx \<Rightarrow> bool"
  ce_built :: "nat \<Rightarrow> bool"

text \<open>\<^verbatim>\<open>compile_chunk_fn\<close>: a context that cannot be filled or built is freed again.\<close>

definition chunk_task :: "CompileEnv \<Rightarrow> nat \<Rightarrow> Library \<Rightarrow> Library \<times> LibCtx option" where
  "chunk_task env chunk_id l = (case lib_create (ce_existing env) (ce_memory env) (AclContext chunk_id) l of
     (l, None) \<Rightarrow> (l, None)
   | (l, Some c) \<Rightarrow> if ce_built env chunk_id then (l, Some c) else (lib_free c l, None))"

text \<open>All tasks of a batch are started before the first result is looked at.\<close>

fun run_tasks :: "CompileEnv \<Rightarrow> nat list \<Rightarrow> Library \<Rightarrow> Library \<times> LibCtx option list" where
  "run_tasks env [] l = (l, [])"
| "run_tasks env (i # is) l =
     (case chunk_task env i l of (l, r) \<Rightarrow> case run_tasks env is l of (l, rs) \<Rightarrow> (l, r # rs))"

text \<open>The results in order. After the first failure the chunks collected so far are freed and the other results are dropped.\<close>

fun collect_results :: "LibCtx option list \<Rightarrow> LibCtx list \<Rightarrow> Library \<Rightarrow> Library \<times> LibCtx list option" where
  "collect_results [] chunks l = (l, Some chunks)"
| "collect_results (None # rs) chunks l = (fold lib_free chunks l, None)"
| "collect_results (Some c # rs) chunks l = collect_results rs (chunks @ [c]) l"

function compile_batches :: "CompileEnv \<Rightarrow> nat \<Rightarrow> nat list \<Rightarrow> LibCtx list \<Rightarrow> Library \<Rightarrow> Library \<times> LibCtx list option" where
  "compile_batches env threads is chunks l =
     (if is = [] then (l, Some chunks)
      else case run_tasks env (take (max 1 threads) is) l of (l, rs) \<Rightarrow>
        (case collect_results rs chunks l of
           (l, None) \<Rightarrow> (l, None)
         | (l, Some chunks) \<Rightarrow> compile_batches env threads (drop (max 1 threads) is) chunks l))"
  by auto
termination by (relation "measure (\<lambda>(env, threads, is, chunks, l). length is)") auto

declare compile_batches.simps [simp del]

definition compile_contexts :: "CompileEnv \<Rightarrow> nat \<Rightarrow> nat \<Rightarrow> bool \<Rightarrow> Library \<Rightarrow> Library \<times> TableContexts option" where
  "compile_contexts env threads n has_member_keys l =
     (case compile_batches env threads [0..<n] [] l of
        (l, None) \<Rightarrow> (l, None)
      | (l, Some chunks) \<Rightarrow>
          (case lib_create (ce_existing env) (ce_memory env) FibContext l of (l, fib) \<Rightarrow>
           case (if has_member_keys then lib_create (ce_existing env) (ce_memory env) MemberContext l else (l, None)) of
             (l, member) \<Rightarrow>
               (l, Some \<lparr>tc_acl_chunks = map Some chunks, tc_acl_ctx = (if chunks = [] then None else Some (chunks ! 0)),
                         tc_fib_ctx = fib, tc_member_ctx = member\<rparr>)))"

section \<open>Reloads\<close>

text \<open>
  The table manager and the libraries. A reload compiles a table, puts it at a new address and swaps it in; the
  table the swap deletes frees its contexts.
\<close>

record TableStore =
  ts_manager :: "TableContexts TableManager"
  ts_library :: Library

definition first_load :: "CompileEnv \<Rightarrow> nat \<Rightarrow> nat \<Rightarrow> bool \<Rightarrow> addr \<Rightarrow> TableStore option" where
  "first_load env threads n has_member_keys a =
     (case compile_contexts env threads n has_member_keys empty_library of
        (l, None) \<Rightarrow> None
      | (l, Some t) \<Rightarrow> Some \<lparr>ts_manager = RuleTableManager_Init (Some a) (empty_manager [a \<mapsto> t]), ts_library = l\<rparr>)"

definition reload_table :: "CompileEnv \<Rightarrow> nat \<Rightarrow> nat \<Rightarrow> bool \<Rightarrow> addr \<Rightarrow> TableStore \<Rightarrow> TableStore \<times> bool" where
  "reload_table env threads n has_member_keys a s =
     (case compile_contexts env threads n has_member_keys (ts_library s) of
        (l, None) \<Rightarrow> (s\<lparr>ts_library := l\<rparr>, False)
      | (l, Some t) \<Rightarrow>
          let m = ts_manager s;
              deleted = Option.bind (tm_prev_retired m) (tm_heap m);
              m = RuleTableManager_Swap (Some a) (m\<lparr>tm_heap := (tm_heap m)(a \<mapsto> t)\<rparr>)
          in (\<lparr>ts_manager = m, ts_library = (case deleted of None \<Rightarrow> l | Some old \<Rightarrow> RuleTable_destroy old l)\<rparr>, True))"

definition active_contexts :: "TableStore \<Rightarrow> TableContexts option" where
  "active_contexts s = Option.bind (tm_active (ts_manager s)) (tm_heap (ts_manager s))"

section \<open>The FIB\<close>

record 'f fib_ops =
  fib_create :: "nat \<Rightarrow> u32 \<Rightarrow> 'f option"
  fib_add :: "'f \<Rightarrow> u32 \<Rightarrow> byte \<Rightarrow> u64 \<Rightarrow> 'f \<times> int"
  fib_lookup :: "'f \<Rightarrow> u32 \<Rightarrow> u64"
  fib_delete :: "'f \<Rightarrow> u32 \<Rightarrow> byte \<Rightarrow> 'f"

definition EEXIST :: int where "EEXIST = 17"

definition total_cidr_routes :: "CompiledFilterGroup list \<Rightarrow> nat" where
  "total_cidr_routes groups = length (filter match_destination_cidr (concat (map g_filters groups)))"

definition num_tbl8 :: "CompiledFilterGroup list \<Rightarrow> u32" where
  "num_tbl8 groups = min (push_bit 20 1) (max 256 (of_nat (total_cidr_routes groups * 4)))"

definition fib_next_hop :: "nat \<Rightarrow> nat \<Rightarrow> u64" where
  "fib_next_hop g f = push_bit 32 (of_nat g + 1) OR (of_nat f + 1)"

definition fib_route :: "CompiledFilter \<Rightarrow> (u32 \<times> byte) option" where
  "fib_route f =
     (if match_destination_cidr f then Some (destination_network f, ucast (destination_prefix_length f))
      else if match_destination_ip f then Some (destination_ip_address f, 32) else None)"

definition add_fib_route :: "'f fib_ops \<Rightarrow> CompiledFilterGroup list \<Rightarrow> nat \<times> nat \<Rightarrow> 'f \<Rightarrow> 'f" where
  "add_fib_route fib groups = (\<lambda>(g, f) ctx. case fib_route (g_filters (groups ! g) ! f) of
     None \<Rightarrow> ctx
   | Some (ip, depth) \<Rightarrow>
       let next_hop = fib_next_hop g f; ip_be = rte_be_to_cpu_32 ip in
       (case fib_add fib ctx ip_be depth next_hop of (ctx, ret) \<Rightarrow>
          if ret = - EEXIST then
            let existing_nh = fib_lookup fib ctx ip_be; exist_g = (ucast (drop_bit 32 existing_nh) :: u32) - 1 in
            if existing_nh \<noteq> 0 \<and> unat exist_g < length groups \<and> g_precedence (groups ! g) < g_precedence (groups ! unat exist_g)
            then fst (fib_add fib (fib_delete fib ctx ip_be depth) ip_be depth next_hop)
            else ctx
          else ctx))"

definition build_fib :: "'f fib_ops \<Rightarrow> CompiledFilterGroup list \<Rightarrow> 'f option" where
  "build_fib fib groups = map_option
     (fold (add_fib_route fib groups) (concat (map (\<lambda>g. map (Pair g) [0..<length (g_filters (groups ! g))]) [0..<length groups])))
     (fib_create fib (length (concat (map g_filters groups)) + 1) (num_tbl8 groups))"

section \<open>Contexts are owned once\<close>

definition owned_contexts :: "TableContexts \<Rightarrow> LibCtx list" where
  "owned_contexts t = List.map_filter id (tc_acl_chunks t @ [tc_fib_ctx t, tc_member_ctx t])"

lemma free_unless_null_fold: "fold free_unless_null cs l = fold lib_free (List.map_filter id cs) l"
  by (induction cs arbitrary: l) (simp_all add: free_unless_null_def List.map_filter_def split: option.split)

lemma destroy_owned: "RuleTable_destroy t l = fold lib_free (owned_contexts t) l"
  by (simp add: RuleTable_destroy_def owned_contexts_def flip: free_unless_null_fold)

lemma lib_free_live: "lib_live (fold lib_free cs l) = lib_live l - set cs"
  by (induction cs arbitrary: l) (auto simp: lib_free_def)

lemma lib_free_good:
  "distinct cs \<Longrightarrow> set cs \<subseteq> lib_live l \<Longrightarrow> lib_bad_frees (fold lib_free cs l) = lib_bad_frees l"
proof (induction cs arbitrary: l)
  case (Cons c cs)
  then have "set cs \<subseteq> lib_live (lib_free c l)" "lib_bad_frees (lib_free c l) = lib_bad_frees l" by (auto simp: lib_free_def)
  then show ?case using Cons by simp
qed simp

text \<open>Destruction, move and assignment free what the table owned, once, and nothing else.\<close>

lemma destroy_frees_owned:
  assumes "distinct (owned_contexts t)" and "set (owned_contexts t) \<subseteq> lib_live l"
  shows "lib_live (RuleTable_destroy t l) = lib_live l - set (owned_contexts t)"
    and "lib_bad_frees (RuleTable_destroy t l) = lib_bad_frees l"
  using lib_free_live lib_free_good [OF assms] by (simp_all add: destroy_owned)

lemma take_transfers: "RuleTable_take t = (t', other) \<Longrightarrow> owned_contexts t' = owned_contexts t \<and> owned_contexts other = []"
  by (auto simp: RuleTable_take_def owned_contexts_def List.map_filter_def)

lemma assign_transfers:
  assumes "RuleTable_assign t other l = (l', t', other')"
  shows "owned_contexts t' = owned_contexts other" and "owned_contexts other' = []" and "l' = RuleTable_destroy t l"
  using assms by (auto simp: RuleTable_assign_def RuleTable_destroy_def owned_contexts_def List.map_filter_def Let_def)

section \<open>Names of compiled chunks\<close>

lemma chunk_task_result: "chunk_task env i l = (l', Some c) \<Longrightarrow> c = AclContext i"
  by (auto simp: chunk_task_def lib_create_def split: if_splits)

lemma collect_success:
  "collect_results rs chunks l = (l', Some cs) \<Longrightarrow> \<exists>ds. rs = map Some ds \<and> cs = chunks @ ds"
proof (induction rs chunks l rule: collect_results.induct)
  case (3 c rs chunks l)
  then obtain ds where "rs = map Some ds" "cs = (chunks @ [c]) @ ds" by auto
  then show ?case by (intro exI [of _ "c # ds"]) simp
qed auto

lemma run_tasks_named: "run_tasks env is l = (l', map Some ds) \<Longrightarrow> ds = map AclContext is"
proof (induction "is" arbitrary: l ds)
  case (Cons i "is")
  then show ?case by (cases ds) (auto simp: chunk_task_result split: prod.splits)
qed simp

lemma compile_batches_named:
  "compile_batches env threads is chunks l = (l', Some cs) \<Longrightarrow> cs = chunks @ map AclContext is"
proof (induction env threads "is" chunks l rule: compile_batches.induct)
  case (1 env threads "is" chunks l)
  show ?case
  proof (cases "is = []")
    case False
    obtain l1 rs where run: "run_tasks env (take (max 1 threads) is) l = (l1, rs)" by fastforce
    from 1(2) False run obtain l2 cs1 where c: "collect_results rs chunks l1 = (l2, Some cs1)"
      and rest: "compile_batches env threads (drop (max 1 threads) is) cs1 l2 = (l', Some cs)"
      by (auto simp: compile_batches.simps [of _ _ "is"] split: prod.splits option.splits)
    from collect_success [OF c] run_tasks_named run have "cs1 = chunks @ map AclContext (take (max 1 threads) is)" by blast
    moreover have "cs = cs1 @ map AclContext (drop (max 1 threads) is)"
      using 1(1) [OF False run [symmetric] c [symmetric] refl rest] .
    ultimately show ?thesis by (simp flip: map_append)
  qed (use 1(2) in \<open>simp add: compile_batches.simps\<close>)
qed

lemma compile_contexts_named:
  assumes "compile_contexts env threads n has_member_keys l = (l', Some t)"
  shows "tc_acl_chunks t = map (Some \<circ> AclContext) [0..<n]"
proof -
  obtain l1 cs where b: "compile_batches env threads [0..<n] [] l = (l1, Some cs)"
    using assms by (auto simp: compile_contexts_def split: prod.splits option.splits)
  then have "tc_acl_chunks t = map Some cs"
    using assms by (auto simp: compile_contexts_def split: prod.splits if_splits)
  then show ?thesis using compile_batches_named [OF b] by simp
qed

section \<open>Reloads share contexts\<close>

lemma first_load_heap:
  assumes "first_load env threads n k a = Some s"
  shows "\<exists>t. ts_manager s = RuleTableManager_Init (Some a) (empty_manager [a \<mapsto> t]) \<and>
    tc_acl_chunks t = map (Some \<circ> AclContext) [0..<n]"
  using assms compile_contexts_named by (fastforce simp: first_load_def split: prod.splits option.splits)

lemma reload_heap:
  assumes "reload_table env threads n k a s = (s', True)"
  shows "\<exists>t l. tc_acl_chunks t = map (Some \<circ> AclContext) [0..<n] \<and>
    ts_manager s' = RuleTableManager_Swap (Some a) ((ts_manager s)\<lparr>tm_heap := (tm_heap (ts_manager s))(a \<mapsto> t)\<rparr>) \<and>
    ts_library s' = (case Option.bind (tm_prev_retired (ts_manager s)) (tm_heap (ts_manager s)) of
       None \<Rightarrow> l | Some old \<Rightarrow> RuleTable_destroy old l)"
  using assms compile_contexts_named
  by (fastforce simp: reload_table_def Let_def split: prod.splits option.splits)

lemma owned_chunk: "tc_acl_chunks t = map (Some \<circ> AclContext) [0..<n] \<Longrightarrow> i < n \<Longrightarrow> AclContext i \<in> set (owned_contexts t)"
  by (auto simp: owned_contexts_def List.map_filter_def)


definition sharing_env :: CompileEnv where
  "sharing_env = \<lparr>ce_existing = (\<lambda>c. case c of AclContext i \<Rightarrow> True | _ \<Rightarrow> False), ce_memory = (\<lambda>c. True), ce_built = (\<lambda>i. True)\<rparr>"

definition sample_store :: TableStore where
  "sample_store = the (first_load sharing_env 4 2 True 0)"

definition sample_reload :: "addr \<Rightarrow> TableStore \<Rightarrow> TableStore" where
  "sample_reload a s = fst (reload_table sharing_env 4 2 True a s)"


text \<open>
  A reload that fails frees the contexts it was given: if the library gives the existing context and it cannot be
  rebuilt, the context of the published table is gone.
\<close>

lemma run_tasks_other: "AclContext j \<notin> lib_live l \<Longrightarrow> j \<notin> set is \<Longrightarrow> AclContext j \<notin> lib_live (fst (run_tasks env is l))"
proof (induction "is" arbitrary: l)
  case (Cons i "is")
  then have "AclContext j \<notin> lib_live (fst (chunk_task env i l))"
    by (auto simp: chunk_task_def lib_create_def lib_free_def split: option.splits)
  moreover obtain l1 r where "chunk_task env i l = (l1, r)" by fastforce
  moreover obtain l2 rs where "run_tasks env is l1 = (l2, rs)" by fastforce
  ultimately show ?case using Cons.IH [of l1] Cons.prems(2) by simp
qed simp

lemma failed_reload_frees_published_table:
  assumes "0 < n" and "AclContext 0 \<in> lib_live (ts_library s)" and "ce_existing env (AclContext 0)" and "\<not> ce_built env 0"
  shows "\<not> snd (reload_table env threads n k a s)"
    and "AclContext 0 \<notin> lib_live (ts_library (fst (reload_table env threads n k a s)))"
proof -
  let ?first = "take (max 1 threads) [0..<n]"
  have first: "?first = 0 # tl ?first" using assms(1) by (cases "max 1 threads") (simp_all add: upt_conv_Cons)
  have "0 \<notin> set (tl ?first)" by (metis distinct.simps(2) distinct_take distinct_upt first)
  moreover have task: "chunk_task env 0 (ts_library s) = (lib_free (AclContext 0) (ts_library s), None)"
    using assms(2-4) by (simp add: chunk_task_def lib_create_def)
  moreover have "AclContext 0 \<notin> lib_live (lib_free (AclContext 0) (ts_library s))" by (simp add: lib_free_def)
  moreover obtain l rs where "run_tasks env (tl ?first) (lib_free (AclContext 0) (ts_library s)) = (l, rs)" by fastforce
  ultimately have "run_tasks env (0 # tl ?first) (ts_library s) = (l, None # rs)" "AclContext 0 \<notin> lib_live l"
    using run_tasks_other [of 0 "lib_free (AclContext 0) (ts_library s)" "tl ?first" env] by simp_all
  then have "run_tasks env ?first (ts_library s) = (l, None # rs)" "AclContext 0 \<notin> lib_live l" using first by metis+
  then have "compile_batches env threads [0..<n] [] (ts_library s) = (l, None)" "AclContext 0 \<notin> lib_live l"
    using assms(1) by (simp_all add: compile_batches.simps [of _ _ "[0..<n]"])
  then show "\<not> snd (reload_table env threads n k a s)"
    "AclContext 0 \<notin> lib_live (ts_library (fst (reload_table env threads n k a s)))"
    by (simp_all add: reload_table_def compile_contexts_def)
qed

text \<open>The other chunks of a batch that fails are never freed.\<close>

lemma failed_batch_leaks:
  "compile_contexts (sharing_env\<lparr>ce_built := \<lambda>i. i \<noteq> 0\<rparr>) 2 2 False empty_library =
     (\<lparr>lib_live = {AclContext 1}, lib_bad_frees = []\<rparr>, None)"
  by code_simp

section \<open>FIB entries\<close>

text \<open>The size of the second-level table stays within its limits, and the next hop of a route carries its group.\<close>

lemma num_tbl8_bounds: "256 \<le> num_tbl8 groups" "num_tbl8 groups \<le> 2 ^ 20"
  by (simp_all add: num_tbl8_def push_bit_eq_mult)

lemma low_half_dropped:
  assumes "m < 2 ^ 32"
  shows "drop_bit 32 (of_nat m :: u64) = 0"
proof -
  have "unat (of_nat m :: u64) = m" using assms by (simp add: unat_of_nat take_bit_nat_eq_self)
  then have "unat (drop_bit 32 (of_nat m :: u64)) = 0" unfolding unat_drop_bit_eq using assms by (simp add: drop_bit_eq_div)
  then show ?thesis by (simp add: unat_eq_zero)
qed

lemma ucast_small: "m < 2 ^ 32 \<Longrightarrow> (ucast (of_nat m :: u64) :: u32) = of_nat m"
  by (simp add: unsigned_of_nat take_bit_nat_eq_self)

lemma fib_next_hop_group:
  assumes "g + 1 < 2 ^ 32" and "f + 1 < 2 ^ 32"
  shows "unat ((ucast (drop_bit 32 (fib_next_hop g f)) :: u32) - 1) = g"
proof -
  have f: "drop_bit 32 (1 + of_nat f :: u64) = 0" using low_half_dropped [OF assms(2)] by simp
  have "ucast (drop_bit 32 (push_bit 32 (of_nat g + 1 :: u64))) = (ucast (of_nat g + 1 :: u64) :: u32)"
    by (rule bit_word_eqI) (simp add: bit_simps)
  moreover have "(ucast (of_nat g + 1 :: u64) :: u32) = of_nat g + 1"
    using ucast_small [OF assms(1)] by (simp add: add.commute)
  ultimately have "(ucast (drop_bit 32 (fib_next_hop g f)) :: u32) = of_nat g + 1"
    using f by (simp add: fib_next_hop_def add.commute)
  then have "(ucast (drop_bit 32 (fib_next_hop g f)) :: u32) - 1 = of_nat g" by simp
  then show ?thesis using assms(1) by (simp only: unat_of_nat) (simp add: take_bit_nat_eq_self)
qed

end
