(* ===== verification/Confd_Agent.thy ===== *)
theory Confd_Agent
  imports Ip_Address
begin

text \<open>
  The ConfD agent (\<^verbatim>\<open>confd/fastapi_confd.c\<close>), the process beside the data plane that turns a commit in the
  configuration database into a new configuration file and asks the data plane to reload. The
  database library and the operating system are outside the repository: what the database answers is a record \<open>cdb\<close>, and what
  each system call does in one commit is a record \<open>CommitEnv\<close>. The C library's streams are modelled: a write may fail
  after any part of its text, and sets the stream's error indicator when it does.
\<close>

section \<open>Streams\<close>

text \<open>An output stream: what has been written, the error indicator, and which of the coming writes fail, with the number of
  characters that still get out.\<close>

record Stream =
  st_text :: string
  st_error :: bool
  st_calls :: nat
  st_faults :: "nat \<Rightarrow> nat option"

type_synonym writer = "Stream \<Rightarrow> Stream \<times> bool"

definition fdopen_stream :: "(nat \<Rightarrow> nat option) \<Rightarrow> Stream" where
  "fdopen_stream faults = \<lparr>st_text = [], st_error = False, st_calls = 0, st_faults = faults\<rparr>"

text \<open>\<^verbatim>\<open>fprintf\<close>, \<^verbatim>\<open>fputs\<close> and \<^verbatim>\<open>fputc\<close>; the second component tells success.\<close>

definition put :: "string \<Rightarrow> writer" where
  "put text s = (case st_faults s (st_calls s) of
     None \<Rightarrow> (s\<lparr>st_text := st_text s @ text, st_calls := st_calls s + 1\<rparr>, True)
   | Some n \<Rightarrow> (s\<lparr>st_text := st_text s @ take n text, st_error := True, st_calls := st_calls s + 1\<rparr>, False))"

definition put_unchecked :: "string \<Rightarrow> writer" where
  "put_unchecked text s = (fst (put text s), True)"

definition skip :: writer where "skip s = (s, True)"

definition fail :: writer where "fail s = (s, False)"

text \<open>A chain of calls joined by \<^verbatim>\<open>||\<close>, or by early returns: the first that fails is the last.\<close>

fun in_turn :: "writer list \<Rightarrow> writer" where
  "in_turn [] s = (s, True)"
| "in_turn (w # ws) s = (case w s of (s', ok) \<Rightarrow> if ok then in_turn ws s' else (s', False))"

section \<open>Values\<close>

abbreviation newline :: char where "newline \<equiv> CHR 0x0A"
abbreviation quote :: char where "quote \<equiv> CHR 0x22"
abbreviation backslash :: char where "backslash \<equiv> CHR 0x5C"

definition yaml_char :: "char \<Rightarrow> writer" where
  "yaml_char c =
     (if c = backslash then put [backslash, backslash]
      else if c = quote then put [backslash, quote]
      else if c = newline then put [backslash, CHR ''n'']
      else if c = CHR 0x0D then put [backslash, CHR ''r'']
      else if c = CHR 0x09 then put [backslash, CHR ''t'']
      else if (of_char c :: nat) < 0x20 then fail
      else put [c])"

definition yaml_string :: "string \<Rightarrow> writer" where
  "yaml_string value = in_turn (put [quote] # map yaml_char value @ [put [quote]])"

text \<open>
  The database in one session. Strings are asked for with the size of the buffer; a value that is not text is given
  the way \<^verbatim>\<open>confd_pp_value\<close> prints it. A leaf that is absent and a call that fails look the same.
\<close>

record cdb =
  cdb_get_str :: "nat \<Rightarrow> string \<Rightarrow> string option"
  cdb_get_pp :: "nat \<Rightarrow> string \<Rightarrow> string option"
  cdb_get_bool :: "string \<Rightarrow> bool option"
  cdb_num_instances :: "string \<Rightarrow> int"

definition VALUE_BUF_SIZE :: nat where "VALUE_BUF_SIZE = 1024"

definition read_string :: "cdb \<Rightarrow> string \<Rightarrow> string option" where
  "read_string db path = cdb_get_str db VALUE_BUF_SIZE path"

definition spaces :: "nat \<Rightarrow> string" where "spaces indent = replicate indent (CHR '' '')"

definition emit_optional_string :: "cdb \<Rightarrow> string \<Rightarrow> string \<Rightarrow> nat \<Rightarrow> writer" where
  "emit_optional_string db key path indent = (case read_string db path of
     None \<Rightarrow> skip
   | Some value \<Rightarrow> in_turn [put_unchecked (spaces indent @ key @ '': ''), yaml_string value, put [newline]])"

definition emit_optional_u32 :: "cdb \<Rightarrow> string \<Rightarrow> string \<Rightarrow> nat \<Rightarrow> writer" where
  "emit_optional_u32 db key path indent = (case cdb_get_pp db 64 path of
     None \<Rightarrow> skip
   | Some rendered \<Rightarrow> put (spaces indent @ key @ '': '' @ rendered @ [newline]))"

definition emit_optional_bool :: "cdb \<Rightarrow> string \<Rightarrow> string \<Rightarrow> nat \<Rightarrow> writer" where
  "emit_optional_bool db key path indent = (case cdb_get_bool db path of
     None \<Rightarrow> skip
   | Some value \<Rightarrow> put (spaces indent @ key @ '': '' @ (if value then ''true'' else ''false'') @ [newline]))"

text \<open>A list entry that must have the value.\<close>

definition emit_item :: "cdb \<Rightarrow> string \<Rightarrow> string \<Rightarrow> writer" where
  "emit_item db lead path = (case read_string db path of
     None \<Rightarrow> fail
   | Some value \<Rightarrow> in_turn [put lead, yaml_string value, put [newline]])"

section \<open>The snapshot\<close>

definition write_tcp_reassembly :: "cdb \<Rightarrow> writer" where
  "write_tcp_reassembly db = in_turn [
     put (''  tcp_reassembly:'' @ [newline]),
     emit_optional_bool db ''enabled'' ''/fastapi:fastapi/spi/tcp_reassembly/enabled'' 4,
     emit_optional_u32 db ''idle_timeout_sec'' ''/fastapi:fastapi/spi/tcp_reassembly/idle_timeout_sec'' 4,
     emit_optional_u32 db ''max_concurrent_streams'' ''/fastapi:fastapi/spi/tcp_reassembly/max_concurrent_streams'' 4,
     emit_optional_u32 db ''max_buffered_bytes_per_direction''
       ''/fastapi:fastapi/spi/tcp_reassembly/max_buffered_bytes_per_direction'' 4,
     emit_optional_u32 db ''max_out_of_order_segments'' ''/fastapi:fastapi/spi/tcp_reassembly/max_out_of_order_segments'' 4,
     emit_optional_u32 db ''memory_budget_mb'' ''/fastapi:fastapi/spi/tcp_reassembly/memory_budget_mb'' 4,
     emit_optional_bool db ''drop_conflicting_overlap'' ''/fastapi:fastapi/spi/tcp_reassembly/drop_conflicting_overlap'' 4]"

text \<open>Paths of list entries; they are far shorter than \<^verbatim>\<open>PATH_BUF_SIZE\<close>.\<close>

definition filter_group_path :: "nat \<Rightarrow> string" where
  "filter_group_path g = ''/fastapi:fastapi/spi/filter-groups['' @ decimal g @ '']''"

definition filter_path :: "nat \<Rightarrow> nat \<Rightarrow> string" where
  "filter_path g i = filter_group_path g @ ''/filters['' @ decimal i @ '']''"

definition write_filter :: "cdb \<Rightarrow> nat \<Rightarrow> nat \<Rightarrow> writer" where
  "write_filter db g i = in_turn (
     emit_item db ''        - protocol: '' (filter_path g i @ ''/protocol'') #
     map (\<lambda>key. emit_optional_string db key (filter_path g i @ ''/'' @ key) 10)
       [''source_ip_address'', ''destination_ip_address'', ''label''] @
     map (\<lambda>key. emit_optional_u32 db key (filter_path g i @ ''/'' @ key) 10) [''source_port'', ''destination_port''])"

definition write_filter_group :: "cdb \<Rightarrow> nat \<Rightarrow> writer" where
  "write_filter_group db g =
     (let path = filter_group_path g; filters = cdb_num_instances db (path @ ''/filters'') in
      in_turn
        [emit_item db ''    - name: '' (path @ ''/name''),
         emit_optional_u32 db ''precedence'' (path @ ''/precedence'') 6,
         emit_optional_string db ''action'' (path @ ''/action'') 6,
         emit_optional_bool db ''l7_required'' (path @ ''/l7_required'') 6,
         emit_optional_string db ''dpi_filter_group'' (path @ ''/dpi_filter_group'') 6,
         in_turn ((if filters < 0 then fail else put (''      filters:'' @ [newline])) #
           map (write_filter db g) [0..<nat filters])])"

definition write_spi :: "cdb \<Rightarrow> writer" where
  "write_spi db =
     (let groups = cdb_num_instances db ''/fastapi:fastapi/spi/filter-groups'' in
      in_turn
        [put (newline # ''spi:'' @ [newline]),
         emit_optional_u32 db ''worker_count'' ''/fastapi:fastapi/spi/worker_count'' 2,
         emit_optional_string db ''packet_distribution'' ''/fastapi:fastapi/spi/packet_distribution'' 2,
         emit_optional_u32 db ''dispatch_queue_size'' ''/fastapi:fastapi/spi/dispatch_queue_size'' 2,
         emit_optional_bool db ''drop_unmatched'' ''/fastapi:fastapi/spi/drop_unmatched'' 2,
         emit_optional_u32 db ''flow_ttl_sec'' ''/fastapi:fastapi/spi/flow_ttl_sec'' 2,
         emit_optional_u32 db ''max_concurrent_flows'' ''/fastapi:fastapi/spi/max_concurrent_flows'' 2,
         emit_optional_string db ''flow_overflow_action'' ''/fastapi:fastapi/spi/flow_overflow_action'' 2,
         emit_optional_u32 db ''fragment_timeout_sec'' ''/fastapi:fastapi/spi/fragment_timeout_sec'' 2,
         emit_optional_u32 db ''max_compilation_threads'' ''/fastapi:fastapi/spi/max_compilation_threads'' 2,
         emit_optional_u32 db ''max_acl_build_threads'' ''/fastapi:fastapi/spi/max_acl_build_threads'' 2,
         emit_optional_string db ''acl_classify_algorithm'' ''/fastapi:fastapi/spi/acl_classify_algorithm'' 2,
         emit_optional_u32 db ''acl_build_max_size_mb'' ''/fastapi:fastapi/spi/acl_build_max_size_mb'' 2,
         write_tcp_reassembly db,
         in_turn ((if groups < 0 then fail else put (''  filter_groups:'' @ [newline])) #
           map (write_filter_group db) [0..<nat groups])])"

definition write_dpi_filter :: "cdb \<Rightarrow> nat \<Rightarrow> writer" where
  "write_dpi_filter db i =
     (let path = ''/fastapi:fastapi/dpi/filters['' @ decimal i @ '']'' in
      in_turn (
        emit_item db ''    - hostname_pattern: '' (path @ ''/hostname_pattern'') #
        map (\<lambda>key. emit_optional_string db key (path @ ''/'' @ key) 6) [''filter_group'', ''label''] @
        [emit_optional_u32 db ''priority'' (path @ ''/priority'') 6]))"

definition write_dpi :: "cdb \<Rightarrow> writer" where
  "write_dpi db =
     (let filters = cdb_num_instances db ''/fastapi:fastapi/dpi/filters'' in
      in_turn
        [put (newline # ''dpi:'' @ [newline]),
         emit_optional_bool db ''enabled'' ''/fastapi:fastapi/dpi/enabled'' 2,
         in_turn ((if filters < 0 then fail else put (''  filters:'' @ [newline])) #
           map (write_dpi_filter db) [0..<nat filters])])"

definition write_virtual_devices :: "cdb \<Rightarrow> writer" where
  "write_virtual_devices db =
     (let devices = cdb_num_instances db ''/fastapi:fastapi/eal/virtual_devices'' in
      if devices < 0 then fail else if devices = 0 then skip
      else in_turn (put (''  virtual_devices:'' @ [newline]) #
        map (\<lambda>i. emit_item db ''    - '' (''/fastapi:fastapi/eal/virtual_devices['' @ decimal i @ '']'')) [0..<nat devices]))"

text \<open>The expression of \<^verbatim>\<open>write_config_snapshot\<close> that sets \<^verbatim>\<open>failed\<close>.\<close>

definition write_document :: "cdb \<Rightarrow> writer" where
  "write_document db = in_turn [
     put (''eal:'' @ [newline]),
     emit_optional_string db ''cpu_core_list'' ''/fastapi:fastapi/eal/cpu_core_list'' 2,
     emit_optional_string db ''file_prefix'' ''/fastapi:fastapi/eal/file_prefix'' 2,
     emit_optional_u32 db ''memory_channels'' ''/fastapi:fastapi/eal/memory_channels'' 2,
     emit_optional_string db ''memory_size'' ''/fastapi:fastapi/eal/memory_size'' 2,
     emit_optional_bool db ''disable_hugepages'' ''/fastapi:fastapi/eal/disable_hugepages'' 2,
     emit_optional_bool db ''disable_pci'' ''/fastapi:fastapi/eal/disable_pci'' 2,
     emit_optional_string db ''log_level'' ''/fastapi:fastapi/eal/log_level'' 2,
     write_virtual_devices db,
     put (newline # ''port:'' @ [newline]),
     emit_optional_string db ''port_bitmask'' ''/fastapi:fastapi/port/port_bitmask'' 2,
     emit_optional_u32 db ''receive_queues'' ''/fastapi:fastapi/port/receive_queues'' 2,
     emit_optional_u32 db ''transmit_queues'' ''/fastapi:fastapi/port/transmit_queues'' 2,
     emit_optional_u32 db ''receive_descriptors'' ''/fastapi:fastapi/port/receive_descriptors'' 2,
     emit_optional_u32 db ''transmit_descriptors'' ''/fastapi:fastapi/port/transmit_descriptors'' 2,
     emit_optional_bool db ''promiscuous'' ''/fastapi:fastapi/port/promiscuous'' 2,
     put (newline # ''mempool:'' @ [newline]),
     emit_optional_string db ''name'' ''/fastapi:fastapi/mempool/name'' 2,
     emit_optional_u32 db ''memory_buffer_count'' ''/fastapi:fastapi/mempool/memory_buffer_count'' 2,
     emit_optional_u32 db ''memory_buffer_size'' ''/fastapi:fastapi/mempool/memory_buffer_size'' 2,
     emit_optional_u32 db ''cache_size'' ''/fastapi:fastapi/mempool/cache_size'' 2,
     put (newline # ''app:'' @ [newline]),
     emit_optional_u32 db ''burst_size'' ''/fastapi:fastapi/app/burst_size'' 2,
     emit_optional_bool db ''mac_updating'' ''/fastapi:fastapi/app/mac_updating'' 2,
     emit_optional_u32 db ''timer_period_sec'' ''/fastapi:fastapi/app/timer_period_sec'' 2,
     write_spi db,
     write_dpi db]"

section \<open>The process\<close>

text \<open>
  The agent: its globals, the files by path, the number of open descriptors and the limit on
  them, the processes it has sent \<^verbatim>\<open>SIGUSR1\<close> to, and what it has reported.
\<close>

datatype AgentReport = Usage | ConnectFailed | SubscribeFailed | ProcessNotFound | SignalFailed int
  | SnapshotPublished | SnapshotFailed | LoopEnded

record Agent =
  config_path :: "string option"
  dpdk_pid :: int
  confd_ip :: string
  confd_port :: int
  ag_files :: "string \<Rightarrow> string option"
  ag_open :: nat
  ag_limit :: nat
  ag_signals :: "int list"
  ag_reports :: "AgentReport list"

text \<open>
  One commit: the database, and what the system calls do. \<open>ce_suffix\<close> is the end of the name that \<^verbatim>\<open>mkstemp\<close>
  makes up, \<open>ce_leftover\<close> what stays at a path that \<^verbatim>\<open>unlink\<close> fails to remove, \<open>ce_kill\<close> the processes that exist.
\<close>

record CommitEnv =
  ce_db :: cdb
  ce_inet :: inet_ops
  ce_socket :: bool
  ce_connect :: "u32 \<Rightarrow> u16 \<Rightarrow> bool"
  ce_start_session :: bool
  ce_suffix :: "string option"
  ce_fdopen :: bool
  ce_faults :: "nat \<Rightarrow> nat option"
  ce_fflush :: bool
  ce_fsync :: bool
  ce_fclose :: bool
  ce_rename :: bool
  ce_leftover :: "string option"
  ce_pidof :: int
  ce_kill :: "int \<Rightarrow> bool"
  ce_sync :: bool

definition report :: "AgentReport \<Rightarrow> Agent \<Rightarrow> Agent" where
  "report r a = a\<lparr>ag_reports := ag_reports a @ [r]\<rparr>"

definition PATH_BUF_SIZE :: nat where "PATH_BUF_SIZE = 4096"

definition unlink :: "CommitEnv \<Rightarrow> string \<Rightarrow> Agent \<Rightarrow> Agent" where
  "unlink env path a = a\<lparr>ag_files := (ag_files a)(path := ce_leftover env)\<rparr>"

text \<open>The second component tells whether the snapshot is published.\<close>

definition write_config_snapshot :: "CommitEnv \<Rightarrow> string \<Rightarrow> Agent \<Rightarrow> Agent \<times> bool" where
  "write_config_snapshot env path a =
     (if PATH_BUF_SIZE \<le> length path + 11 then (a, False)
      else case (if ag_open a < ag_limit a then ce_suffix env else None) of
        None \<Rightarrow> (a, False)
      | Some made_up \<Rightarrow>
          let temporary_path = path @ ''.tmp.'' @ made_up;
              a = a\<lparr>ag_files := (ag_files a)(temporary_path \<mapsto> []), ag_open := ag_open a + 1\<rparr>
          in if \<not> ce_fdopen env then (unlink env temporary_path (a\<lparr>ag_open := ag_open a - 1\<rparr>), False)
             else case write_document (ce_db env) (fdopen_stream (ce_faults env)) of (out, ok) \<Rightarrow>
               if \<not> ok \<or> \<not> ce_fflush env \<or> \<not> ce_fsync env then (unlink env temporary_path a, False)
               else let a = a\<lparr>ag_files := (ag_files a)(temporary_path \<mapsto> st_text out), ag_open := ag_open a - 1\<rparr>
                    in if \<not> ce_fclose env \<or> \<not> ce_rename env then (unlink env temporary_path a, False)
                       else (a\<lparr>ag_files := (ag_files a)(temporary_path := None, path \<mapsto> st_text out)\<rparr>, True))"

definition open_cdb_socket :: "CommitEnv \<Rightarrow> Agent \<Rightarrow> Agent \<times> bool" where
  "open_cdb_socket env a = (case inet_pton4 (ce_inet env) (confd_ip a) of
     None \<Rightarrow> (a, False)
   | Some address \<Rightarrow>
       if \<not> (ce_socket env \<and> ag_open a < ag_limit a) then (a, False)
       else if ce_connect env address (word_of_int (confd_port a)) then (a\<lparr>ag_open := ag_open a + 1\<rparr>, True)
       else (a, False))"

definition process_commit :: "CommitEnv \<Rightarrow> string \<Rightarrow> Agent \<Rightarrow> Agent \<times> bool" where
  "process_commit env path a = (case open_cdb_socket env a of (a, ok) \<Rightarrow>
     if \<not> ok then (a, False)
     else case (if ce_start_session env then write_config_snapshot env path a else (a, False)) of (a, result) \<Rightarrow>
       (a\<lparr>ag_open := ag_open a - 1\<rparr>, result))"

definition signal_dpdk_reload :: "CommitEnv \<Rightarrow> Agent \<Rightarrow> Agent \<times> bool" where
  "signal_dpdk_reload env a =
     (let a = if dpdk_pid a \<le> 0 then a\<lparr>dpdk_pid := ce_pidof env\<rparr> else a in
      if dpdk_pid a \<le> 0 then (report ProcessNotFound a, False)
      else if \<not> ce_kill env (dpdk_pid a) then (report (SignalFailed (dpdk_pid a)) a, False)
      else (a\<lparr>ag_signals := ag_signals a @ [dpdk_pid a]\<rparr>, True))"

text \<open>One turn of the loop of \<^verbatim>\<open>main\<close>, after the subscription socket has told of a commit.\<close>

definition handle_commit :: "CommitEnv \<Rightarrow> string \<Rightarrow> Agent \<Rightarrow> Agent" where
  "handle_commit env path a = (case process_commit env path a of (a, published) \<Rightarrow>
     if \<not> published then report SnapshotFailed a
     else case signal_dpdk_reload env a of (a, signalled) \<Rightarrow>
       report (if signalled then SnapshotPublished else SnapshotFailed) a)"

text \<open>The loop over the commits that come before the subscription socket fails.\<close>

fun subscription_loop :: "CommitEnv list \<Rightarrow> string \<Rightarrow> Agent \<Rightarrow> Agent" where
  "subscription_loop [] path a = a"
| "subscription_loop (env # envs) path a =
     (let a = handle_commit env path a in if ce_sync env then subscription_loop envs path a else a)"

text \<open>
  \<^verbatim>\<open>atoi\<close>: white space, a sign, digits. The result of a number beyond the range of \<^verbatim>\<open>int\<close> is undefined in C; here it is the number.
\<close>

definition atoi :: "string \<Rightarrow> int" where
  "atoi text =
     (let text = dropWhile is_space text; number = (\<lambda>text. int (digits_value (takeWhile is_digit text))) in
      case text of [] \<Rightarrow> 0
      | c # rest \<Rightarrow> if c = CHR ''-'' then - number rest else if c = CHR ''+'' then number rest else number text)"

text \<open>The arguments; without result where \<^verbatim>\<open>main\<close> prints the usage.\<close>

fun parse_arguments :: "string list \<Rightarrow> Agent \<Rightarrow> Agent option" where
  "parse_arguments [] a = Some a"
| "parse_arguments [option] a = None"
| "parse_arguments (option # argument # rest) a =
     (if option = ''--config'' then parse_arguments rest (a\<lparr>config_path := Some argument\<rparr>)
      else if option = ''--pid'' then parse_arguments rest (a\<lparr>dpdk_pid := atoi argument\<rparr>)
      else if option = ''--confd-ip'' then parse_arguments rest (a\<lparr>confd_ip := argument\<rparr>)
      else if option = ''--confd-port'' then parse_arguments rest (a\<lparr>confd_port := atoi argument\<rparr>)
      else None)"

text \<open>The process from its start to its exit with status 1. \<open>start\<close> tells what the calls before the loop do.\<close>

definition agent_main :: "string list \<Rightarrow> bool \<Rightarrow> CommitEnv \<Rightarrow> bool \<Rightarrow> CommitEnv list \<Rightarrow> Agent \<Rightarrow> Agent" where
  "agent_main arguments init_ok start subscribe_ok envs a = (case parse_arguments arguments a of
     None \<Rightarrow> report Usage a
   | Some a \<Rightarrow> (case config_path a of
       None \<Rightarrow> report Usage a
     | Some path \<Rightarrow>
         if confd_port a \<le> 0 \<or> 65535 < confd_port a then report Usage a
         else if \<not> init_ok then a
         else case open_cdb_socket start a of (a, ok) \<Rightarrow>
           if \<not> ok then report ConnectFailed a
           else if \<not> subscribe_ok then report SubscribeFailed (a\<lparr>ag_open := ag_open a - 1\<rparr>)
           else let a = report LoopEnded (subscription_loop envs path a) in a\<lparr>ag_open := ag_open a - 1\<rparr>))"

end
