(* ===== verification/Confd_Agent_Correct.thy ===== *)
theory Confd_Agent_Correct
  imports Confd_Agent
begin

text \<open>
  What the ConfD agent's configuration files say and when they are published. The lines that the file of a
  database is meant to have are \<open>document\<close>; \<open>read_lines\<close> is a reader for the part of YAML the agent
  writes. A text is related to lines by \<open>reads\<close>, a writer to the text it adds to its stream by \<open>emits\<close>, and both
  compose along the chains of calls of the source.
\<close>

section \<open>What a file says\<close>

text \<open>
  The abstract document: lines with an indentation, the dash of a list entry, a key and a value. The reader is the part of
  YAML that the agent uses, with double-quoted scalars as YAML defines them.
\<close>

datatype Scalar = Nothing | Quoted string | Plain string

datatype YamlLine = Line nat bool string Scalar

definition unescape :: "char \<Rightarrow> char option" where
  "unescape e =
     (if e = backslash \<or> e = quote then Some e
      else if e = CHR ''n'' then Some newline
      else if e = CHR ''r'' then Some (CHR 0x0D)
      else if e = CHR ''t'' then Some (CHR 0x09)
      else None)"

fun read_quoted :: "string \<Rightarrow> (string \<times> string) option" where
  "read_quoted [] = None"
| "read_quoted (c # cs) =
     (if c = quote then Some ([], cs)
      else if c = backslash then
        (case cs of [] \<Rightarrow> None
         | e # rest \<Rightarrow> Option.bind (unescape e) (\<lambda>x. map_option (\<lambda>(v, r). (x # v, r)) (read_quoted rest)))
      else if (of_char c :: nat) < 0x20 then None
      else map_option (\<lambda>(v, r). (c # v, r)) (read_quoted cs))"

definition end_line :: "(string \<times> string) option \<Rightarrow> (string \<Rightarrow> YamlLine) \<Rightarrow> (YamlLine \<times> string) option" where
  "end_line value line = (case value of Some (v, c # rest) \<Rightarrow> if c = newline then Some (line v, rest) else None | _ \<Rightarrow> None)"

definition read_entry :: "nat \<Rightarrow> bool \<Rightarrow> string \<Rightarrow> (YamlLine \<times> string) option" where
  "read_entry indent dash text =
     (if take 1 text = [quote] then end_line (read_quoted (drop 1 text)) (\<lambda>v. Line indent dash [] (Quoted v))
      else let key = takeWhile (\<lambda>c. c \<noteq> CHR '':'' \<and> c \<noteq> newline) text; after = drop (length key) text in
        if take 2 after = [CHR '':'', newline] then Some (Line indent dash key Nothing, drop 2 after)
        else if take 3 after = [CHR '':'', CHR '' '', quote]
          then end_line (read_quoted (drop 3 after)) (\<lambda>v. Line indent dash key (Quoted v))
        else if take 2 after = [CHR '':'', CHR '' '']
          then end_line (Some (takeWhile (\<lambda>c. c \<noteq> newline) (drop 2 after), dropWhile (\<lambda>c. c \<noteq> newline) (drop 2 after)))
                 (\<lambda>v. Line indent dash key (Plain v))
        else None)"

definition read_line :: "string \<Rightarrow> (YamlLine \<times> string) option" where
  "read_line text =
     (let indent = length (takeWhile (\<lambda>c. c = CHR '' '') text); body = drop indent text in
      if take 2 body = ''- '' then read_entry indent True (drop 2 body) else read_entry indent False body)"

function read_lines :: "string \<Rightarrow> YamlLine list option" where
  "read_lines text =
     (case text of [] \<Rightarrow> Some []
      | c # cs \<Rightarrow>
          if c = newline then read_lines cs
          else case read_line text of None \<Rightarrow> None
            | Some (line, rest) \<Rightarrow> if length rest < length text then map_option ((#) line) (read_lines rest) else None)"
  by auto
termination by (relation "measure length") auto

declare read_lines.simps [simp del]

text \<open>The strings that the agent can write.\<close>

definition representable :: "string \<Rightarrow> bool" where
  "representable value \<longleftrightarrow> list_all (\<lambda>c. 0x20 \<le> (of_char c :: nat) \<or> c = newline \<or> c = CHR 0x0D \<or> c = CHR 0x09) value"

subsection \<open>The document of a database\<close>

definition string_line :: "cdb \<Rightarrow> string \<Rightarrow> string \<Rightarrow> nat \<Rightarrow> YamlLine list option" where
  "string_line db key path indent = (case read_string db path of None \<Rightarrow> Some []
     | Some value \<Rightarrow> if representable value then Some [Line indent False key (Quoted value)] else None)"

definition number_line :: "cdb \<Rightarrow> string \<Rightarrow> string \<Rightarrow> nat \<Rightarrow> YamlLine list option" where
  "number_line db key path indent = (case cdb_get_pp db 64 path of None \<Rightarrow> Some []
     | Some rendered \<Rightarrow> Some [Line indent False key (Plain rendered)])"

definition bool_line :: "cdb \<Rightarrow> string \<Rightarrow> string \<Rightarrow> nat \<Rightarrow> YamlLine list option" where
  "bool_line db key path indent = (case cdb_get_bool db path of None \<Rightarrow> Some []
     | Some value \<Rightarrow> Some [Line indent False key (Plain (if value then ''true'' else ''false''))])"

definition item_line :: "cdb \<Rightarrow> nat \<Rightarrow> string \<Rightarrow> string \<Rightarrow> YamlLine list option" where
  "item_line db indent key path = (case read_string db path of None \<Rightarrow> None
     | Some value \<Rightarrow> if representable value then Some [Line indent True key (Quoted value)] else None)"

definition heading :: "nat \<Rightarrow> string \<Rightarrow> YamlLine list option" where
  "heading indent key = Some [Line indent False key Nothing]"

fun all_of :: "'a list option list \<Rightarrow> 'a list option" where
  "all_of [] = Some []"
| "all_of (x # xs) = Option.bind x (\<lambda>l. map_option ((@) l) (all_of xs))"

text \<open>A list of the database, one part of the document for each of its entries.\<close>

definition listed :: "int \<Rightarrow> nat \<Rightarrow> string \<Rightarrow> (nat \<Rightarrow> YamlLine list option) \<Rightarrow> YamlLine list option" where
  "listed n indent key part = (if n < 0 then None else all_of (heading indent key # map part [0..<nat n]))"

definition tcp_reassembly_lines :: "cdb \<Rightarrow> YamlLine list option" where
  "tcp_reassembly_lines db = (let leaf = (\<lambda>key. ''/fastapi:fastapi/spi/tcp_reassembly/'' @ key) in all_of (
     [heading 2 ''tcp_reassembly'', bool_line db ''enabled'' (leaf ''enabled'') 4] @
     map (\<lambda>key. number_line db key (leaf key) 4)
       [''idle_timeout_sec'', ''max_concurrent_streams'', ''max_buffered_bytes_per_direction'',
        ''max_out_of_order_segments'', ''memory_budget_mb''] @
     [bool_line db ''drop_conflicting_overlap'' (leaf ''drop_conflicting_overlap'') 4]))"

definition filter_lines :: "cdb \<Rightarrow> nat \<Rightarrow> nat \<Rightarrow> YamlLine list option" where
  "filter_lines db g i = (let leaf = (\<lambda>key. filter_path g i @ ''/'' @ key) in all_of (
     item_line db 8 ''protocol'' (leaf ''protocol'') #
     map (\<lambda>key. string_line db key (leaf key) 10) [''source_ip_address'', ''destination_ip_address'', ''label''] @
     map (\<lambda>key. number_line db key (leaf key) 10) [''source_port'', ''destination_port'']))"

definition filter_group_lines :: "cdb \<Rightarrow> nat \<Rightarrow> YamlLine list option" where
  "filter_group_lines db g = (let leaf = (\<lambda>key. filter_group_path g @ ''/'' @ key) in all_of
     [item_line db 4 ''name'' (leaf ''name''),
      number_line db ''precedence'' (leaf ''precedence'') 6,
      string_line db ''action'' (leaf ''action'') 6,
      bool_line db ''l7_required'' (leaf ''l7_required'') 6,
      string_line db ''dpi_filter_group'' (leaf ''dpi_filter_group'') 6,
      listed (cdb_num_instances db (leaf ''filters'')) 6 ''filters'' (filter_lines db g)])"

definition spi_lines :: "cdb \<Rightarrow> YamlLine list option" where
  "spi_lines db =
     (let leaf = (\<lambda>key. ''/fastapi:fastapi/spi/'' @ key);
          number = (\<lambda>key. number_line db key (leaf key) 2); text = (\<lambda>key. string_line db key (leaf key) 2)
      in all_of
        [heading 0 ''spi'', number ''worker_count'', text ''packet_distribution'', number ''dispatch_queue_size'',
         bool_line db ''drop_unmatched'' (leaf ''drop_unmatched'') 2, number ''flow_ttl_sec'', number ''max_concurrent_flows'',
         text ''flow_overflow_action'', number ''fragment_timeout_sec'', number ''max_compilation_threads'',
         number ''max_acl_build_threads'', text ''acl_classify_algorithm'', number ''acl_build_max_size_mb'',
         tcp_reassembly_lines db,
         listed (cdb_num_instances db (leaf ''filter-groups'')) 2 ''filter_groups'' (filter_group_lines db)])"

definition dpi_filter_lines :: "cdb \<Rightarrow> nat \<Rightarrow> YamlLine list option" where
  "dpi_filter_lines db i = (let leaf = (\<lambda>key. ''/fastapi:fastapi/dpi/filters['' @ decimal i @ '']/'' @ key) in all_of
     [item_line db 4 ''hostname_pattern'' (leaf ''hostname_pattern''), string_line db ''filter_group'' (leaf ''filter_group'') 6,
      string_line db ''label'' (leaf ''label'') 6, number_line db ''priority'' (leaf ''priority'') 6])"

definition dpi_lines :: "cdb \<Rightarrow> YamlLine list option" where
  "dpi_lines db = all_of
     [heading 0 ''dpi'', bool_line db ''enabled'' ''/fastapi:fastapi/dpi/enabled'' 2,
      listed (cdb_num_instances db ''/fastapi:fastapi/dpi/filters'') 2 ''filters'' (dpi_filter_lines db)]"

definition device_lines :: "cdb \<Rightarrow> YamlLine list option" where
  "device_lines db = (let n = cdb_num_instances db ''/fastapi:fastapi/eal/virtual_devices'' in
     if n = 0 then Some [] else listed n 2 ''virtual_devices''
       (\<lambda>i. item_line db 4 [] (''/fastapi:fastapi/eal/virtual_devices['' @ decimal i @ '']'')))"

text \<open>The leaves of a section that is not a list.\<close>

definition document :: "cdb \<Rightarrow> YamlLine list option" where
  "document db =
     (let leaf = (\<lambda>part key. ''/fastapi:fastapi/'' @ part @ ''/'' @ key);
          number = (\<lambda>part key. number_line db key (leaf part key) 2);
          text = (\<lambda>part key. string_line db key (leaf part key) 2);
          flag = (\<lambda>part key. bool_line db key (leaf part key) 2)
      in all_of
        [heading 0 ''eal'', text ''eal'' ''cpu_core_list'', text ''eal'' ''file_prefix'', number ''eal'' ''memory_channels'',
         text ''eal'' ''memory_size'', flag ''eal'' ''disable_hugepages'', flag ''eal'' ''disable_pci'', text ''eal'' ''log_level'',
         device_lines db,
         heading 0 ''port'', text ''port'' ''port_bitmask'', number ''port'' ''receive_queues'', number ''port'' ''transmit_queues'',
         number ''port'' ''receive_descriptors'', number ''port'' ''transmit_descriptors'', flag ''port'' ''promiscuous'',
         heading 0 ''mempool'', text ''mempool'' ''name'', number ''mempool'' ''memory_buffer_count'',
         number ''mempool'' ''memory_buffer_size'', number ''mempool'' ''cache_size'',
         heading 0 ''app'', number ''app'' ''burst_size'', flag ''app'' ''mac_updating'', number ''app'' ''timer_period_sec'',
         spi_lines db, dpi_lines db])"

section \<open>Reading back\<close>

text \<open>A text says these lines, whatever follows it.\<close>

definition reads :: "string \<Rightarrow> YamlLine list \<Rightarrow> bool" where
  "reads text lines \<longleftrightarrow> (\<forall>rest. read_lines (text @ rest) = map_option ((@) lines) (read_lines rest))"

lemma reads_Nil: "reads [] []"
  by (simp add: reads_def map_option_case split: option.split)

lemma reads_append: "reads x l \<Longrightarrow> reads y m \<Longrightarrow> reads (x @ y) (l @ m)"
  by (simp add: reads_def map_option_case split: option.splits)

lemma reads_one:
  assumes "\<And>rest. read_line (text @ rest) = Some (line, rest)" and "text \<noteq> []" and "hd text \<noteq> newline"
  shows "reads text [line]"
  unfolding reads_def using assms
  by (auto simp: read_lines.simps [of "text @ _"] neq_Nil_conv map_option_case split: list.splits option.splits)

lemma reads_blank: "reads text lines \<Longrightarrow> reads (newline # text) lines"
  by (simp add: reads_def read_lines.simps [of "newline # _"])

text \<open>The quoted form of a string.\<close>

definition quoted_char :: "char \<Rightarrow> string" where
  "quoted_char c =
     (if c = backslash then [backslash, backslash] else if c = quote then [backslash, quote]
      else if c = newline then [backslash, CHR ''n''] else if c = CHR 0x0D then [backslash, CHR ''r'']
      else if c = CHR 0x09 then [backslash, CHR ''t''] else [c])"

lemma read_quoted_char:
  assumes "representable [c]"
  shows "read_quoted (quoted_char c @ text) = map_option (\<lambda>(v, r). (c # v, r)) (read_quoted text)"
  using assms by (auto simp: quoted_char_def representable_def unescape_def)

lemma read_quoted_concat:
  "representable value \<Longrightarrow> read_quoted (concat (map quoted_char value) @ quote # rest) = Some (value, rest)"
proof (induction "value")
  case (Cons c cs)
  then have "representable [c]" "representable cs" by (simp_all add: representable_def)
  with Cons.IH show ?case by (simp add: read_quoted_char)
qed simp

definition quoted :: "string \<Rightarrow> string" where
  "quoted value = quote # concat (map quoted_char value) @ [quote]"

section \<open>Lines\<close>

definition plain_key :: "string \<Rightarrow> bool" where
  "plain_key key \<longleftrightarrow> key \<noteq> [] \<and> list_all (\<lambda>c. c \<noteq> CHR '':'' \<and> c \<noteq> newline \<and> c \<noteq> CHR '' '' \<and> c \<noteq> quote) key \<and> hd key \<noteq> CHR ''-''"

definition dash_text :: "bool \<Rightarrow> string" where "dash_text dash = (if dash then ''- '' else [])"

lemma read_line_indented:
  assumes "\<And>rest. read_entry n dash (text @ rest) = Some (line, rest)" and "text \<noteq> []" and "hd text \<noteq> CHR '' ''"
    and "hd text \<noteq> CHR ''-''" and "hd text \<noteq> newline"
  shows "reads (spaces n @ dash_text dash @ text) [line]"
proof (rule reads_one)
  fix rest
  obtain c cs where c: "text = c # cs" "c \<noteq> CHR '' ''" "c \<noteq> CHR ''-''"
    using assms(2-5) by (cases "text") auto
  have "takeWhile (\<lambda>c. c = CHR '' '') (spaces n @ dash_text dash @ text @ rest) = spaces n"
    using c by (simp add: spaces_def takeWhile_append dash_text_def takeWhile_replicate)
  then show "read_line ((spaces n @ dash_text dash @ text) @ rest) = Some (line, rest)"
    using assms(1) [of rest] c by (cases dash) (simp_all add: read_line_def spaces_def dash_text_def)
qed (use assms in \<open>auto simp: spaces_def dash_text_def hd_append\<close>)

lemma takeWhile_key: "list_all P key \<Longrightarrow> \<not> P c \<Longrightarrow> takeWhile P (key @ c # r) = key"
  by (induction key) simp_all

lemma read_entry_key:
  assumes "plain_key key"
  shows "read_entry n dash (key @ CHR '':'' # newline # rest) = Some (Line n dash key Nothing, rest)"
    and "representable v \<Longrightarrow>
      read_entry n dash (key @ CHR '':'' # CHR '' '' # quoted v @ newline # rest) = Some (Line n dash key (Quoted v), rest)"
    and "newline \<notin> set v \<Longrightarrow> take 1 v \<noteq> [quote] \<Longrightarrow>
      read_entry n dash (key @ CHR '':'' # CHR '' '' # v @ newline # rest) = Some (Line n dash key (Plain v), rest)"
proof -
  have "list_all (\<lambda>c. c \<noteq> CHR '':'' \<and> c \<noteq> newline) key" using assms by (simp add: plain_key_def list_all_iff)
  from takeWhile_key [OF this, of "CHR '':''"]
  have key: "takeWhile (\<lambda>c. c \<noteq> CHR '':'' \<and> c \<noteq> newline) (key @ CHR '':'' # r) = key" for r by simp
  have "take (Suc 0) (key @ r) \<noteq> [quote]" for r using assms by (cases key) (simp_all add: plain_key_def)
  note start = key this [unfolded take_append]
  show "read_entry n dash (key @ CHR '':'' # newline # rest) = Some (Line n dash key Nothing, rest)"
    using start by (simp add: read_entry_def)
  show "read_entry n dash (key @ CHR '':'' # CHR '' '' # quoted v @ newline # rest) = Some (Line n dash key (Quoted v), rest)"
    if "representable v"
    using start by (simp add: read_entry_def quoted_def read_quoted_concat [OF that] end_line_def)
  show "read_entry n dash (key @ CHR '':'' # CHR '' '' # v @ newline # rest) = Some (Line n dash key (Plain v), rest)"
    if v: "newline \<notin> set v" "take 1 v \<noteq> [quote]"
  proof -
    have "takeWhile (\<lambda>c. c \<noteq> newline) (v @ newline # rest) = v" "dropWhile (\<lambda>c. c \<noteq> newline) (v @ newline # rest) = newline # rest"
      using v(1) by (induction v) auto
    moreover have "take 1 (v @ newline # rest) \<noteq> [quote]" using v(2) by (cases v) auto
    ultimately show ?thesis using start by (simp add: read_entry_def end_line_def)
  qed
qed

lemma read_entry_item:
  "representable v \<Longrightarrow> read_entry n dash (quoted v @ newline # rest) = Some (Line n dash [] (Quoted v), rest)"
  by (simp add: read_entry_def quoted_def read_quoted_concat end_line_def)

lemma plain_key_start:
  "plain_key key \<Longrightarrow> hd (key @ r) \<noteq> CHR '' '' \<and> hd (key @ r) \<noteq> CHR ''-'' \<and> hd (key @ r) \<noteq> newline"
  by (cases key) (auto simp: plain_key_def)

lemma reads_heading:
  assumes "plain_key key"
  shows "reads (spaces n @ key @ [CHR '':'', newline]) [Line n False key Nothing]"
proof -
  have "reads (spaces n @ dash_text False @ key @ [CHR '':'', newline]) [Line n False key Nothing]"
    by (rule read_line_indented) (use plain_key_start [OF assms] in \<open>simp_all add: read_entry_key(1) [OF assms]\<close>)
  then show ?thesis by (simp add: dash_text_def)
qed

lemma reads_quoted:
  assumes "plain_key key" and "representable v"
  shows "reads (spaces n @ dash_text dash @ key @ '': '' @ quoted v @ [newline]) [Line n dash key (Quoted v)]"
  by (rule read_line_indented) (use plain_key_start [OF assms(1)] in \<open>simp_all add: read_entry_key(2) [OF assms]\<close>)

lemma reads_plain:
  assumes "plain_key key" and "newline \<notin> set v" and "take 1 v \<noteq> [quote]"
  shows "reads (spaces n @ key @ '': '' @ v @ [newline]) [Line n False key (Plain v)]"
proof -
  have "reads (spaces n @ dash_text False @ key @ '': '' @ v @ [newline]) [Line n False key (Plain v)]"
    by (rule read_line_indented) (use plain_key_start [OF assms(1)] in \<open>simp_all add: read_entry_key(3) [OF assms]\<close>)
  then show ?thesis by (simp add: dash_text_def)
qed

lemma reads_item:
  assumes "representable v"
  shows "reads (spaces n @ dash_text True @ quoted v @ [newline]) [Line n True [] (Quoted v)]"
  by (rule read_line_indented) (simp_all add: read_entry_item [OF assms], simp_all add: quoted_def)

section \<open>Writers\<close>

text \<open>As long as the stream reports no error, the writer adds this text, or refuses.\<close>

definition emits :: "writer \<Rightarrow> string option \<Rightarrow> bool" where
  "emits w t \<longleftrightarrow> (\<forall>s s' ok. w s = (s', ok) \<longrightarrow> (st_error s \<longrightarrow> st_error s') \<and>
     (\<not> st_error s' \<longrightarrow> (case t of None \<Rightarrow> \<not> ok | Some x \<Rightarrow> ok \<and> st_text s' = st_text s @ x)))"

lemma emits_basic [simp]:
  "emits (put x) (Some x)" "emits (put_unchecked x) (Some x)" "emits skip (Some [])" "emits fail None"
  by (auto simp: emits_def put_def put_unchecked_def skip_def fail_def split: option.splits)

lemma emits_in_turn: "list_all2 emits ws ts \<Longrightarrow> emits (in_turn ws) (all_of ts)"
proof (induction ws ts rule: list_all2_induct)
  case Nil
  then show ?case by (simp add: emits_def)
next
  case (Cons w ws t ts)
  show ?case unfolding emits_def
  proof (intro allI impI)
    fix s s' ok
    assume run: "in_turn (w # ws) s = (s', ok)"
    obtain s1 ok1 where w: "w s = (s1, ok1)" by fastforce
    with Cons(1) have w_emits: "st_error s \<longrightarrow> st_error s1"
      "\<not> st_error s1 \<longrightarrow> (case t of None \<Rightarrow> \<not> ok1 | Some x \<Rightarrow> ok1 \<and> st_text s1 = st_text s @ x)"
      unfolding emits_def by blast+
    show "(st_error s \<longrightarrow> st_error s') \<and>
        (\<not> st_error s' \<longrightarrow> (case all_of (t # ts) of None \<Rightarrow> \<not> ok | Some x \<Rightarrow> ok \<and> st_text s' = st_text s @ x))"
    proof (cases ok1)
      case True
      with run w have "in_turn ws s1 = (s', ok)" by simp
      then have "st_error s1 \<longrightarrow> st_error s'"
        "\<not> st_error s' \<longrightarrow> (case all_of ts of None \<Rightarrow> \<not> ok | Some x \<Rightarrow> ok \<and> st_text s' = st_text s1 @ x)"
        using Cons(3) unfolding emits_def by blast+
      with w_emits True show ?thesis by (auto split: option.splits)
    next
      case False
      with run w w_emits show ?thesis by (auto split: option.splits)
    qed
  qed
qed

lemma all_of_map_Some: "all_of (map (\<lambda>x. if P x then Some (f x) else None) xs) = (if list_all P xs then Some (concat (map f xs)) else None)"
  by (induction xs) auto

lemma all_of_append: "all_of (xs @ ys) = Option.bind (all_of xs) (\<lambda>x. map_option ((@) x) (all_of ys))"
  by (induction xs) (auto simp: map_option_case split: option.splits bind_splits)

lemma emits_yaml_char: "emits (yaml_char c) (if representable [c] then Some (quoted_char c) else None)"
  by (auto simp: yaml_char_def quoted_char_def representable_def)

lemma emits_yaml_string: "emits (yaml_string v) (if representable v then Some (quoted v) else None)"
proof -
  let ?ts = "Some [quote] # map (\<lambda>c. if representable [c] then Some (quoted_char c) else None) v @ [Some [quote]]"
  have "list_all2 emits (put [quote] # map yaml_char v @ [put [quote]]) ?ts"
    by (simp add: list_all2_append list_all2_map1 list_all2_map2 list_all2_same emits_yaml_char)
  moreover have "all_of ?ts = (if representable v then Some (quoted v) else None)"
    by (simp add: all_of_append all_of_map_Some quoted_def representable_def list_all_iff)
  ultimately show ?thesis using emits_in_turn [of _ ?ts] unfolding yaml_string_def by simp
qed

text \<open>A writer delivers lines if the text it adds says them.\<close>

definition delivers :: "writer \<Rightarrow> YamlLine list option \<Rightarrow> bool" where
  "delivers w lines \<longleftrightarrow> (\<exists>t. emits w t \<and> rel_option reads t lines)"

lemma deliversI: "emits w (Some x) \<Longrightarrow> reads x l \<Longrightarrow> delivers w (Some l)"
  unfolding delivers_def by (intro exI [of _ "Some x"]) simp

lemma delivers_basic: "delivers skip (Some [])" "delivers fail None"
  unfolding delivers_def using reads_Nil by (force intro: exI [of _ "Some []"] exI [of _ None])+

lemma all_of_reads: "list_all2 (rel_option reads) ts ls \<Longrightarrow> rel_option reads (all_of ts) (all_of ls)"
  by (induction ts ls rule: list_all2_induct) (auto simp: reads_Nil reads_append option_rel_Some1 rel_option_iff split: option.splits bind_splits)

lemma delivers_in_turn:
  assumes "list_all2 delivers ws ls"
  shows "delivers (in_turn ws) (all_of ls)"
proof -
  have "\<exists>ts. list_all2 emits ws ts \<and> list_all2 (rel_option reads) ts ls"
    using assms
  proof (induction rule: list_all2_induct)
    case (Cons w ws l ls)
    then obtain t ts where "emits w t" "rel_option reads t l" "list_all2 emits ws ts" "list_all2 (rel_option reads) ts ls"
      unfolding delivers_def by blast
    then show ?case by (intro exI [of _ "t # ts"]) simp
  qed simp
  then show ?thesis using emits_in_turn all_of_reads unfolding delivers_def by blast
qed

section \<open>The agent writes the document\<close>

text \<open>What the database library promises of numbers: they are printed as digits.\<close>

definition renders_numbers :: "cdb \<Rightarrow> bool" where
  "renders_numbers db \<longleftrightarrow> (\<forall>n path v. cdb_get_pp db n path = Some v \<longrightarrow>
     list_all (\<lambda>c. 48 \<le> (of_char c :: nat) \<and> (of_char c :: nat) \<le> 57) v)"

lemma digits_plain:
  assumes "list_all (\<lambda>c. 48 \<le> (of_char c :: nat) \<and> (of_char c :: nat) \<le> 57) v"
  shows "newline \<notin> set v" and "take 1 v \<noteq> [quote]"
  using assms by (auto simp: list_all_iff take_Suc split: list.splits) (cases v; auto)

named_theorems delivers_rules

lemma delivers_string [delivers_rules]:
  assumes "plain_key key"
  shows "delivers (emit_optional_string db key path n) (string_line db key path n)"
proof (cases "read_string db path")
  case (Some v)
  have "list_all2 emits [put_unchecked (spaces n @ key @ '': ''), yaml_string v, put [newline]]
      [Some (spaces n @ key @ '': ''), if representable v then Some (quoted v) else None, Some [newline]]"
    by (simp add: emits_yaml_string del: if_split_asm)
  from emits_in_turn [OF this] reads_quoted [OF assms, of v n False] show ?thesis
    unfolding delivers_def by (auto simp: emit_optional_string_def string_line_def Some dash_text_def split: if_splits)
qed (simp add: emit_optional_string_def string_line_def delivers_basic)

lemma delivers_item [delivers_rules]:
  assumes "lead = spaces n @ ''- '' @ (if key = [] then [] else key @ '': '')" and "key \<noteq> [] \<Longrightarrow> plain_key key"
  shows "delivers (emit_item db lead path) (item_line db n key path)"
proof (cases "read_string db path")
  case (Some v)
  have "list_all2 emits [put lead, yaml_string v, put [newline]]
      [Some lead, if representable v then Some (quoted v) else None, Some [newline]]"
    by (simp add: emits_yaml_string)
  from emits_in_turn [OF this]
  have emitted: "emits (in_turn [put lead, yaml_string v, put [newline]])
      (if representable v then Some (lead @ quoted v @ [newline]) else None)" by (auto split: if_splits)
  have "reads (lead @ quoted v @ [newline]) [Line n True key (Quoted v)]" if "representable v"
    using reads_item [OF that, of n] reads_quoted [OF assms(2) that, of n True] assms(1)
    by (auto simp: dash_text_def)
  with emitted show ?thesis
    unfolding delivers_def by (auto simp: emit_item_def item_line_def Some split: if_splits)
qed (simp add: emit_item_def item_line_def delivers_basic)

lemma delivers_number [delivers_rules]:
  assumes "renders_numbers db" and "plain_key key"
  shows "delivers (emit_optional_u32 db key path n) (number_line db key path n)"
proof (cases "cdb_get_pp db 64 path")
  case (Some v)
  then have "list_all (\<lambda>c. 48 \<le> (of_char c :: nat) \<and> (of_char c :: nat) \<le> 57) v"
    using assms(1) unfolding renders_numbers_def by blast
  from reads_plain [OF assms(2) digits_plain [OF this]] show ?thesis
    by (simp add: emit_optional_u32_def number_line_def Some deliversI [OF emits_basic(1)])
qed (simp add: emit_optional_u32_def number_line_def delivers_basic)

lemma delivers_bool [delivers_rules]:
  assumes "plain_key key"
  shows "delivers (emit_optional_bool db key path n) (bool_line db key path n)"
proof (cases "cdb_get_bool db path")
  case (Some b)
  have "newline \<notin> set (if b then ''true'' else ''false'')" "take 1 (if b then ''true'' else ''false'') \<noteq> [quote]" by auto
  from reads_plain [OF assms this, of n] show ?thesis
    by (simp add: emit_optional_bool_def bool_line_def Some deliversI [OF emits_basic(1)] split del: if_split)
qed (simp add: emit_optional_bool_def bool_line_def delivers_basic)

lemma delivers_heading [delivers_rules]:
  assumes "plain_key key" and "x = spaces n @ key @ [CHR '':'', newline] \<or> x = newline # spaces n @ key @ [CHR '':'', newline]"
  shows "delivers (put x) (heading n key)"
  using assms(2) reads_heading [OF assms(1), of n] reads_blank unfolding heading_def
  by (auto intro!: deliversI [OF emits_basic(1)])

lemma delivers_listed [delivers_rules]:
  assumes "delivers (put x) (heading n key)" and "\<And>i. delivers (w i) (part i)"
  shows "delivers (in_turn ((if count < 0 then fail else put x) # map w [0..<nat count])) (listed count n key part)"
proof (cases "count < 0")
  case True
  then show ?thesis using delivers_in_turn [of "[fail]" "[None]"] by (simp add: listed_def delivers_basic)
next
  case False
  have "list_all2 delivers (put x # map w [0..<nat count]) (heading n key # map part [0..<nat count])"
    using assms by (simp add: list_all2_map1 list_all2_map2 list_all2_same)
  from delivers_in_turn [OF this] False show ?thesis by (simp add: listed_def)
qed

lemmas literal_simps = plain_key_def spaces_def eval_nat_numeral

lemma delivers_tcp_reassembly:
  assumes "renders_numbers db"
  shows "delivers (write_tcp_reassembly db) (tcp_reassembly_lines db)"
  unfolding write_tcp_reassembly_def tcp_reassembly_lines_def Let_def
  by (rule delivers_in_turn) (simp add: delivers_rules assms literal_simps)

lemma delivers_filter:
  assumes "renders_numbers db"
  shows "delivers (write_filter db g i) (filter_lines db g i)"
  unfolding write_filter_def filter_lines_def Let_def
  by (rule delivers_in_turn) (simp add: delivers_rules assms literal_simps)

lemma delivers_filter_group:
  assumes "renders_numbers db"
  shows "delivers (write_filter_group db g) (filter_group_lines db g)"
  unfolding write_filter_group_def filter_group_lines_def Let_def
  by (rule delivers_in_turn) (simp add: delivers_rules delivers_filter assms literal_simps)

lemma delivers_dpi_filter:
  assumes "renders_numbers db"
  shows "delivers (write_dpi_filter db i) (dpi_filter_lines db i)"
  unfolding write_dpi_filter_def dpi_filter_lines_def Let_def
  by (rule delivers_in_turn) (simp add: delivers_rules assms literal_simps)

lemma delivers_devices: "delivers (write_virtual_devices db) (device_lines db)"
proof -
  let ?n = "cdb_num_instances db ''/fastapi:fastapi/eal/virtual_devices''"
  have "delivers (put (''  virtual_devices:'' @ [newline])) (heading 2 ''virtual_devices'')"
    by (simp add: delivers_rules literal_simps)
  from delivers_listed [OF this, of "\<lambda>i. emit_item db ''    - '' (''/fastapi:fastapi/eal/virtual_devices['' @ decimal i @ '']'')" _ ?n]
  have "delivers (in_turn ((if ?n < 0 then fail else put (''  virtual_devices:'' @ [newline])) #
      map (\<lambda>i. emit_item db ''    - '' (''/fastapi:fastapi/eal/virtual_devices['' @ decimal i @ '']'')) [0..<nat ?n]))
    (listed ?n 2 ''virtual_devices'' (\<lambda>i. item_line db 4 [] (''/fastapi:fastapi/eal/virtual_devices['' @ decimal i @ '']'')))"
    by (simp add: delivers_rules spaces_def eval_nat_numeral)
  then show ?thesis
    by (auto simp: write_virtual_devices_def device_lines_def Let_def delivers_basic listed_def)
qed

lemma delivers_spi:
  assumes "renders_numbers db"
  shows "delivers (write_spi db) (spi_lines db)"
  unfolding write_spi_def spi_lines_def Let_def
  by (rule delivers_in_turn)
    (simp add: delivers_rules delivers_tcp_reassembly delivers_filter_group assms literal_simps)

lemma delivers_dpi:
  assumes "renders_numbers db"
  shows "delivers (write_dpi db) (dpi_lines db)"
  unfolding write_dpi_def dpi_lines_def Let_def
  by (rule delivers_in_turn) (simp add: delivers_rules delivers_dpi_filter assms literal_simps)

lemma delivers_document:
  assumes "renders_numbers db"
  shows "delivers (write_document db) (document db)"
  unfolding write_document_def document_def Let_def
  by (rule delivers_in_turn)
    (simp add: delivers_rules delivers_devices delivers_spi delivers_dpi assms literal_simps)

lemma document_written:
  assumes "renders_numbers db" and "write_document db s = (out, ok)" and "\<not> st_error out"
  shows "ok = (document db \<noteq> None)" and "ok \<Longrightarrow> st_text s = [] \<Longrightarrow> read_lines (st_text out) = document db"
proof -
  obtain t where t: "emits (write_document db) t" "rel_option reads t (document db)"
    using delivers_document [OF assms(1)] unfolding delivers_def by blast
  then have out: "case t of None \<Rightarrow> \<not> ok | Some x \<Rightarrow> ok \<and> st_text out = st_text s @ x"
    using assms(2,3) unfolding emits_def by blast
  with t(2) show "ok = (document db \<noteq> None)" by (cases t) (auto simp: option_rel_Some1)
  assume "ok" "st_text s = []"
  with out t(2) obtain x l where "st_text out = x" "reads x l" "document db = Some l"
    by (cases t) (auto simp: option_rel_Some1)
  moreover have "read_lines [] = Some []" by (simp add: read_lines.simps)
  ultimately show "read_lines (st_text out) = document db" unfolding reads_def by (metis append_Nil2 option.simps(9))
qed

text \<open>Without a fault the stream never reports an error.\<close>

definition quiet :: "writer \<Rightarrow> bool" where
  "quiet w \<longleftrightarrow> (\<forall>s. st_faults s = (\<lambda>_. None) \<longrightarrow> st_error (fst (w s)) = st_error s \<and> st_faults (fst (w s)) = (\<lambda>_. None))"

lemma quiet_basic: "quiet (put x)" "quiet (put_unchecked x)" "quiet skip" "quiet fail"
  by (simp_all add: quiet_def put_def put_unchecked_def skip_def fail_def)

lemma quiet_in_turn: "list_all quiet ws \<Longrightarrow> quiet (in_turn ws)"
proof (induction ws)
  case (Cons w ws)
  then have q: "quiet w" "quiet (in_turn ws)" by simp_all
  show ?case unfolding quiet_def
  proof (intro allI impI)
    fix s :: Stream
    assume "st_faults s = (\<lambda>_. None)"
    moreover obtain s1 ok where "w s = (s1, ok)" by fastforce
    ultimately show "st_error (fst (in_turn (w # ws) s)) = st_error s \<and> st_faults (fst (in_turn (w # ws) s)) = (\<lambda>_. None)"
      using q(1) [unfolded quiet_def, rule_format, of s] q(2) [unfolded quiet_def, rule_format, of s1] by simp
  qed
qed (simp add: quiet_def)

lemma quiet_yaml_char: "quiet (yaml_char c)"
  by (simp add: yaml_char_def quiet_basic)

lemma quiet_yaml_string: "quiet (yaml_string v)"
  unfolding yaml_string_def
  by (rule quiet_in_turn) (simp add: quiet_basic list_all_iff quiet_yaml_char)

lemma quiet_leaves:
  "quiet (emit_optional_string db key path n)" "quiet (emit_optional_u32 db key path n)"
  "quiet (emit_optional_bool db key path n)" "quiet (emit_item db lead path)"
  by (simp_all add: emit_optional_string_def emit_optional_u32_def emit_optional_bool_def emit_item_def
      quiet_basic quiet_in_turn quiet_yaml_string del: in_turn.simps split: option.split)

lemmas quiet_rules = quiet_basic quiet_in_turn quiet_leaves list_all_iff

lemma quiet_document: "quiet (write_document db)"
  by (simp add: write_document_def write_virtual_devices_def write_spi_def write_tcp_reassembly_def write_filter_group_def
      write_filter_def write_dpi_def write_dpi_filter_def Let_def quiet_rules del: in_turn.simps)

section \<open>Publication\<close>

text \<open>What a commit does to the files, in either outcome.\<close>

definition temporaries :: "string \<Rightarrow> string set" where
  "temporaries path = range (\<lambda>x. path @ ''.tmp.'' @ x)"

lemma path_not_temporary: "path \<notin> temporaries path"
  by (auto simp: temporaries_def)

lemma write_config_snapshot_files:
  assumes "write_config_snapshot env path a = (a', published)"
  shows "{p. ag_files a' p \<noteq> ag_files a p} \<subseteq> Set.insert path (temporaries path)"
    and "{p. ag_files a' p \<notin> {ag_files a p, None, ce_leftover env}} \<subseteq> {path}"
    and "\<not> published \<Longrightarrow> ag_files a' path = ag_files a path"
    and "published \<Longrightarrow> \<exists>out. write_document (ce_db env) (fdopen_stream (ce_faults env)) = (out, True) \<and>
      ce_fflush env \<and> ce_fsync env \<and> ag_files a' path = Some (st_text out)"
    and "ag_signals a' = ag_signals a" and "dpdk_pid a' = dpdk_pid a"
  using assms
  by (auto simp: write_config_snapshot_def Let_def unlink_def temporaries_def split: if_splits option.splits prod.splits)

lemma open_cdb_socket_frame:
  "open_cdb_socket env a = (a', ok) \<Longrightarrow> ag_files a' = ag_files a \<and> ag_signals a' = ag_signals a \<and> dpdk_pid a' = dpdk_pid a"
  by (auto simp: open_cdb_socket_def split: option.splits if_splits)

lemma process_commit_files:
  assumes "process_commit env path a = (a', published)"
  shows "{p. ag_files a' p \<noteq> ag_files a p} \<subseteq> Set.insert path (temporaries path)"
    and "{p. ag_files a' p \<notin> {ag_files a p, None, ce_leftover env}} \<subseteq> {path}"
    and "\<not> published \<Longrightarrow> ag_files a' path = ag_files a path"
    and "published \<Longrightarrow> \<exists>out. write_document (ce_db env) (fdopen_stream (ce_faults env)) = (out, True) \<and>
      ce_fflush env \<and> ce_fsync env \<and> ag_files a' path = Some (st_text out)"
    and "ag_signals a' = ag_signals a"
proof -
  obtain a1 ok where o: "open_cdb_socket env a = (a1, ok)" by fastforce
  obtain a2 r where w: "write_config_snapshot env path a1 = (a2, r)" by fastforce
  note frame = open_cdb_socket_frame [OF o]
  note files = write_config_snapshot_files [OF w, unfolded frame [THEN conjunct1]]
  have a': "ag_files a' = ag_files a2 \<and> published = r \<or> ag_files a' = ag_files a \<and> \<not> published"
    using assms o w frame by (auto simp: process_commit_def split: if_splits)
  show "{p. ag_files a' p \<noteq> ag_files a p} \<subseteq> Set.insert path (temporaries path)"
    using a' files(1) by auto
  show "{p. ag_files a' p \<notin> {ag_files a p, None, ce_leftover env}} \<subseteq> {path}" using a' files(2) by (elim disjE conjE) simp_all
  show "ag_files a' path = ag_files a path" if "\<not> published" using a' files(3) that by auto
  show "\<exists>out. write_document (ce_db env) (fdopen_stream (ce_faults env)) = (out, True) \<and>
      ce_fflush env \<and> ce_fsync env \<and> ag_files a' path = Some (st_text out)" if "published"
    using a' files(4) that by auto
  show "ag_signals a' = ag_signals a"
    using assms o w frame files(5) by (auto simp: process_commit_def split: if_splits)
qed

lemma signal_frame:
  assumes "signal_dpdk_reload env a = (a', ok)"
  shows "ag_files a' = ag_files a"
    and "ag_signals a' = ag_signals a \<or> (\<exists>pid. 0 < pid \<and> ce_kill env pid \<and> ag_signals a' = ag_signals a @ [pid])"
  using assms by (auto simp: signal_dpdk_reload_def report_def Let_def split: if_splits)

text \<open>
  C14. A commit is atomic. Whatever the database answers and whichever write, flush, synchronisation or system call fails, and where: only
  the configuration file and temporary files beside it can change, and a temporary file is gone afterwards unless it could not be removed.
  Either the configuration file is as before and no process is signalled, or every writer has reported
  success, the text has been flushed and synchronised, the configuration file is exactly this text, and at most one process, with a
  positive process id, is signalled. The text says exactly the document of the database unless the stream's error
  indicator is set.\<close>

theorem commit_atomic:
  assumes "renders_numbers (ce_db env)" and "handle_commit env path a = a'"
  shows "{p. ag_files a' p \<noteq> ag_files a p} \<subseteq> Set.insert path (temporaries path) \<and>
    {p. ag_files a' p \<notin> {ag_files a p, None, ce_leftover env}} \<subseteq> {path} \<and>
    (ag_files a' path = ag_files a path \<and> ag_signals a' = ag_signals a \<or>
     (\<exists>out. write_document (ce_db env) (fdopen_stream (ce_faults env)) = (out, True) \<and> ce_fflush env \<and> ce_fsync env \<and>
        ag_files a' path = Some (st_text out) \<and> (st_error out \<or> read_lines (st_text out) = document (ce_db env)) \<and>
        (ag_signals a' = ag_signals a \<or> (\<exists>pid. 0 < pid \<and> ag_signals a' = ag_signals a @ [pid]))))"
proof -
  obtain a1 published where p: "process_commit env path a = (a1, published)" by fastforce
  note files = process_commit_files [OF p]
  obtain a2 ok where s: "signal_dpdk_reload env a1 = (a2, ok)" by fastforce
  have unpublished: "ag_files a' = ag_files a1" "ag_signals a' = ag_signals a" if "\<not> published"
    using assms(2) p files(5) that by (auto simp: handle_commit_def report_def)
  have pub: "ag_files a' = ag_files a1" "ag_signals a' = ag_signals a2" if "published"
    using assms(2) p s signal_frame(1) [OF s] that by (auto simp: handle_commit_def report_def)
  have all: "ag_files a' = ag_files a1" using unpublished pub by blast
  show ?thesis
  proof (cases published)
    case True
    then obtain out where out: "write_document (ce_db env) (fdopen_stream (ce_faults env)) = (out, True)"
      "ce_fflush env" "ce_fsync env" "ag_files a1 path = Some (st_text out)" using files(4) by blast
    have "st_error out \<or> read_lines (st_text out) = document (ce_db env)"
      using document_written(2) [OF assms(1) out(1)] by (auto simp: fdopen_stream_def)
    with out signal_frame(2) [OF s] show ?thesis using files(1,2) unfolding all pub(2) [OF True] files(5) by blast
  next
    case False
    then show ?thesis using files(1-3) unpublished unfolding all by blast
  qed
qed

subsection \<open>Commits that succeed\<close>

text \<open>Every call of the commit succeeds.\<close>

definition calm :: "CommitEnv \<Rightarrow> string \<Rightarrow> Agent \<Rightarrow> bool" where
  "calm env path a \<longleftrightarrow>
     (case inet_pton4 (ce_inet env) (confd_ip a) of None \<Rightarrow> False
      | Some address \<Rightarrow> ce_connect env address (word_of_int (confd_port a))) \<and>
     ce_socket env \<and> ce_start_session env \<and> ce_suffix env \<noteq> None \<and> ce_fdopen env \<and> ce_fflush env \<and> ce_fsync env \<and> ce_fclose env \<and>
     ce_rename env \<and> length path + 11 < PATH_BUF_SIZE \<and> ag_open a + 2 \<le> ag_limit a"

lemma calm_commit:
  assumes "calm env path a" and "write_document (ce_db env) (fdopen_stream (ce_faults env)) = (out, ok)"
  shows "snd (process_commit env path a) = ok" and "ok \<Longrightarrow> ag_files (fst (process_commit env path a)) path = Some (st_text out)"
    and "ok \<Longrightarrow> ag_open (fst (process_commit env path a)) = ag_open a"
  using assms
  by (auto simp: calm_def process_commit_def open_cdb_socket_def write_config_snapshot_def Let_def unlink_def split: option.splits)

text \<open>
  C15. The round trip through the configuration file. When no call and no write of a commit fails, the agent publishes the configuration
  file exactly if the database has a document, that is if every list is readable, every list entry has its
  first value and no string has a control character other than tab, newline and carriage return; reading the file back gives
  exactly the lines of the document, with every string as it is in the database, whatever quotes, backslashes, line ends
  or YAML it contains. No descriptor stays open.\<close>

theorem snapshot_roundtrip:
  assumes "renders_numbers (ce_db env)" and "calm env path a" and "ce_faults env = (\<lambda>_. None)"
    and "process_commit env path a = (a', published)"
  shows "published = (document (ce_db env) \<noteq> None) \<and>
    (published \<longrightarrow> Option.bind (ag_files a' path) read_lines = document (ce_db env) \<and> ag_open a' = ag_open a)"
proof -
  obtain out ok where out: "write_document (ce_db env) (fdopen_stream (ce_faults env)) = (out, ok)" by fastforce
  then have "\<not> st_error out"
    using quiet_document [of "ce_db env", unfolded quiet_def, rule_format, of "fdopen_stream (ce_faults env)"]
    by (simp add: fdopen_stream_def assms(3))
  note written = document_written [OF assms(1) out this]
  from calm_commit [OF assms(2) out] written show ?thesis by (simp add: assms(4) fdopen_stream_def)
qed

definition sample_db :: "string \<Rightarrow> cdb" where
  "sample_db name = \<lparr>
     cdb_get_str = (\<lambda>n path. if path = ''/fastapi:fastapi/mempool/name'' then Some name else None),
     cdb_get_pp = (\<lambda>n path. if path = ''/fastapi:fastapi/port/receive_queues'' then Some ''2'' else None),
     cdb_get_bool = (\<lambda>path. None), cdb_num_instances = (\<lambda>path. 0)\<rparr>"

definition sample_env :: "string \<Rightarrow> (nat \<Rightarrow> nat option) \<Rightarrow> CommitEnv" where
  "sample_env name faults = \<lparr>ce_db = sample_db name,
     ce_inet = \<lparr>inet_pton4 = (\<lambda>text. if text = ''127.0.0.1'' then Some 0x0100007F else None), inet_pton6 = (\<lambda>text. None)\<rparr>,
     ce_socket = True, ce_connect = (\<lambda>address port. True), ce_start_session = True, ce_suffix = Some ''a1b2c3'',
     ce_fdopen = True, ce_faults = faults, ce_fflush = True, ce_fsync = True, ce_fclose = True, ce_rename = True,
     ce_leftover = None, ce_pidof = 42, ce_kill = (\<lambda>pid. pid = 42), ce_sync = True\<rparr>"

definition sample_agent :: "int \<Rightarrow> nat \<Rightarrow> Agent" where
  "sample_agent pid limit = \<lparr>config_path = Some ''c.yaml'', dpdk_pid = pid, confd_ip = ''127.0.0.1'', confd_port = 4565,
     ag_files = [''c.yaml'' \<mapsto> ''old''], ag_open = 4, ag_limit = limit, ag_signals = [], ag_reports = []\<rparr>"

lemma sample_renders: "renders_numbers (ce_db (sample_env name faults))"
  by (simp add: renders_numbers_def sample_env_def sample_db_def)

lemma sample_calm: "6 \<le> limit \<Longrightarrow> calm (sample_env name faults) ''c.yaml'' (sample_agent pid limit)"
  by (simp add: calm_def sample_env_def sample_agent_def PATH_BUF_SIZE_def)

text \<open>A value that tries to look like another key of the file.\<close>

definition hostile :: string where "hostile = [quote, newline] @ ''app:'' @ [newline, backslash]"

theorem snapshot_roundtrip_witness:
  "snd (process_commit (sample_env hostile (\<lambda>_. None)) ''c.yaml'' (sample_agent 42 16)) \<and>
   Option.bind (ag_files (fst (process_commit (sample_env hostile (\<lambda>_. None)) ''c.yaml'' (sample_agent 42 16))) ''c.yaml'')
     read_lines = document (sample_db hostile) \<and>
   Line 2 False ''name'' (Quoted hostile) \<in> set (the (document (sample_db hostile)))"
proof -
  have "document (sample_db hostile) \<noteq> None" "Line 2 False ''name'' (Quoted hostile) \<in> set (the (document (sample_db hostile)))"
    by code_simp+
  with snapshot_roundtrip [OF sample_renders sample_calm, of 16 hostile "\<lambda>_. None" 42] show ?thesis
    by (simp add: sample_env_def) (metis prod.collapse)
qed

theorem commit_atomic_witness:
  "\<exists>out. write_document (sample_db hostile) (fdopen_stream (\<lambda>_. None)) = (out, True) \<and>
     ag_files (handle_commit (sample_env hostile (\<lambda>_. None)) ''c.yaml'' (sample_agent 42 16)) ''c.yaml'' = Some (st_text out) \<and>
     (st_error out \<or> read_lines (st_text out) = document (sample_db hostile))"
proof -
  have "ag_signals (handle_commit (sample_env hostile (\<lambda>_. None)) ''c.yaml'' (sample_agent 42 16)) \<noteq> ag_signals (sample_agent 42 16)"
    by code_simp
  with commit_atomic [OF sample_renders refl, of hostile "\<lambda>_. None" "''c.yaml''" "sample_agent 42 16"] show ?thesis
    by (auto simp: sample_env_def)
qed

subsection \<open>Commits that fail\<close>

text \<open>A commit whose snapshot cannot be written, with a database and a system that do what they are asked for.\<close>

definition unwritable :: "Agent \<Rightarrow> CommitEnv \<Rightarrow> bool" where
  "unwritable a env \<longleftrightarrow>
     (case inet_pton4 (ce_inet env) (confd_ip a) of None \<Rightarrow> False
      | Some address \<Rightarrow> ce_connect env address (word_of_int (confd_port a))) \<and>
     ce_socket env \<and> ce_start_session env \<and> ce_suffix env \<noteq> None \<and> ce_fdopen env \<and> ce_sync env \<and>
     \<not> snd (write_document (ce_db env) (fdopen_stream (ce_faults env)))"

lemma unwritable_leaks:
  assumes "unwritable a env" and "length path + 11 < PATH_BUF_SIZE" and "a' = handle_commit env path a"
  shows "ag_open a' = (if ag_open a + 2 \<le> ag_limit a then ag_open a + 1 else ag_open a)" and "ag_limit a' = ag_limit a"
    and "confd_ip a' = confd_ip a" and "confd_port a' = confd_port a"
  using assms
  by (auto simp: unwritable_def handle_commit_def process_commit_def open_cdb_socket_def write_config_snapshot_def
      unlink_def report_def Let_def split: option.splits prod.splits)

lemma unwritable_loop:
  assumes "list_all (unwritable a) envs" and "length path + 11 < PATH_BUF_SIZE"
  shows "min (ag_limit a) (ag_open a + length envs + 1) \<le> ag_open (subscription_loop envs path a) + 1 \<and>
    ag_limit (subscription_loop envs path a) = ag_limit a"
  using assms(1)
proof (induction envs arbitrary: a)
  case (Cons env envs)
  let ?a = "handle_commit env path a"
  from Cons.prems have "unwritable a env" by simp
  note leak = unwritable_leaks [OF this assms(2) refl]
  have "unwritable ?a = unwritable a" unfolding fun_eq_iff unwritable_def leak(3,4) by simp
  with Cons have "min (ag_limit ?a) (ag_open ?a + length envs + 1) \<le> ag_open (subscription_loop envs path ?a) + 1 \<and>
      ag_limit (subscription_loop envs path ?a) = ag_limit ?a" by simp
  moreover have "ce_sync env" using \<open>unwritable a env\<close> by (simp add: unwritable_def)
  ultimately show ?case by (auto simp: Let_def leak(1,2) min_def split: if_splits)
qed simp

lemma starved:
  assumes "ag_limit a \<le> ag_open a + 1"
  shows "ag_files (handle_commit env path a) = ag_files a \<and> ag_signals (handle_commit env path a) = ag_signals a"
  using assms
  by (auto simp: handle_commit_def process_commit_def open_cdb_socket_def write_config_snapshot_def report_def
      split: option.splits)



text \<open>
  Two error paths that go unnoticed. The write of a string leaf's key is not checked: when it fails and the
  later writes succeed, the agent reports success and publishes a file that does not say what the
  database says. And once the agent knows a process id it never looks for another: when the data plane has been restarted, the new
  process is not signalled although \<^verbatim>\<open>pidof\<close> would find it.\<close>

theorem unnoticed_errors:
  "snd (process_commit (sample_env ''pool'' (\<lambda>n. if n = 4 then Some 0 else None)) ''c.yaml'' (sample_agent 42 16)) = True \<and>
   Option.bind (ag_files (fst (process_commit (sample_env ''pool'' (\<lambda>n. if n = 4 then Some 0 else None))
     ''c.yaml'' (sample_agent 42 16))) ''c.yaml'') read_lines \<noteq> document (sample_db ''pool'') \<and>
   ag_signals (handle_commit (sample_env ''pool'' (\<lambda>_. None)) ''c.yaml'' (sample_agent 41 16)) = [] \<and>
   ag_reports (handle_commit (sample_env ''pool'' (\<lambda>_. None)) ''c.yaml'' (sample_agent 41 16)) = [SignalFailed 41, SnapshotFailed] \<and>
   ag_signals (handle_commit (sample_env ''pool'' (\<lambda>_. None)) ''c.yaml'' (sample_agent 0 16)) = [42]"
  by (intro conjI; code_simp)

end
