(* ===== verification/Config_Convert.thy ===== *)
theory Config_Convert
  imports Config
begin

text \<open>
  Saving configurations (\<^verbatim>\<open>config/dpdk_config_loader.cpp\<close>) and the converter \<^verbatim>\<open>src/tools/yaml2beve.cpp\<close>. Files are an abstract state;
  reading and writing the two formats is the work of Glaze. What the theorems need of it: a value that was
  written as BEVE is read back from the file, and other files stay as they are.
\<close>

record 'fs glaze_ops =
  gz_reader :: "'fs \<Rightarrow> config_reader"
  gz_write_config_beve :: "DpdkConfig \<Rightarrow> string \<Rightarrow> 'fs \<Rightarrow> 'fs option"
  gz_write_store_beve :: "RuleStoreConfig \<Rightarrow> string \<Rightarrow> 'fs \<Rightarrow> 'fs option"

definition same_elsewhere :: "string \<Rightarrow> config_reader \<Rightarrow> config_reader \<Rightarrow> bool" where
  "same_elsewhere path r r' \<longleftrightarrow> (\<forall>q. q \<noteq> path \<longrightarrow>
     read_config_beve r' q = read_config_beve r q \<and> read_config_yaml r' q = read_config_yaml r q \<and>
     read_store_beve r' q = read_store_beve r q \<and> read_store_yaml r' q = read_store_yaml r q)"

definition glaze_contract :: "'fs glaze_ops \<Rightarrow> bool" where
  "glaze_contract gz \<longleftrightarrow>
     (\<forall>c path fs fs'. gz_write_config_beve gz c path fs = Some fs' \<longrightarrow>
        read_config_beve (gz_reader gz fs') path = Some c \<and> same_elsewhere path (gz_reader gz fs) (gz_reader gz fs')) \<and>
     (\<forall>s path fs fs'. gz_write_store_beve gz s path fs = Some fs' \<longrightarrow>
        read_store_beve (gz_reader gz fs') path = Some s \<and> same_elsewhere path (gz_reader gz fs) (gz_reader gz fs'))"

section \<open>Saving and converting\<close>

datatype SaveError = SaveBeveFailed string | SaveStoreFailed string

definition SaveConfigBinary :: "'fs glaze_ops \<Rightarrow> DpdkConfig \<Rightarrow> string \<Rightarrow> 'fs \<Rightarrow> SaveError + 'fs" where
  "SaveConfigBinary gz config path fs =
     (case gz_write_config_beve gz config path fs of None \<Rightarrow> Inl (SaveBeveFailed path) | Some fs' \<Rightarrow> Inr fs')"

definition SaveRuleStoreBinary :: "'fs glaze_ops \<Rightarrow> RuleStoreConfig \<Rightarrow> string \<Rightarrow> 'fs \<Rightarrow> SaveError + 'fs" where
  "SaveRuleStoreBinary gz rule_store path fs =
     (case gz_write_store_beve gz rule_store path fs of None \<Rightarrow> Inl (SaveStoreFailed path) | Some fs' \<Rightarrow> Inr fs')"

text \<open>\<^verbatim>\<open>main\<close> with the arguments after the program's name; the second component is the exit status.\<close>

definition yaml2beve :: "inet_ops \<Rightarrow> nat \<Rightarrow> 'fs glaze_ops \<Rightarrow> string list \<Rightarrow> 'fs \<Rightarrow> 'fs \<times> int" where
  "yaml2beve inet hardware_concurrency gz arguments fs =
     (if length arguments < 2 then (fs, 1)
      else let input_path = arguments ! 0; output_path = arguments ! 1;
               rules_only = (3 \<le> length arguments \<and> arguments ! 2 = ''--rules-only'')
      in case LoadConfig inet hardware_concurrency (gz_reader gz fs) input_path of
           Inl e \<Rightarrow> (fs, 1)
         | Inr config \<Rightarrow>
             (case (if rules_only then SaveRuleStoreBinary gz (store_of_config config) output_path fs
                    else SaveConfigBinary gz config output_path fs) of
                Inl e \<Rightarrow> (fs, 1)
              | Inr fs' \<Rightarrow> (fs', 0)))"

section \<open>The converter keeps the meaning\<close>

lemma ApplyRuleStore_idem: "ApplyRuleStore store (ApplyRuleStore store config) = ApplyRuleStore store config"
  by (simp add: ApplyRuleStore_def Let_def)

lemma ApplyRuleStore_rule_path: "rule_path (cfg_spi (ApplyRuleStore store config)) = rule_path (cfg_spi config)"
  by (simp add: ApplyRuleStore_def Let_def)

lemma LoadRuleStore_elsewhere:
  "same_elsewhere path r r' \<Longrightarrow> q \<noteq> path \<Longrightarrow> LoadRuleStore r' q = LoadRuleStore r q"
  by (simp add: same_elsewhere_def LoadRuleStore_def split: option.split)

lemma LoadConfig_valid:
  assumes "LoadConfig inet n reader path = Inr config"
  shows "ValidateConfig inet n config = Inr ()"
    and "rule_path (cfg_spi config) \<noteq> [] \<Longrightarrow>
      \<exists>store. LoadRuleStore reader (rule_path (cfg_spi config)) = Some store \<and> ApplyRuleStore store config = config"
  using assms
  by (auto simp: LoadConfig_def ApplyRuleStore_idem ApplyRuleStore_rule_path split: option.splits if_splits sum.splits)

text \<open>
  A converted configuration means the same: loading the BEVE file gives exactly what loading the original gave, including the
  rules that the original takes from a rule file, as long as the output does not overwrite that rule file.
\<close>

theorem converted_configuration_equivalent:
  assumes "glaze_contract gz" and "yaml2beve inet n gz [input, output] fs = (fs', 0)" and "is_binary_path output"
    and "LoadConfig inet n (gz_reader gz fs) input = Inr config" and "rule_path (cfg_spi config) \<noteq> output"
  shows "LoadConfig inet n (gz_reader gz fs') output = Inr config"
proof -
  have "gz_write_config_beve gz config output fs = Some fs'"
    using assms(2,4) by (auto simp: yaml2beve_def SaveConfigBinary_def split: option.splits)
  then have written: "read_config_beve (gz_reader gz fs') output = Some config"
    "same_elsewhere output (gz_reader gz fs) (gz_reader gz fs')"
    using assms(1) unfolding glaze_contract_def by blast+
  note valid = LoadConfig_valid [OF assms(4)]
  show ?thesis
  proof (cases "rule_path (cfg_spi config) = []")
    case True
    then show ?thesis using written(1) valid(1) assms(3) by (simp add: LoadConfig_def)
  next
    case False
    from valid(2) [OF False] LoadRuleStore_elsewhere [OF written(2) assms(5)]
    obtain store where "LoadRuleStore (gz_reader gz fs') (rule_path (cfg_spi config)) = Some store" "ApplyRuleStore store config = config"
      by auto
    then show ?thesis using written(1) valid(1) assms(3) False by (simp add: LoadConfig_def)
  qed
qed

text \<open>With \<^verbatim>\<open>--rules-only\<close> the output is a rule file with the rules of the configuration.\<close>

theorem converted_rules_equivalent:
  assumes "glaze_contract gz" and "yaml2beve inet n gz [input, output, ''--rules-only''] fs = (fs', 0)"
    and "is_binary_path output" and "LoadConfig inet n (gz_reader gz fs) input = Inr config"
  shows "LoadRuleStore (gz_reader gz fs') output = Some (store_of_config config)"
proof -
  have "gz_write_store_beve gz (store_of_config config) output fs = Some fs'"
    using assms(2,4) by (auto simp: yaml2beve_def SaveRuleStoreBinary_def split: option.splits)
  then have "read_store_beve (gz_reader gz fs') output = Some (store_of_config config)"
    using assms(1) unfolding glaze_contract_def by blast
  then show ?thesis using assms(3) by (simp add: LoadRuleStore_def)
qed

subsection \<open>An instance\<close>

datatype FileContents = BeveConfig DpdkConfig | BeveStore RuleStoreConfig | YamlConfig DpdkConfig | YamlStore RuleStoreConfig

definition file_glaze :: "(string \<Rightarrow> FileContents option) glaze_ops" where
  "file_glaze = \<lparr>
     gz_reader = (\<lambda>fs. \<lparr>
       read_config_beve = (\<lambda>p. case fs p of Some (BeveConfig c) \<Rightarrow> Some c | _ \<Rightarrow> None),
       read_config_yaml = (\<lambda>p. case fs p of Some (YamlConfig c) \<Rightarrow> Some c | _ \<Rightarrow> None),
       read_store_beve = (\<lambda>p. case fs p of Some (BeveStore s) \<Rightarrow> Some s | _ \<Rightarrow> None),
       read_store_yaml = (\<lambda>p. case fs p of Some (YamlStore s) \<Rightarrow> Some s | _ \<Rightarrow> None)\<rparr>),
     gz_write_config_beve = (\<lambda>c path fs. Some (fs(path \<mapsto> BeveConfig c))),
     gz_write_store_beve = (\<lambda>s path fs. Some (fs(path \<mapsto> BeveStore s)))\<rparr>"

lemma file_glaze_contract: "glaze_contract file_glaze"
  by (auto simp: glaze_contract_def file_glaze_def same_elsewhere_def)

end
