(* ===== verification/Spec2Isabelle.thy ===== *)
theory Spec2Isabelle
  imports Tcp_Reassembly Hostname_Cache Table_Managers Pipeline_Staging Pipeline_Control_Correct Reload_Barrier
    Pipeline_Dispatch Pcap_Replay_Correct App_Signal Flow_Concurrency Rule_Contexts Confd_Agent_Correct Config_Convert
begin

text \<open>
  Verification of \<^verbatim>\<open>dpdk_cpp\<close>, a DPDK packet classifier. Workers receive bursts of packets, look up the flow of each
  packet in a shared flow table, classify packets of new flows by a table of header rules
  (SPI) and, where the rules ask for it, by the hostname found in a TLS ClientHello or HTTP request
  (DPI), remember the decision, and forward or drop the packet. The main core
  starts the workers, prints statistics, purges old flows, reloads the configuration under
  a barrier and, in flow-hash mode, distributes the packets over the workers' rings. A second process,
  the ConfD agent, turns commits in a configuration database into configuration files and asks the main core for a
  reload. All paths below are relative to \<^verbatim>\<open>src/include/dpdk/\<close> unless they begin with \<^verbatim>\<open>src/\<close>.

  \<^bold>\<open>Theories and sources\<close>

  \<^item> \<^verbatim>\<open>Dpdk_Prelude\<close>: machine integers, byte order, byte strings, lemmas shared by all components.
  \<^item> \<^verbatim>\<open>Spi_Types\<close> (\<^verbatim>\<open>spi/spi_rule_engine.hpp\<close>): protocols, actions, packet metadata, results.
  \<^item> \<^verbatim>\<open>Tcp_Reassembly\<close> (\<^verbatim>\<open>spi/spi_tcp_reassembly.*\<close>): the stream reassembler with its limits.
  \<^item> \<^verbatim>\<open>Hostname_Cache\<close> (\<^verbatim>\<open>dpi/hostname_cache.hpp\<close>): the per-worker cache of DPI results.
  \<^item> \<^verbatim>\<open>Table_Managers\<close> (\<^verbatim>\<open>spi/spi_rule_table_manager.hpp\<close>, \<^verbatim>\<open>dpi/dpi_rule_table_manager.hpp\<close>): publication and
    reclamation of tables, with an explicit heap.
  \<^item> \<^verbatim>\<open>Flow_Table\<close> (\<^verbatim>\<open>spi/spi_flow_table.*\<close>): keys, packed entries, lookup, insertion, purge, each as
    one step. \<^verbatim>\<open>Flow_Concurrency\<close>: the same operations statement by statement, interleaved between workers and main core.
  \<^item> \<^verbatim>\<open>Ip_Address\<close> (\<^verbatim>\<open>spi/spi_ip_address.*\<close>) and \<^verbatim>\<open>Config\<close> (\<^verbatim>\<open>config/\<close>): parsing, the configuration records,
    their defaults, validation and loading. \<^verbatim>\<open>Config_Convert\<close> (\<^verbatim>\<open>src/tools/yaml2beve.cpp\<close>): saving and the converter, with
    the proof that a converted configuration loads as the original.
  \<^item> \<^verbatim>\<open>Dpi_Engine\<close> (\<^verbatim>\<open>dpi/dpi_rule_engine.*\<close>): compilation and matching of hostname rules.
  \<^item> \<^verbatim>\<open>Rule_Engine\<close> with \<^verbatim>\<open>Rule_Engine_Correct\<close>, \<^verbatim>\<open>Rule_Match_Correct\<close> and \<^verbatim>\<open>Rule_Prefilter_Correct\<close>
    (\<^verbatim>\<open>spi/spi_rule_engine.*\<close>): compilation of header rules into ACL chunks, matching one packet and a burst,
    the tuple space, the membership pre-filter, the links from header rules to hostname rules.
    \<^verbatim>\<open>Rule_Contexts\<close>: who creates, owns and frees the library contexts of a table, over batches of compilation
    tasks, moves and reloads, and the construction of the FIB.
  \<^item> \<^verbatim>\<open>Packet_Parser\<close> with \<^verbatim>\<open>Packet_Parser_Correct\<close> (\<^verbatim>\<open>spi/spi_packet_parser.*\<close>): headers, fragments, hostnames.
  \<^item> \<^verbatim>\<open>Environment\<close> (\<^verbatim>\<open>dpdk_environment.*\<close>): EAL arguments, port mask, port start-up with every error path.
  \<^item> \<^verbatim>\<open>L3_Forward\<close> with \<^verbatim>\<open>L3_Forward_Correct\<close> (\<^verbatim>\<open>spi/spi_pipeline.cpp\<close>): routes, MAC addresses, header rewriting.
  \<^item> \<^verbatim>\<open>Pipeline_Counters\<close> and \<^verbatim>\<open>Pipeline\<close> (\<^verbatim>\<open>spi/spi_pipeline.*\<close>): the counters and everything a worker or the
    dispatcher does with a burst. \<^verbatim>\<open>Pipeline_Steps\<close> holds the interface for properties of classification,
    \<^verbatim>\<open>Pipeline_Sample\<close> a concrete worker, and \<^verbatim>\<open>Pipeline_Accounting\<close>, \<^verbatim>\<open>Pipeline_Staging\<close>,
    \<^verbatim>\<open>Pipeline_Decisions\<close> and \<^verbatim>\<open>Pipeline_Dispatch\<close> the properties.
  \<^item> \<^verbatim>\<open>Reload_Barrier\<close> (\<^verbatim>\<open>spi/spi_pipeline.cpp\<close>, \<^verbatim>\<open>MaybeReload\<close> and the worker loops): the pause protocol as a transition
    system in which main core and workers interleave freely.
  \<^item> \<^verbatim>\<open>Pipeline_Control\<close> with \<^verbatim>\<open>Pipeline_Control_Correct\<close> (\<^verbatim>\<open>spi/spi_pipeline.*\<close>, \<^verbatim>\<open>src/main.cpp\<close>): the pipeline
    object, its workers and rings, the main loop, reloading, and \<^verbatim>\<open>main\<close> up to the run.
  \<^item> \<^verbatim>\<open>Pcap_Replay\<close> with \<^verbatim>\<open>Pcap_Replay_Correct\<close> (\<^verbatim>\<open>pcap/pcap_replay.*\<close>): reading and replaying capture files.
  \<^item> \<^verbatim>\<open>App_Signal\<close> (\<^verbatim>\<open>app_signal.*\<close>): the signal flags.
  \<^item> \<^verbatim>\<open>Confd_Agent\<close> with \<^verbatim>\<open>Confd_Agent_Correct\<close> (\<^verbatim>\<open>src/confd/fastapi_confd.c\<close>): the agent's writers over streams that may
    fail at any write, publication, signalling, its loop and arguments; a reader for the files it writes.

  \<^bold>\<open>How the code is modelled\<close>

  Structures are records and enumerations datatypes with the names of the source; integers keep their width, so sums of
  counters, sequence numbers, hashes and time stamps wrap as in the code. An operation that changes an
  object returns the changed object. A failure that the code returns is a value of a sum or option type, and an access
  outside a span or array, an overrun buffer or a call of \<^verbatim>\<open>std::abort\<close> is a fault value that the theorems
  exclude or exhibit. A worker's burst is a record that extends the worker's context with staging buffers, counters and
  recorded effects (packets held, redispatched, sent).

  DPDK, Hyperscan, Glaze, libpcap, ConfD, the system calls and the C library's address functions are not part of the source. They are parameters of the definitions:
  \<open>acl_ops\<close>, \<open>member_ops\<close>, \<open>rte_hash_ops\<close>, \<open>hs_ops\<close>, \<open>pkt_ops\<close>, \<open>cksum_ops\<close>, \<open>eth_ops\<close>, \<open>inet_ops\<close>,
  \<open>config_reader\<close>, \<open>control_ops\<close>, \<open>replay_ops\<close>, \<open>fib_ops\<close>, \<open>CompileEnv\<close>, \<open>cdb\<close>, \<open>CommitEnv\<close>, and \<open>dpdk_ops\<close> which bundles those of the packet path.
  What the theorems need of them is stated as named contracts (\<open>acl_contract\<close>, \<open>tx_contract\<close>, \<open>ring_contract\<close>,
  \<open>offline_contract\<close> and so on), each shown to be satisfiable by a concrete implementation that the witnesses use.

  Loops over data are structural recursion or folds. Loops that wait or read until the end of a file are \<^verbatim>\<open>partial_function\<close>s whose
  result is proved to exist. The barrier is an inductive step relation, with a Boolean parameter for the assumption that each worker has left the
  previous pause before the next one begins. The searches for hostnames and headers are functions with termination proofs; no definition uses fuel.

  \<^bold>\<open>What is shown\<close>

  \<^item> Reassembly returns only contiguous pieces of the sender's stream and stays within its limits.
  \<^item> A compiled rule table answers with the matching group of least precedence, a compiled DPI table with a matching filter of
    least priority value; bulk operations answer like single ones; the pre-filter skips no packet that a rule matches.
  \<^item> Flow table: keys identify connections, entries are neither lost nor duplicated, purging removes
    what has expired when positions and indices agree; under every interleaving of the workers' statements without a purge each
    answer was stored for the flow that was asked.
  \<^item> Parsing inverts the construction of a frame, hands over buffers exactly while fragments are awaited, and extracts
    hostnames without leaving the payload.
  \<^item> Packet path: every packet is accounted for on both paths, staging buffers do not overrun in L2 mode, both paths classify
    alike, a flow keeps its decision, the dispatcher keeps flows together and in order.
  \<^item> Control: start-up never aborts, a reload happens completely or not at all, tables are published while the workers are paused, the
    pause is reached and the workers stop, the statistics are exact.
  \<^item> Replay: it returns, releases everything, and is exact.
  \<^item> Agent: a commit changes the configuration file completely or not at all and signals only after publication; reading a
    published file back gives exactly what the database holds.
  \<^item> Defects of the code are theorems too: purging and resizing confuse keys, moved rule tables lose the wildcard flag,
    the fallback matcher disagrees with Hyperscan, a five-byte TLS record is read past its end, a single worker or a
    straggler sees tables change during an iteration, the replay's rate limiter does not wait, racing insertions lose entries, a
    reader overtaken by a purge answers for another flow, reloads share the ACL contexts of the active table by name, and
    failed commits use up the agent's descriptors.

  \<^bold>\<open>Interfaces\<close>

  Contracts that several components share are locales, interpreted on the model's operations where those are defined: \<open>ranked_choice\<close> (a table
  answers with a hit of least rank) for the SPI and the DPI table, \<open>first_match\<close>, which gives it for sorted lists, for the
  routes; \<open>memo_cache\<close> for the hostname cache; \<open>flow_cache\<close> for the flow table; \<open>deferred_reclaim\<close> for both table managers.
  Properties of every step of classification are proved once in \<open>classification_steps\<close> and used through three
  interpretations, for the book-keeping, the staging buffers and the pending counters of a worker.

  \<^bold>\<open>Not modelled\<close>

  Weak memory: every interleaving is of sequentially consistent steps. \<open>Rule_Engine\<close> and the theorems on reloading take a library context
  as a value that compilation creates afresh; that the names of contexts break this is shown apart, in \<open>Rule_Contexts\<close>.
  Prefetching, batching hints and thread affinity; log output and formatting; the copy of the DPDK l2fwd example under \<^verbatim>\<open>src/docs/\<close>, which is not
  part of the build; tests and scripts.
\<close>

end
